(* ===== verification/Prelude.thy ===== *)
theory Prelude
  imports Main "HOL-Library.Word" "HOL-Library.Sublist"
begin

text \<open>
  Shared vocabulary of the development: the value types of the Go program (strings are byte
  sequences, integers are 64-bit words), the errors it builds with \<open>fmt.Errorf\<close>, the result type of a
  fallible call, the part of the packages \<open>strings\<close> and \<open>strconv\<close> that the program uses, and the generic
  lemmas the components share.
\<close>

section \<open>Go values\<close>

text \<open>
  A Go string is a sequence of bytes, and \<open>char\<close> is an 8-bit byte, so \<open>string\<close> is exactly a Go string.
  The Go type \<open>int\<close> is 64 bits wide on the supported platforms; its arithmetic wraps around.
\<close>

type_synonym int64 = "64 word"

text \<open>
  Errors. \<open>Errorf m\<close> is \<open>fmt.Errorf\<close> or \<open>errors.New\<close> without a wrapped error, \<open>Wrapf p e q\<close> is a format with
  one \<open>%w\<close> verb between the texts \<open>p\<close> and \<open>q\<close>, \<open>OsError n m\<close> is an error of the operating system
  with its class, \<open>ExitError c m\<close> is \<open>*exec.ExitError\<close> with its exit code and its text, \<open>ErrSocketInUse\<close> is the sentinel of
  \<open>internal/agent/protocol.go\<close>, and \<open>ErrPaneNotFound id\<close> is the error \<open>pane %q not found\<close> of
  \<open>internal/pane/manager.go\<close> with its argument.
\<close>

datatype errno = ENOENT | EOTHER

datatype go_error =
    Errorf string
  | Wrapf string go_error string
  | OsError errno string
  | ExitError int string
  | ErrSocketInUse
  | ErrPaneNotFound string

type_synonym 'a result = "go_error + 'a"

named_theorems go_simps \<open>unfolding rules of the library functions of Go\<close>

section \<open>Decimal numbers: strconv.Itoa\<close>

definition digit_char :: "nat \<Rightarrow> char" where
  "digit_char d = char_of (48 + d)"

fun nat_digits :: "nat \<Rightarrow> string" where
  "nat_digits n =
     (if n < 10 then [digit_char n] else nat_digits (n div 10) @ [digit_char (n mod 10)])"

declare nat_digits.simps [simp del]

definition Itoa :: "int \<Rightarrow> string" where
  "Itoa i = (if i < 0 then CHR ''-'' # nat_digits (nat (- i)) else nat_digits (nat i))"

definition is_digit :: "char \<Rightarrow> bool" where
  "is_digit c \<longleftrightarrow> 48 \<le> (of_char c :: nat) \<and> (of_char c :: nat) \<le> 57"

definition digits_value :: "string \<Rightarrow> nat" where
  "digits_value s = foldl (\<lambda>n c. 10 * n + (of_char c - 48)) 0 s"

lemma of_char_digit_char: "d < 10 \<Longrightarrow> of_char (digit_char d) = 48 + d"
  by (simp add: digit_char_def)

lemma digit_char_simps [simp]:
  "digit_char 0 = CHR ''0''" "digit_char (Suc 0) = CHR ''1''" "digit_char 2 = CHR ''2''"
  "digit_char 3 = CHR ''3''" "digit_char 4 = CHR ''4''" "digit_char 5 = CHR ''5''"
  "digit_char 6 = CHR ''6''" "digit_char 7 = CHR ''7''" "digit_char 8 = CHR ''8''"
  "digit_char 9 = CHR ''9''"
  by (code_simp+)

lemma is_digit_digit_char [simp]: "d < 10 \<Longrightarrow> is_digit (digit_char d)"
  by (simp add: is_digit_def of_char_digit_char)

lemma is_digit_not_minus [simp]: "\<not> is_digit (CHR ''-'')" "\<not> is_digit (CHR ''%'')"
  by (simp_all add: is_digit_def)

lemma nat_digits_not_Nil [simp]: "nat_digits n \<noteq> []"
  by (subst nat_digits.simps) simp

lemma nat_digits_digits: "list_all is_digit (nat_digits n)"
proof (induction n rule: nat_digits.induct)
  case (1 n)
  then show ?case by (subst nat_digits.simps) auto
qed

lemma digits_value_snoc: "digits_value (s @ [c]) = 10 * digits_value s + (of_char c - 48)"
  by (simp add: digits_value_def)

lemma digits_value_nat_digits [simp]: "digits_value (nat_digits n) = n"
proof (induction n rule: nat_digits.induct)
  case (1 n)
  show ?case
  proof (cases "n < 10")
    case True
    then show ?thesis
      by (simp add: nat_digits.simps [of n] digits_value_def of_char_digit_char)
  next
    case False
    with 1 show ?thesis
      by (simp add: nat_digits.simps [of n] digits_value_snoc of_char_digit_char)
  qed
qed

lemma nat_digits_inject [simp]: "nat_digits m = nat_digits n \<longleftrightarrow> m = n"
  by (metis digits_value_nat_digits)

lemma nat_digits_no_minus: "nat_digits n \<noteq> CHR ''-'' # s"
  using nat_digits_digits [of n] by auto

lemma Itoa_inject [simp]: "Itoa i = Itoa j \<longleftrightarrow> i = j"
proof -
  have "CHR ''-'' # s \<noteq> nat_digits n" for s n
    using nat_digits_no_minus [of n s] by metis
  then show ?thesis
    using nat_digits_no_minus by (auto simp: Itoa_def)
qed

lemma Itoa_not_Nil [simp]: "Itoa i \<noteq> []"
  by (simp add: Itoa_def)

lemma Itoa_digits: "0 \<le> i \<Longrightarrow> list_all is_digit (Itoa i)"
  by (simp add: Itoa_def nat_digits_digits)

section \<open>Searching strings: strings.Index, LastIndex, IndexByte\<close>

text \<open>An index is an \<open>option\<close>: \<open>None\<close> is Go's \<open>-1\<close>.\<close>

fun str_index :: "string \<Rightarrow> string \<Rightarrow> nat option" where
  "str_index [] sub = (if sub = [] then Some 0 else None)"
| "str_index (c # cs) sub =
     (if prefix sub (c # cs) then Some 0 else map_option Suc (str_index cs sub))"

fun str_last_index :: "string \<Rightarrow> string \<Rightarrow> nat option" where
  "str_last_index [] sub = (if sub = [] then Some 0 else None)"
| "str_last_index (c # cs) sub =
     (case str_last_index cs sub of
        Some i \<Rightarrow> Some (Suc i)
      | None \<Rightarrow> if prefix sub (c # cs) then Some 0 else None)"

fun index_byte :: "string \<Rightarrow> char \<Rightarrow> nat option" where
  "index_byte [] b = None"
| "index_byte (c # cs) b = (if c = b then Some 0 else map_option Suc (index_byte cs b))"

lemma str_index_Some:
  "str_index s sub = Some i \<Longrightarrow> s = take i s @ sub @ drop (i + length sub) s"
  by (induction s arbitrary: i) (auto simp: prefix_def split: if_splits)

lemma str_index_bound: "str_index s sub = Some i \<Longrightarrow> i + length sub \<le> length s"
  by (induction s arbitrary: i) (auto dest: prefix_length_le split: if_splits)

lemma str_index_None: "str_index s sub = None \<longleftrightarrow> \<not> sublist sub s"
  by (induction s) (auto simp: sublist_Cons_right)

lemma str_index_first:
  "str_index s sub = Some i \<Longrightarrow> sub \<noteq> [] \<Longrightarrow> \<not> sublist sub (take i s)"
proof (induction s arbitrary: i)
  case (Cons c cs)
  show ?case
  proof (cases i)
    case (Suc j)
    with Cons have "\<not> prefix sub (c # cs)" and "\<not> sublist sub (take j cs)"
      by (auto split: if_splits)
    moreover have "prefix (c # take j cs) (c # cs)"
      by (simp add: take_is_prefix)
    ultimately show ?thesis
      using Suc prefix_order.trans by (fastforce simp: sublist_Cons_right)
  qed (use Cons in simp)
qed simp

lemma index_byte_Some:
  "index_byte s b = Some i \<Longrightarrow> i < length s \<and> s = take i s @ b # drop (Suc i) s \<and> b \<notin> set (take i s)"
  by (induction s arbitrary: i) (auto split: if_splits)

lemma index_byte_None: "index_byte s b = None \<longleftrightarrow> b \<notin> set s"
  by (induction s) auto

lemma index_byte_append: "b \<notin> set p \<Longrightarrow> index_byte (p @ b # s) b = Some (length p)"
  by (induction p) auto

lemma str_last_index_char_None: "str_last_index s [b] = None \<longleftrightarrow> b \<notin> set s"
  by (induction s) (auto split: option.splits)

lemma str_last_index_char_append:
  "b \<notin> set s \<Longrightarrow> str_last_index (p @ b # s) [b] = Some (length p)"
  by (induction p) (simp_all add: str_last_index_char_None [THEN iffD2])

section \<open>Texts of errors\<close>

text \<open>\<open>%q\<close> of an ASCII string; the identifiers the program quotes are decimal numbers.\<close>

definition quote_char :: "char \<Rightarrow> string" where
  "quote_char c =
     (let n = of_char c; hex = (\<lambda>d. if d < 10 then digit_char d else char_of (87 + d)) in
      if c = CHR 0x22 \<or> c = CHR 0x5C then [CHR 0x5C, c]
      else if c = CHR 0x07 then [CHR 0x5C, CHR ''a''] else if c = CHR 0x08 then [CHR 0x5C, CHR ''b'']
      else if c = CHR 0x0C then [CHR 0x5C, CHR ''f''] else if c = CHR 0x0A then [CHR 0x5C, CHR ''n'']
      else if c = CHR 0x0D then [CHR 0x5C, CHR ''r''] else if c = CHR 0x09 then [CHR 0x5C, CHR ''t'']
      else if c = CHR 0x0B then [CHR 0x5C, CHR ''v'']
      else if n < 32 \<or> n = 127 then [CHR 0x5C, CHR ''x'', hex (n div 16), hex (n mod 16)]
      else [c])"

definition Quote :: "string \<Rightarrow> string" where
  "Quote s = [CHR 0x22] @ concat (map quote_char s) @ [CHR 0x22]"

lemma Quote_digits: "list_all is_digit s \<Longrightarrow> Quote s = [CHR 0x22] @ s @ [CHR 0x22]"
proof -
  have "quote_char c = [c]" if "is_digit c" for c
  proof -
    define n :: nat where "n = of_char c"
    from that have n: "48 \<le> n" "n \<le> 57" by (simp_all add: is_digit_def n_def)
    have c: "c = char_of n" by (simp add: n_def)
    from n have "n = 48 \<or> n = 49 \<or> n = 50 \<or> n = 51 \<or> n = 52 \<or> n = 53 \<or> n = 54 \<or> n = 55 \<or> n = 56 \<or> n = 57"
      by presburger
    then show ?thesis unfolding c by (elim disjE) (simp_all only:, code_simp+)
  qed
  then have "list_all is_digit s \<Longrightarrow> concat (map quote_char s) = s" by (induction s) simp_all
  then show "list_all is_digit s \<Longrightarrow> Quote s = [CHR 0x22] @ s @ [CHR 0x22]" by (simp add: Quote_def)
qed

primrec error_string :: "go_error \<Rightarrow> string" where
  "error_string (Errorf m) = m"
| "error_string (Wrapf p e q) = p @ error_string e @ q"
| "error_string (OsError n m) = m"
| "error_string (ExitError c m) = m"
| "error_string ErrSocketInUse = ''socket is already in use by another process''"
| "error_string (ErrPaneNotFound paneID) = ''pane '' @ Quote paneID @ '' not found''"

section \<open>Generic lemmas\<close>

lemma sint_add_one:
  "sint (w :: int64) < 2 ^ 63 - 1 \<Longrightarrow> sint (w + 1) = sint w + 1"
  using sint_greater_eq [of w]
  by (simp add: sint_word_ariths signed_take_bit_int_eq_self)

lemma map_sum_Inr_conv: "map_sum id f x = Inr y \<longleftrightarrow> (\<exists>z. x = Inr z \<and> y = f z)"
  by (cases x) auto

lemma map_sum_Inl_conv: "map_sum id f x = Inl e \<longleftrightarrow> x = Inl e"
  by (cases x) auto

end
