(* ===== verification/Option_Loop.thy ===== *)
theory Option_Loop
  imports Prelude
begin

text \<open>
  The interface every option loop of \<open>internal/tmux/parser.go\<close> follows. Nine functions of that file walk
  over an argument slice with an index; each argument is a flag, which changes the options, or takes the
  next argument as its value, and the loop fails exactly when the value is missing. The locale
  \<open>option_loop\<close> names that contract, and everything that holds for all of the parsers (a denotation by
  tokens, composition over \<open>@\<close>, the exact condition for an error, invariants of the options) is proved once
  here. \<open>Parser\<close> interprets it for each of the loops.
\<close>

section \<open>Tokens: the declarative reading of an argument list\<close>

datatype token = TFlag string | TOpt string string

definition missing_value :: "string \<Rightarrow> go_error" where
  "missing_value a = Errorf (a @ '' requires a value'')"

fun tokenize :: "(string \<Rightarrow> bool) \<Rightarrow> string list \<Rightarrow> token list result" where
  "tokenize valued [] = Inr []"
| "tokenize valued (a # as) =
     (if valued a then
        (case as of
           [] \<Rightarrow> Inl (missing_value a)
         | v # as' \<Rightarrow> map_sum id (Cons (TOpt a v)) (tokenize valued as'))
      else map_sum id (Cons (TFlag a)) (tokenize valued as))"

fun untokenize :: "token list \<Rightarrow> string list" where
  "untokenize [] = []"
| "untokenize (TFlag a # ts) = a # untokenize ts"
| "untokenize (TOpt a v # ts) = a # v # untokenize ts"

text \<open>The second equation is replaced by one rule per kind of argument, which the simplifier can use.\<close>

lemma tokenize_flag [simp]:
  "\<not> valued a \<Longrightarrow> tokenize valued (a # as) = map_sum id (Cons (TFlag a)) (tokenize valued as)"
  by simp

lemma tokenize_missing [simp]: "valued a \<Longrightarrow> tokenize valued [a] = Inl (missing_value a)"
  by simp

lemma tokenize_opt [simp]:
  "valued a \<Longrightarrow>
     tokenize valued (a # v # as) = map_sum id (Cons (TOpt a v)) (tokenize valued as)"
  by simp

declare tokenize.simps(2) [simp del]

lemma tokenize_induct [case_names Nil Flag Missing Opt]:
  assumes "P []"
    and "\<And>a as. \<not> valued a \<Longrightarrow> P as \<Longrightarrow> P (a # as)"
    and "\<And>a. valued a \<Longrightarrow> P [a]"
    and "\<And>a v as. valued a \<Longrightarrow> P as \<Longrightarrow> P (a # v # as)"
  shows "P (xs :: string list)"
proof (induction xs rule: length_induct)
  case (1 xs)
  then have IH: "P ys" if "length ys < length xs" for ys
    using that by blast
  show ?case
  proof (cases xs)
    case Nil
    with assms(1) show ?thesis by simp
  next
    case (Cons a as)
    with IH assms(2-4) show ?thesis
      by (cases "valued a"; cases as) auto
  qed
qed

lemma tokenize_untokenize: "tokenize valued as = Inr ts \<Longrightarrow> untokenize ts = as"
  by (induction as arbitrary: ts rule: tokenize_induct [where valued = valued])
     (auto simp: map_sum_Inr_conv)

lemma tokenize_append:
  "tokenize valued xs = Inr ts \<Longrightarrow>
     tokenize valued (xs @ ys) = map_sum id ((@) ts) (tokenize valued ys)"
  by (induction xs arbitrary: ts rule: tokenize_induct [where valued = valued];
      cases "tokenize valued ys") (auto simp: map_sum_Inr_conv)

lemma tokenize_error:
  "tokenize valued xs = Inl e \<Longrightarrow>
     \<exists>ys a ts. xs = ys @ [a] \<and> valued a \<and> tokenize valued ys = Inr ts \<and> e = missing_value a"
proof (induction xs rule: tokenize_induct [where valued = valued])
  case Nil
  then show ?case by simp
next
  case (Flag a as)
  then obtain ys b ts where "as = ys @ [b]" "valued b" "tokenize valued ys = Inr ts"
      "e = missing_value b"
    by (auto simp: map_sum_Inl_conv)
  with Flag show ?case
    by (intro exI [of _ "a # ys"] exI [of _ b] exI [of _ "TFlag a # ts"]) simp
next
  case (Missing a)
  then show ?case by (intro exI [of _ "[]"] exI [of _ a]) simp
next
  case (Opt a v as)
  then obtain ys b ts where "as = ys @ [b]" "valued b" "tokenize valued ys = Inr ts"
      "e = missing_value b"
    by (auto simp: map_sum_Inl_conv)
  with Opt show ?case
    by (intro exI [of _ "a # v # ys"] exI [of _ b] exI [of _ "TOpt a v # ts"]) simp
qed

lemma tokenize_error_iff:
  "tokenize valued xs = Inl e \<longleftrightarrow>
     (\<exists>ys a ts. xs = ys @ [a] \<and> valued a \<and> tokenize valued ys = Inr ts \<and> e = missing_value a)"
  using tokenize_error by (auto simp: tokenize_append)

section \<open>Reading a field off the tokens: the last occurrence wins\<close>

definition last_of :: "'v \<Rightarrow> (token \<Rightarrow> 'v option) \<Rightarrow> token list \<Rightarrow> 'v" where
  "last_of d f ts = last (d # List.map_filter f ts)"

fun value_of :: "string \<Rightarrow> token \<Rightarrow> string option" where
  "value_of k (TOpt n v) = (if n = k then Some v else None)"
| "value_of k (TFlag n) = None"

definition last_value :: "string \<Rightarrow> token list \<Rightarrow> string" where
  "last_value k ts = last_of '''' (value_of k) ts"

definition has_flag :: "string \<Rightarrow> token list \<Rightarrow> bool" where
  "has_flag k ts \<longleftrightarrow> TFlag k \<in> set ts"

lemma last_of_Nil [simp]: "last_of d f [] = d"
  by (simp add: last_of_def)

lemma last_of_Cons [simp]:
  "last_of d f (t # ts) = last_of (case f t of None \<Rightarrow> d | Some v \<Rightarrow> v) f ts"
  by (simp add: last_of_def split: option.splits)

lemma last_of_append: "last_of d f (ts @ us) = last_of (last_of d f ts) f us"
  by (induction ts arbitrary: d) simp_all

lemma last_of_none: "(\<forall>t \<in> set ts. f t = None) \<Longrightarrow> last_of d f ts = d"
  by (induction ts) simp_all

lemma fold_field_last:
  assumes "\<And>t opts. field (step t opts) = (case f t of None \<Rightarrow> field opts | Some v \<Rightarrow> v)"
  shows "field (fold step ts opts) = last_of (field opts) f ts"
  by (induction ts arbitrary: opts) (simp_all add: assms)

lemma fold_field_flag:
  assumes "\<And>t opts. field (step t opts) = (field opts \<or> t = TFlag k)"
  shows "field (fold step ts opts) = (field opts \<or> has_flag k ts)"
  by (induction ts arbitrary: opts) (auto simp: assms has_flag_def)

section \<open>The interface\<close>

datatype 'o action = Flag "'o \<Rightarrow> 'o" | Valued "string \<Rightarrow> 'o \<Rightarrow> 'o"

primrec is_valued :: "'o action \<Rightarrow> bool" where
  "is_valued (Flag f) = False"
| "is_valued (Valued s) = True"

fun apply_token :: "(string \<Rightarrow> 'o action) \<Rightarrow> token \<Rightarrow> 'o \<Rightarrow> 'o" where
  "apply_token act (TFlag a) opts = (case act a of Flag f \<Rightarrow> f opts | Valued s \<Rightarrow> opts)"
| "apply_token act (TOpt a v) opts = (case act a of Flag f \<Rightarrow> opts | Valued s \<Rightarrow> s v opts)"

locale option_loop =
  fixes act :: "string \<Rightarrow> 'o action"
    and parse :: "'o \<Rightarrow> string list \<Rightarrow> 'o result"
  assumes parse_Nil: "parse opts [] = Inr opts"
    and parse_flag: "act a = Flag f \<Longrightarrow> parse opts (a # as) = parse (f opts) as"
    and parse_missing: "act a = Valued s \<Longrightarrow> parse opts [a] = Inl (missing_value a)"
    and parse_value: "act a = Valued s \<Longrightarrow> parse opts (a # v # as) = parse (s v opts) as"
begin

lemma parse_tokens:
  "parse opts as =
     map_sum id (\<lambda>ts. fold (apply_token act) ts opts) (tokenize (\<lambda>a. is_valued (act a)) as)"
proof (induction as arbitrary: opts rule: tokenize_induct [where valued = "\<lambda>a. is_valued (act a)"])
  case Nil
  then show ?case by (simp add: parse_Nil)
next
  case (Flag a as)
  then obtain f where "act a = Flag f" by (cases "act a") auto
  with Flag show ?case
    by (cases "tokenize (\<lambda>a. is_valued (act a)) as") (simp_all add: parse_flag)
next
  case (Missing a)
  then obtain s where "act a = Valued s" by (cases "act a") auto
  then show ?case by (simp add: parse_missing)
next
  case (Opt a v as)
  then obtain s where "act a = Valued s" by (cases "act a") auto
  with Opt show ?case
    by (cases "tokenize (\<lambda>a. is_valued (act a)) as") (simp_all add: parse_value)
qed

lemma parse_append:
  "parse opts xs = Inr opts' \<Longrightarrow> parse opts (xs @ ys) = parse opts' ys"
  by (cases "tokenize (\<lambda>a. is_valued (act a)) ys")
     (auto simp: parse_tokens tokenize_append map_sum_Inr_conv)

lemma parse_error_iff:
  "parse opts xs = Inl e \<longleftrightarrow>
     (\<exists>ys a. xs = ys @ [a] \<and> is_valued (act a) \<and> (\<exists>opts'. parse opts ys = Inr opts') \<and>
       e = missing_value a)"
  by (auto simp: parse_tokens map_sum_Inl_conv map_sum_Inr_conv tokenize_error_iff)

lemma parse_inv:
  assumes "P opts" and "\<And>t o'. P o' \<Longrightarrow> P (apply_token act t o')"
    and "parse opts xs = Inr opts'"
  shows "P opts'"
proof -
  have "P (fold (apply_token act) ts opts)" for ts
    using assms(1) by (induction ts arbitrary: opts) (simp_all add: assms(2))
  with assms(3) show ?thesis by (auto simp: parse_tokens map_sum_Inr_conv)
qed

end

section \<open>Loops that stop at the first argument they do not know\<close>

text \<open>
  \<open>Parse\<close> and \<open>ParseSendKeys\<close> consume options from the front of the slice only, and hand what is left to
  \<open>halt\<close> at the first argument that is not an option. \<open>consumes act opts pre opts'\<close> is the declarative reading of
  the consumed prefix.
\<close>

inductive consumes :: "(string \<Rightarrow> 'o action option) \<Rightarrow> 'o \<Rightarrow> string list \<Rightarrow> 'o \<Rightarrow> bool"
  for act :: "string \<Rightarrow> 'o action option" where
  consumes_Nil: "consumes act opts [] opts"
| consumes_flag: "act a = Some (Flag f) \<Longrightarrow> consumes act (f opts) as opts' \<Longrightarrow>
     consumes act opts (a # as) opts'"
| consumes_value: "act a = Some (Valued s) \<Longrightarrow> consumes act (s v opts) as opts' \<Longrightarrow>
     consumes act opts (a # v # as) opts'"

inductive_cases consumes_NilE [elim!]: "consumes act opts [] opts'"
inductive_cases consumes_ConsE: "consumes act opts (a # as) opts'"

lemma consumes_append:
  "consumes act opts xs opts' \<Longrightarrow> consumes act opts' ys opts'' \<Longrightarrow> consumes act opts (xs @ ys) opts''"
  by (induction rule: consumes.induct) (auto intro: consumes.intros)

lemma consumes_functional:
  "consumes act opts xs opts1 \<Longrightarrow> consumes act opts xs opts2 \<Longrightarrow> opts1 = opts2"
proof (induction arbitrary: opts2 rule: consumes.induct)
  case (consumes_flag a f opts as opts')
  from consumes_flag.prems consumes_flag.hyps(1) have "consumes act (f opts) as opts2"
    by (cases rule: consumes_ConsE) auto
  then show ?case by (rule consumes_flag.IH)
next
  case (consumes_value a s v opts as opts')
  from consumes_value.prems consumes_value.hyps(1) have "consumes act (s v opts) as opts2"
    by (cases rule: consumes_ConsE) auto
  then show ?case by (rule consumes_value.IH)
qed blast

locale prefix_loop =
  fixes act :: "string \<Rightarrow> 'o action option"
    and halt :: "'o \<Rightarrow> string list \<Rightarrow> 'r result"
    and scan :: "'o \<Rightarrow> string list \<Rightarrow> 'r result"
  assumes scan_Nil: "scan opts [] = halt opts []"
    and scan_stop: "act a = None \<Longrightarrow> scan opts (a # as) = halt opts (a # as)"
    and scan_flag: "act a = Some (Flag f) \<Longrightarrow> scan opts (a # as) = scan (f opts) as"
    and scan_missing: "act a = Some (Valued s) \<Longrightarrow> scan opts [a] = Inl (missing_value a)"
    and scan_value: "act a = Some (Valued s) \<Longrightarrow> scan opts (a # v # as) = scan (s v opts) as"
begin

lemma scan_consumes:
  "consumes act opts pre opts' \<Longrightarrow> scan opts (pre @ rest) = scan opts' rest"
  by (induction rule: consumes.induct) (simp_all add: scan_flag scan_value)

lemma scan_halt:
  "rest = [] \<or> act (hd rest) = None \<Longrightarrow> scan opts rest = halt opts rest"
  by (cases rest) (simp_all add: scan_Nil scan_stop)

lemma scan_returns:
  "scan opts xs = Inr r \<Longrightarrow>
     \<exists>pre rest opts'. xs = pre @ rest \<and> consumes act opts pre opts' \<and>
       (rest = [] \<or> act (hd rest) = None) \<and> halt opts' rest = Inr r"
proof (induction "length xs" arbitrary: xs opts rule: less_induct)
  case less
  show ?case
  proof (cases "xs = [] \<or> act (hd xs) = None")
    case True
    with less.prems have "halt opts xs = Inr r" by (simp add: scan_halt)
    with True show ?thesis
      by (intro exI [of _ "[]"] exI [of _ xs] exI [of _ opts]) (simp add: consumes_Nil)
  next
    case False
    then obtain a as x where xs: "xs = a # as" and a: "act a = Some x" by (cases xs) auto
    show ?thesis
    proof (cases x)
      case (Flag f)
      with less.prems xs a have "scan (f opts) as = Inr r" by (simp add: scan_flag)
      note less.hyps [OF _ this]
      with xs have "\<exists>pre rest opts'. as = pre @ rest \<and> consumes act (f opts) pre opts' \<and>
          (rest = [] \<or> act (hd rest) = None) \<and> halt opts' rest = Inr r"
        by simp
      then obtain pre rest opts' where "as = pre @ rest"
          "consumes act (f opts) pre opts'" "rest = [] \<or> act (hd rest) = None"
          "halt opts' rest = Inr r"
        by blast
      with xs a Flag show ?thesis
        by (intro exI [of _ "a # pre"] exI [of _ rest] exI [of _ opts']) (simp add: consumes_flag)
    next
      case (Valued s)
      with less.prems xs a obtain v as' where as: "as = v # as'"
        by (cases as) (auto simp: scan_missing)
      with Valued less.prems xs a have "scan (s v opts) as' = Inr r" by (simp add: scan_value)
      note less.hyps [OF _ this]
      with xs as have "\<exists>pre rest opts'. as' = pre @ rest \<and> consumes act (s v opts) pre opts' \<and>
          (rest = [] \<or> act (hd rest) = None) \<and> halt opts' rest = Inr r"
        by simp
      then obtain pre rest opts' where "as' = pre @ rest"
          "consumes act (s v opts) pre opts'" "rest = [] \<or> act (hd rest) = None"
          "halt opts' rest = Inr r"
        by blast
      with xs a as Valued show ?thesis
        by (intro exI [of _ "a # v # pre"] exI [of _ rest] exI [of _ opts']) (simp add: consumes_value)
    qed
  qed
qed

lemma scan_iff:
  "scan opts xs = Inr r \<longleftrightarrow>
     (\<exists>pre rest opts'. xs = pre @ rest \<and> consumes act opts pre opts' \<and>
        (rest = [] \<or> act (hd rest) = None) \<and> halt opts' rest = Inr r)"
proof
  assume "scan opts xs = Inr r"
  then show "\<exists>pre rest opts'. xs = pre @ rest \<and> consumes act opts pre opts' \<and>
      (rest = [] \<or> act (hd rest) = None) \<and> halt opts' rest = Inr r"
    by (rule scan_returns)
next
  assume "\<exists>pre rest opts'. xs = pre @ rest \<and> consumes act opts pre opts' \<and>
      (rest = [] \<or> act (hd rest) = None) \<and> halt opts' rest = Inr r"
  then obtain pre rest opts' where "xs = pre @ rest" "consumes act opts pre opts'"
      "rest = [] \<or> act (hd rest) = None" "halt opts' rest = Inr r" by blast
  then show "scan opts xs = Inr r"
    using scan_consumes [of opts pre opts' rest] scan_halt [of rest opts'] by simp
qed

end

text \<open>A loop that knows every argument is the special case in which the whole slice is consumed.\<close>

sublocale option_loop \<subseteq> prefix_loop "\<lambda>a. Some (act a)" "\<lambda>opts _. Inr opts" parse
  by unfold_locales (simp_all add: parse_Nil parse_flag parse_missing parse_value)

end
