(* ===== verification/Parser.thy ===== *)
theory Parser
  imports Option_Loop
begin

text \<open>
  The three-stage argument parser of \<open>internal/tmux/parser.go\<close>: the option records, \<open>Parse\<close> and the nine
  command parsers, each as a recursion over the part of the slice the index has not passed yet. The index
  \<open>i\<close> of the source is the position of the suffix; \<open>i++; if i >= len(args)\<close> is the case distinction on the
  rest of the slice. Every loop interprets one of the interfaces of \<open>Option_Loop\<close>, and its functional
  specification follows: every field is the last value the arguments give it.
\<close>

section \<open>Parse\<close>

record GlobalOptions =
  SocketName :: string
  SocketPathOpt :: string
  ConfigFile :: string
  Version :: bool

record ParseResult =
  Global :: GlobalOptions
  Command :: string
  Args :: "string list"

definition no_globals :: GlobalOptions where
  "no_globals = \<lparr>SocketName = '''', SocketPathOpt = '''', ConfigFile = '''', Version = False\<rparr>"

text \<open>Stages 2 and 3, reached by \<open>goto stage2\<close> with the index at the first argument that is not a global option.\<close>

definition Parse_stage2 :: "GlobalOptions \<Rightarrow> string \<Rightarrow> string list \<Rightarrow> ParseResult result" where
  "Parse_stage2 g cmd rest =
     (if cmd = '''' then Inl (Errorf ''empty command name'')
      else Inr \<lparr>Global = g, Command = cmd, Args = rest\<rparr>)"

fun Parse_loop :: "GlobalOptions \<Rightarrow> string list \<Rightarrow> ParseResult result" where
  "Parse_loop g [] =
     (if Version g then Inr \<lparr>Global = g, Command = '''', Args = []\<rparr>
      else Inl (Errorf ''no command specified''))"
| "Parse_loop g (arg # rest) =
     (if arg = ''-V'' then Inr \<lparr>Global = g\<lparr>Version := True\<rparr>, Command = '''', Args = []\<rparr>
      else if arg = ''-L'' then
        (case rest of [] \<Rightarrow> Inl (Errorf ''-L requires a value'')
         | v # rest' \<Rightarrow> Parse_loop (g\<lparr>SocketName := v\<rparr>) rest')
      else if arg = ''-S'' then
        (case rest of [] \<Rightarrow> Inl (Errorf ''-S requires a value'')
         | v # rest' \<Rightarrow> Parse_loop (g\<lparr>SocketPathOpt := v\<rparr>) rest')
      else if arg = ''-f'' then
        (case rest of [] \<Rightarrow> Inl (Errorf ''-f requires a value'')
         | v # rest' \<Rightarrow> Parse_loop (g\<lparr>ConfigFile := v\<rparr>) rest')
      else Parse_stage2 g arg rest)"

definition Parse :: "string list \<Rightarrow> ParseResult result" where
  "Parse args =
     (if args = [] then Inl (Errorf ''no command specified'') else Parse_loop no_globals args)"

declare Parse_loop.simps(2) [simp del]

text \<open>The options of the first stage and what the loop does at the first argument that is none of them.\<close>

definition global_act :: "string \<Rightarrow> GlobalOptions action option" where
  "global_act a =
     (if a = ''-L'' then Some (Valued (\<lambda>v g. g\<lparr>SocketName := v\<rparr>))
      else if a = ''-S'' then Some (Valued (\<lambda>v g. g\<lparr>SocketPathOpt := v\<rparr>))
      else if a = ''-f'' then Some (Valued (\<lambda>v g. g\<lparr>ConfigFile := v\<rparr>))
      else None)"

fun global_halt :: "GlobalOptions \<Rightarrow> string list \<Rightarrow> ParseResult result" where
  "global_halt g [] = Parse_loop g []"
| "global_halt g (a # as) =
     (if a = ''-V'' then Inr \<lparr>Global = g\<lparr>Version := True\<rparr>, Command = '''', Args = []\<rparr>
      else Parse_stage2 g a as)"

interpretation globals: prefix_loop global_act global_halt Parse_loop
  by unfold_locales
    (auto simp: global_act_def Parse_loop.simps(2) missing_value_def split: if_splits)

section \<open>ParseSplitWindow\<close>

record SplitWindowOptions =
  sw_Horizontal :: bool
  sw_Direction :: string
  sw_Target :: string
  sw_Size :: string
  sw_PrintAfter :: bool
  sw_Format :: string

definition sw_init :: SplitWindowOptions where
  "sw_init = \<lparr>sw_Horizontal = False, sw_Direction = ''down'', sw_Target = '''', sw_Size = '''', sw_PrintAfter = False, sw_Format = ''''\<rparr>"

fun ParseSplitWindow_loop :: "SplitWindowOptions \<Rightarrow> string list \<Rightarrow> SplitWindowOptions result" where
  "ParseSplitWindow_loop opts [] = Inr opts"
| "ParseSplitWindow_loop opts (arg # rest) =
     (if arg = ''-h'' then ParseSplitWindow_loop (opts\<lparr>sw_Horizontal := True, sw_Direction := ''right''\<rparr>) rest
      else if arg = ''-v'' then ParseSplitWindow_loop (opts\<lparr>sw_Horizontal := False, sw_Direction := ''down''\<rparr>) rest
      else if arg = ''--left'' then ParseSplitWindow_loop (opts\<lparr>sw_Horizontal := False, sw_Direction := ''left''\<rparr>) rest
      else if arg = ''--right'' then ParseSplitWindow_loop (opts\<lparr>sw_Horizontal := True, sw_Direction := ''right''\<rparr>) rest
      else if arg = ''--up'' then ParseSplitWindow_loop (opts\<lparr>sw_Horizontal := False, sw_Direction := ''up''\<rparr>) rest
      else if arg = ''--down'' then ParseSplitWindow_loop (opts\<lparr>sw_Horizontal := False, sw_Direction := ''down''\<rparr>) rest
      else if arg = ''-t'' then
        (case rest of [] \<Rightarrow> Inl (Errorf ''-t requires a value'')
         | v # rest' \<Rightarrow> ParseSplitWindow_loop (opts\<lparr>sw_Target := v\<rparr>) rest')
      else if arg = ''-l'' then
        (case rest of [] \<Rightarrow> Inl (Errorf ''-l requires a value'')
         | v # rest' \<Rightarrow> ParseSplitWindow_loop (opts\<lparr>sw_Size := v\<rparr>) rest')
      else if arg = ''-P'' then ParseSplitWindow_loop (opts\<lparr>sw_PrintAfter := True\<rparr>) rest
      else if arg = ''-F'' then
        (case rest of [] \<Rightarrow> Inl (Errorf ''-F requires a value'')
         | v # rest' \<Rightarrow> ParseSplitWindow_loop (opts\<lparr>sw_Format := v\<rparr>) rest')
      else ParseSplitWindow_loop opts rest)"

definition ParseSplitWindow :: "string list \<Rightarrow> SplitWindowOptions result" where
  "ParseSplitWindow args = ParseSplitWindow_loop sw_init args"

declare ParseSplitWindow_loop.simps(2) [simp del]

definition sw_act :: "string \<Rightarrow> SplitWindowOptions action" where
  "sw_act arg =
     (if arg = ''-h'' then Flag (\<lambda>opts. opts\<lparr>sw_Horizontal := True, sw_Direction := ''right''\<rparr>)
      else if arg = ''-v'' then Flag (\<lambda>opts. opts\<lparr>sw_Horizontal := False, sw_Direction := ''down''\<rparr>)
      else if arg = ''--left'' then Flag (\<lambda>opts. opts\<lparr>sw_Horizontal := False, sw_Direction := ''left''\<rparr>)
      else if arg = ''--right'' then Flag (\<lambda>opts. opts\<lparr>sw_Horizontal := True, sw_Direction := ''right''\<rparr>)
      else if arg = ''--up'' then Flag (\<lambda>opts. opts\<lparr>sw_Horizontal := False, sw_Direction := ''up''\<rparr>)
      else if arg = ''--down'' then Flag (\<lambda>opts. opts\<lparr>sw_Horizontal := False, sw_Direction := ''down''\<rparr>)
      else if arg = ''-t'' then Valued (\<lambda>v opts. opts\<lparr>sw_Target := v\<rparr>)
      else if arg = ''-l'' then Valued (\<lambda>v opts. opts\<lparr>sw_Size := v\<rparr>)
      else if arg = ''-P'' then Flag (\<lambda>opts. opts\<lparr>sw_PrintAfter := True\<rparr>)
      else if arg = ''-F'' then Valued (\<lambda>v opts. opts\<lparr>sw_Format := v\<rparr>)
      else Flag (\<lambda>opts. opts))"

interpretation sw: option_loop sw_act ParseSplitWindow_loop
  by unfold_locales
    (auto simp: sw_act_def ParseSplitWindow_loop.simps(2) missing_value_def split: if_splits)

section \<open>ParseSelectPane\<close>

record SelectPaneOptions =
  sp_Target :: string
  sp_Style :: string
  sp_Title :: string

definition sp_init :: SelectPaneOptions where
  "sp_init = \<lparr>sp_Target = '''', sp_Style = '''', sp_Title = ''''\<rparr>"

fun ParseSelectPane_loop :: "SelectPaneOptions \<Rightarrow> string list \<Rightarrow> SelectPaneOptions result" where
  "ParseSelectPane_loop opts [] = Inr opts"
| "ParseSelectPane_loop opts (arg # rest) =
     (if arg = ''-t'' then
        (case rest of [] \<Rightarrow> Inl (Errorf ''-t requires a value'')
         | v # rest' \<Rightarrow> ParseSelectPane_loop (opts\<lparr>sp_Target := v\<rparr>) rest')
      else if arg = ''-P'' then
        (case rest of [] \<Rightarrow> Inl (Errorf ''-P requires a value'')
         | v # rest' \<Rightarrow> ParseSelectPane_loop (opts\<lparr>sp_Style := v\<rparr>) rest')
      else if arg = ''-T'' then
        (case rest of [] \<Rightarrow> Inl (Errorf ''-T requires a value'')
         | v # rest' \<Rightarrow> ParseSelectPane_loop (opts\<lparr>sp_Title := v\<rparr>) rest')
      else ParseSelectPane_loop opts rest)"

definition ParseSelectPane :: "string list \<Rightarrow> SelectPaneOptions result" where
  "ParseSelectPane args = ParseSelectPane_loop sp_init args"

declare ParseSelectPane_loop.simps(2) [simp del]

definition sp_act :: "string \<Rightarrow> SelectPaneOptions action" where
  "sp_act arg =
     (if arg = ''-t'' then Valued (\<lambda>v opts. opts\<lparr>sp_Target := v\<rparr>)
      else if arg = ''-P'' then Valued (\<lambda>v opts. opts\<lparr>sp_Style := v\<rparr>)
      else if arg = ''-T'' then Valued (\<lambda>v opts. opts\<lparr>sp_Title := v\<rparr>)
      else Flag (\<lambda>opts. opts))"

interpretation sp: option_loop sp_act ParseSelectPane_loop
  by unfold_locales
    (auto simp: sp_act_def ParseSelectPane_loop.simps(2) missing_value_def split: if_splits)

section \<open>ParseNewWindow\<close>

record NewWindowOptions =
  nw_Target :: string
  nw_Name :: string
  nw_PrintAfter :: bool
  nw_Format :: string

definition nw_init :: NewWindowOptions where
  "nw_init = \<lparr>nw_Target = '''', nw_Name = '''', nw_PrintAfter = False, nw_Format = ''''\<rparr>"

fun ParseNewWindow_loop :: "NewWindowOptions \<Rightarrow> string list \<Rightarrow> NewWindowOptions result" where
  "ParseNewWindow_loop opts [] = Inr opts"
| "ParseNewWindow_loop opts (arg # rest) =
     (if arg = ''-t'' then
        (case rest of [] \<Rightarrow> Inl (Errorf ''-t requires a value'')
         | v # rest' \<Rightarrow> ParseNewWindow_loop (opts\<lparr>nw_Target := v\<rparr>) rest')
      else if arg = ''-n'' then
        (case rest of [] \<Rightarrow> Inl (Errorf ''-n requires a value'')
         | v # rest' \<Rightarrow> ParseNewWindow_loop (opts\<lparr>nw_Name := v\<rparr>) rest')
      else if arg = ''-P'' then ParseNewWindow_loop (opts\<lparr>nw_PrintAfter := True\<rparr>) rest
      else if arg = ''-F'' then
        (case rest of [] \<Rightarrow> Inl (Errorf ''-F requires a value'')
         | v # rest' \<Rightarrow> ParseNewWindow_loop (opts\<lparr>nw_Format := v\<rparr>) rest')
      else ParseNewWindow_loop opts rest)"

definition ParseNewWindow :: "string list \<Rightarrow> NewWindowOptions result" where
  "ParseNewWindow args = ParseNewWindow_loop nw_init args"

declare ParseNewWindow_loop.simps(2) [simp del]

definition nw_act :: "string \<Rightarrow> NewWindowOptions action" where
  "nw_act arg =
     (if arg = ''-t'' then Valued (\<lambda>v opts. opts\<lparr>nw_Target := v\<rparr>)
      else if arg = ''-n'' then Valued (\<lambda>v opts. opts\<lparr>nw_Name := v\<rparr>)
      else if arg = ''-P'' then Flag (\<lambda>opts. opts\<lparr>nw_PrintAfter := True\<rparr>)
      else if arg = ''-F'' then Valued (\<lambda>v opts. opts\<lparr>nw_Format := v\<rparr>)
      else Flag (\<lambda>opts. opts))"

interpretation nw: option_loop nw_act ParseNewWindow_loop
  by unfold_locales
    (auto simp: nw_act_def ParseNewWindow_loop.simps(2) missing_value_def split: if_splits)

section \<open>ParseHasSession\<close>

record HasSessionOptions =
  hs_Target :: string

definition hs_init :: HasSessionOptions where
  "hs_init = \<lparr>hs_Target = ''''\<rparr>"

fun ParseHasSession_loop :: "HasSessionOptions \<Rightarrow> string list \<Rightarrow> HasSessionOptions result" where
  "ParseHasSession_loop opts [] = Inr opts"
| "ParseHasSession_loop opts (arg # rest) =
     (if arg = ''-t'' then
        (case rest of [] \<Rightarrow> Inl (Errorf ''-t requires a value'')
         | v # rest' \<Rightarrow> ParseHasSession_loop (opts\<lparr>hs_Target := v\<rparr>) rest')
      else ParseHasSession_loop opts rest)"

definition ParseHasSession :: "string list \<Rightarrow> HasSessionOptions result" where
  "ParseHasSession args = ParseHasSession_loop hs_init args"

declare ParseHasSession_loop.simps(2) [simp del]

definition hs_act :: "string \<Rightarrow> HasSessionOptions action" where
  "hs_act arg =
     (if arg = ''-t'' then Valued (\<lambda>v opts. opts\<lparr>hs_Target := v\<rparr>)
      else Flag (\<lambda>opts. opts))"

interpretation hs: option_loop hs_act ParseHasSession_loop
  by unfold_locales
    (auto simp: hs_act_def ParseHasSession_loop.simps(2) missing_value_def split: if_splits)

section \<open>ParseKillPane\<close>

record KillPaneOptions =
  kp_Target :: string

definition kp_init :: KillPaneOptions where
  "kp_init = \<lparr>kp_Target = ''''\<rparr>"

fun ParseKillPane_loop :: "KillPaneOptions \<Rightarrow> string list \<Rightarrow> KillPaneOptions result" where
  "ParseKillPane_loop opts [] = Inr opts"
| "ParseKillPane_loop opts (arg # rest) =
     (if arg = ''-t'' then
        (case rest of [] \<Rightarrow> Inl (Errorf ''-t requires a value'')
         | v # rest' \<Rightarrow> ParseKillPane_loop (opts\<lparr>kp_Target := v\<rparr>) rest')
      else ParseKillPane_loop opts rest)"

definition ParseKillPane :: "string list \<Rightarrow> KillPaneOptions result" where
  "ParseKillPane args = ParseKillPane_loop kp_init args"

declare ParseKillPane_loop.simps(2) [simp del]

definition kp_act :: "string \<Rightarrow> KillPaneOptions action" where
  "kp_act arg =
     (if arg = ''-t'' then Valued (\<lambda>v opts. opts\<lparr>kp_Target := v\<rparr>)
      else Flag (\<lambda>opts. opts))"

interpretation kp: option_loop kp_act ParseKillPane_loop
  by unfold_locales
    (auto simp: kp_act_def ParseKillPane_loop.simps(2) missing_value_def split: if_splits)

section \<open>ParseListPanes\<close>

record ListPanesOptions =
  lp_Format :: string
  lp_Target :: string

definition lp_init :: ListPanesOptions where
  "lp_init = \<lparr>lp_Format = '''', lp_Target = ''''\<rparr>"

fun ParseListPanes_loop :: "ListPanesOptions \<Rightarrow> string list \<Rightarrow> ListPanesOptions result" where
  "ParseListPanes_loop opts [] = Inr opts"
| "ParseListPanes_loop opts (arg # rest) =
     (if arg = ''-F'' then
        (case rest of [] \<Rightarrow> Inl (Errorf ''-F requires a value'')
         | v # rest' \<Rightarrow> ParseListPanes_loop (opts\<lparr>lp_Format := v\<rparr>) rest')
      else if arg = ''-t'' then
        (case rest of [] \<Rightarrow> Inl (Errorf ''-t requires a value'')
         | v # rest' \<Rightarrow> ParseListPanes_loop (opts\<lparr>lp_Target := v\<rparr>) rest')
      else ParseListPanes_loop opts rest)"

definition ParseListPanes :: "string list \<Rightarrow> ListPanesOptions result" where
  "ParseListPanes args = ParseListPanes_loop lp_init args"

declare ParseListPanes_loop.simps(2) [simp del]

definition lp_act :: "string \<Rightarrow> ListPanesOptions action" where
  "lp_act arg =
     (if arg = ''-F'' then Valued (\<lambda>v opts. opts\<lparr>lp_Format := v\<rparr>)
      else if arg = ''-t'' then Valued (\<lambda>v opts. opts\<lparr>lp_Target := v\<rparr>)
      else Flag (\<lambda>opts. opts))"

interpretation lp: option_loop lp_act ParseListPanes_loop
  by unfold_locales
    (auto simp: lp_act_def ParseListPanes_loop.simps(2) missing_value_def split: if_splits)

section \<open>ParseDisplayMessage\<close>

record DisplayMessageOptions =
  dm_Print :: bool
  dm_Format :: string
  dm_Target :: string

definition dm_init :: DisplayMessageOptions where
  "dm_init = \<lparr>dm_Print = False, dm_Format = '''', dm_Target = ''''\<rparr>"

fun ParseDisplayMessage_loop :: "DisplayMessageOptions \<Rightarrow> string list \<Rightarrow> DisplayMessageOptions result" where
  "ParseDisplayMessage_loop opts [] = Inr opts"
| "ParseDisplayMessage_loop opts (arg # rest) =
     (if arg = ''-p'' then ParseDisplayMessage_loop (opts\<lparr>dm_Print := True\<rparr>) rest
      else if arg = ''-t'' then
        (case rest of [] \<Rightarrow> Inl (Errorf ''-t requires a value'')
         | v # rest' \<Rightarrow> ParseDisplayMessage_loop (opts\<lparr>dm_Target := v\<rparr>) rest')
      else if arg = ''-F'' then
        (case rest of [] \<Rightarrow> Inl (Errorf ''-F requires a value'')
         | v # rest' \<Rightarrow> ParseDisplayMessage_loop (opts\<lparr>dm_Format := v\<rparr>) rest')
      else ParseDisplayMessage_loop (opts\<lparr>dm_Format := arg\<rparr>) rest)"

definition ParseDisplayMessage :: "string list \<Rightarrow> DisplayMessageOptions result" where
  "ParseDisplayMessage args = ParseDisplayMessage_loop dm_init args"

declare ParseDisplayMessage_loop.simps(2) [simp del]

definition dm_act :: "string \<Rightarrow> DisplayMessageOptions action" where
  "dm_act arg =
     (if arg = ''-p'' then Flag (\<lambda>opts. opts\<lparr>dm_Print := True\<rparr>)
      else if arg = ''-t'' then Valued (\<lambda>v opts. opts\<lparr>dm_Target := v\<rparr>)
      else if arg = ''-F'' then Valued (\<lambda>v opts. opts\<lparr>dm_Format := v\<rparr>)
      else Flag (\<lambda>opts. opts\<lparr>dm_Format := arg\<rparr>))"

interpretation dm: option_loop dm_act ParseDisplayMessage_loop
  by unfold_locales
    (auto simp: dm_act_def ParseDisplayMessage_loop.simps(2) missing_value_def split: if_splits)

section \<open>ParseShowOptions\<close>

record ShowOptionsOptions =
  so_Global :: bool
  so_Option :: string

definition so_init :: ShowOptionsOptions where
  "so_init = \<lparr>so_Global = False, so_Option = ''''\<rparr>"

fun ParseShowOptions_loop :: "ShowOptionsOptions \<Rightarrow> string list \<Rightarrow> ShowOptionsOptions result" where
  "ParseShowOptions_loop opts [] = Inr opts"
| "ParseShowOptions_loop opts (arg # rest) =
     (if arg = ''-g'' then ParseShowOptions_loop (opts\<lparr>so_Global := True\<rparr>) rest
      else ParseShowOptions_loop (opts\<lparr>so_Option := arg\<rparr>) rest)"

definition ParseShowOptions :: "string list \<Rightarrow> ShowOptionsOptions result" where
  "ParseShowOptions args = ParseShowOptions_loop so_init args"

declare ParseShowOptions_loop.simps(2) [simp del]

definition so_act :: "string \<Rightarrow> ShowOptionsOptions action" where
  "so_act arg =
     (if arg = ''-g'' then Flag (\<lambda>opts. opts\<lparr>so_Global := True\<rparr>)
      else Flag (\<lambda>opts. opts\<lparr>so_Option := arg\<rparr>))"

interpretation so: option_loop so_act ParseShowOptions_loop
  by unfold_locales
    (auto simp: so_act_def ParseShowOptions_loop.simps(2) missing_value_def split: if_splits)

section \<open>ParseSendKeys\<close>

record SendKeysOptions =
  sk_Target :: string
  sk_Literal :: bool
  sk_Keys :: "string list"

definition sk_init :: SendKeysOptions where
  "sk_init = \<lparr>sk_Target = '''', sk_Literal = False, sk_Keys = []\<rparr>"

text \<open>\<open>append(opts.Keys, args[i:]...)\<close> is \<open>@\<close>: the keys are empty until one of the two appends returns.\<close>

fun ParseSendKeys_loop :: "SendKeysOptions \<Rightarrow> string list \<Rightarrow> SendKeysOptions result" where
  "ParseSendKeys_loop opts [] = Inr opts"
| "ParseSendKeys_loop opts (arg # rest) =
     (if arg = ''--'' then Inr (opts\<lparr>sk_Keys := sk_Keys opts @ rest\<rparr>)
      else if arg = ''-t'' then
        (case rest of [] \<Rightarrow> Inl (Errorf ''-t requires a value'')
         | v # rest' \<Rightarrow> ParseSendKeys_loop (opts\<lparr>sk_Target := v\<rparr>) rest')
      else if arg = ''-l'' then ParseSendKeys_loop (opts\<lparr>sk_Literal := True\<rparr>) rest
      else Inr (opts\<lparr>sk_Keys := sk_Keys opts @ arg # rest\<rparr>))"

definition ParseSendKeys :: "string list \<Rightarrow> SendKeysOptions result" where
  "ParseSendKeys args = ParseSendKeys_loop sk_init args"

declare ParseSendKeys_loop.simps(2) [simp del]

definition sk_act :: "string \<Rightarrow> SendKeysOptions action option" where
  "sk_act a =
     (if a = ''-t'' then Some (Valued (\<lambda>v opts. opts\<lparr>sk_Target := v\<rparr>))
      else if a = ''-l'' then Some (Flag (\<lambda>opts. opts\<lparr>sk_Literal := True\<rparr>))
      else None)"

fun sk_halt :: "SendKeysOptions \<Rightarrow> string list \<Rightarrow> SendKeysOptions result" where
  "sk_halt opts [] = Inr opts"
| "sk_halt opts (a # as) =
     Inr (opts\<lparr>sk_Keys := sk_Keys opts @ (if a = ''--'' then as else a # as)\<rparr>)"

interpretation send_keys: prefix_loop sk_act sk_halt ParseSendKeys_loop
  by unfold_locales
    (auto simp: sk_act_def ParseSendKeys_loop.simps(2) missing_value_def split: if_splits)

end
