(* ===== verification/Parser_Spec.thy ===== *)
theory Parser_Spec
  imports Parser
begin

text \<open>
  What the argument parsers promise. \<open>Parse\<close> accepts exactly the grammar of global options followed by a
  command, and renders back; each command parser returns, for every field, the last value its arguments
  give that field, and fails exactly on a trailing option without its value; \<open>ParseSendKeys\<close> splits the
  arguments at the first one that is not an option.
\<close>

section \<open>Global options\<close>

definition is_global_option :: "string \<Rightarrow> bool" where
  "is_global_option a \<longleftrightarrow> a \<in> {''-L'', ''-S'', ''-f''}"

text \<open>The reference rendering of parsed global options.\<close>

definition render_option :: "string \<Rightarrow> string \<Rightarrow> string list" where
  "render_option k v = (if v = '''' then [] else [k, v])"

definition render_globals :: "GlobalOptions \<Rightarrow> string list" where
  "render_globals g =
     render_option ''-L'' (SocketName g) @ render_option ''-S'' (SocketPathOpt g) @
     render_option ''-f'' (ConfigFile g)"

lemma global_act_None: "global_act a = None \<longleftrightarrow> \<not> is_global_option a"
  by (simp add: global_act_def is_global_option_def)

lemma Parse_conv: "Parse args = Parse_loop no_globals args"
  by (simp add: Parse_def no_globals_def)

lemma consumes_version:
  "consumes global_act g pre g' \<Longrightarrow> Version g' = Version g"
  by (induction rule: consumes.induct) (auto simp: global_act_def split: if_splits)

lemma consumes_render_option:
  assumes "global_act k = Some (Valued s)" and "v = '''' \<Longrightarrow> s v g = g"
  shows "consumes global_act g (render_option k v) (s v g)"
  using assms by (auto simp: render_option_def intro: consumes.intros)

lemma consumes_render_globals:
  assumes "\<not> Version g"
  shows "consumes global_act no_globals (render_globals g) g"
proof -
  let ?g1 = "no_globals\<lparr>SocketName := SocketName g\<rparr>"
  let ?g2 = "?g1\<lparr>SocketPathOpt := SocketPathOpt g\<rparr>"
  let ?g3 = "?g2\<lparr>ConfigFile := ConfigFile g\<rparr>"
  have "consumes global_act no_globals (render_option ''-L'' (SocketName g)) ?g1"
    by (rule consumes_render_option [where s = "\<lambda>v g. g\<lparr>SocketName := v\<rparr>"]) (simp_all add: global_act_def no_globals_def)
  moreover have "consumes global_act ?g1 (render_option ''-S'' (SocketPathOpt g)) ?g2"
    by (rule consumes_render_option [where s = "\<lambda>v g. g\<lparr>SocketPathOpt := v\<rparr>"]) (simp_all add: global_act_def no_globals_def)
  moreover have "consumes global_act ?g2 (render_option ''-f'' (ConfigFile g)) ?g3"
    by (rule consumes_render_option [where s = "\<lambda>v g. g\<lparr>ConfigFile := v\<rparr>"]) (simp_all add: global_act_def no_globals_def)
  moreover have "?g3 = g"
    using assms by (simp add: no_globals_def)
  ultimately show ?thesis
    unfolding render_globals_def by (metis consumes_append)
qed

text \<open>
  \<open>Parse\<close> accepts exactly the inputs made of global options with their values, followed either by
  \<open>-V\<close>, after which nothing is read, or by a non-empty command that is not a global option; what follows
  the command is handed over untouched.
\<close>
theorem Parse_accepts_iff:
  "Parse args = Inr r \<longleftrightarrow>
     (\<exists>pre g. consumes global_act no_globals pre g \<and>
        ((\<exists>rest. args = pre @ ''-V'' # rest \<and>
            r = \<lparr>Global = g\<lparr>Version := True\<rparr>, Command = '''', Args = []\<rparr>) \<or>
         (\<exists>cmd rest. args = pre @ cmd # rest \<and> cmd \<noteq> '''' \<and> cmd \<noteq> ''-V'' \<and>
            \<not> is_global_option cmd \<and> r = \<lparr>Global = g, Command = cmd, Args = rest\<rparr>)))"
  (is "?l \<longleftrightarrow> ?r")
proof
  assume ?l
  then obtain pre rest g where args: "args = pre @ rest" and g: "consumes global_act no_globals pre g"
      and rest: "rest = [] \<or> global_act (hd rest) = None" and r: "global_halt g rest = Inr r"
    unfolding Parse_conv globals.scan_iff by blast
  from consumes_version [OF g] have "\<not> Version g" by (simp add: no_globals_def)
  with r have "rest \<noteq> []" by auto
  then obtain a as where "rest = a # as" by (cases rest) auto
  with args g rest r show ?r
    by (intro exI [of _ pre] exI [of _ g])
       (auto simp: global_act_None Parse_stage2_def split: if_splits)
next
  assume ?r
  then obtain pre g a as where args: "args = pre @ a # as" and g: "consumes global_act no_globals pre g"
      and a: "\<not> is_global_option a" and r: "global_halt g (a # as) = Inr r"
    by (fastforce simp: Parse_stage2_def is_global_option_def)
  then have "Parse_loop g (a # as) = Inr r"
    using globals.scan_halt [of "a # as" g] by (simp add: global_act_None)
  with args g show ?l by (simp add: Parse_conv globals.scan_consumes)
qed

text \<open>
  C37: Rendering parsed options back and parsing them again gives the same result: for every result
  that carries a command, the rendered global options, the command and its arguments parse to it.
\<close>
theorem Parse_render_roundtrip:
  assumes "\<not> Version g" and "cmd \<noteq> ''''" and "cmd \<noteq> ''-V''" and "\<not> is_global_option cmd"
  shows "Parse (render_globals g @ cmd # rest) = Inr \<lparr>Global = g, Command = cmd, Args = rest\<rparr>"
proof -
  have "Parse_loop no_globals (render_globals g @ cmd # rest) = Parse_loop g (cmd # rest)"
    using assms(1) by (intro globals.scan_consumes consumes_render_globals)
  also have "\<dots> = global_halt g (cmd # rest)"
    using assms(4) by (intro globals.scan_halt) (simp add: global_act_None)
  finally show ?thesis
    using assms by (simp add: Parse_conv Parse_stage2_def)
qed

theorem Parse_render_roundtrip_witness:
  "Parse [''-L'', ''work'', ''-f'', ''x.conf'', ''split-window'', ''-h''] =
     Inr \<lparr>Global = \<lparr>SocketName = ''work'', SocketPathOpt = '''', ConfigFile = ''x.conf'', Version = False\<rparr>,
          Command = ''split-window'', Args = [''-h'']\<rparr>"
  using Parse_render_roundtrip
    [of "\<lparr>SocketName = ''work'', SocketPathOpt = '''', ConfigFile = ''x.conf'', Version = False\<rparr>"
        "''split-window''" "[''-h'']"]
  by (simp add: render_globals_def render_option_def is_global_option_def)

section \<open>Command options\<close>

subsection \<open>split-window\<close>

fun sw_direction_of :: "token \<Rightarrow> string option" where
  "sw_direction_of (TFlag a) =
     (if a = ''-h'' \<or> a = ''--right'' then Some ''right''
      else if a = ''-v'' \<or> a = ''--down'' then Some ''down''
      else if a = ''--left'' then Some ''left''
      else if a = ''--up'' then Some ''up''
      else None)"
| "sw_direction_of (TOpt a v) = None"

definition sw_valued :: "string \<Rightarrow> bool" where
  "sw_valued a \<longleftrightarrow> a = ''-t'' \<or> a = ''-l'' \<or> a = ''-F''"

text \<open>The declarative meaning of a tokenised \<open>split-window\<close> argument list.\<close>

definition sw_spec :: "token list \<Rightarrow> SplitWindowOptions" where
  "sw_spec ts =
     \<lparr>sw_Horizontal = (last_of ''down'' sw_direction_of ts = ''right''),
      sw_Direction = last_of ''down'' sw_direction_of ts,
      sw_Target = last_value ''-t'' ts, sw_Size = last_value ''-l'' ts,
      sw_PrintAfter = has_flag ''-P'' ts, sw_Format = last_value ''-F'' ts\<rparr>"

lemma sw_is_valued: "is_valued (sw_act a) \<longleftrightarrow> sw_valued a"
  by (simp add: sw_act_def sw_valued_def)

lemma sw_fold_fields:
  "sw_Direction (fold (apply_token sw_act) ts opts) = last_of (sw_Direction opts) sw_direction_of ts"
  "sw_Target (fold (apply_token sw_act) ts opts) = last_of (sw_Target opts) (value_of ''-t'') ts"
  "sw_Size (fold (apply_token sw_act) ts opts) = last_of (sw_Size opts) (value_of ''-l'') ts"
  "sw_Format (fold (apply_token sw_act) ts opts) = last_of (sw_Format opts) (value_of ''-F'') ts"
  "sw_PrintAfter (fold (apply_token sw_act) ts opts) = (sw_PrintAfter opts \<or> has_flag ''-P'' ts)"
proof -
  have *: "sw_Direction (apply_token sw_act t opts) =
      (case sw_direction_of t of None \<Rightarrow> sw_Direction opts | Some d \<Rightarrow> d)"
    "sw_Target (apply_token sw_act t opts) = (case value_of ''-t'' t of None \<Rightarrow> sw_Target opts | Some d \<Rightarrow> d)"
    "sw_Size (apply_token sw_act t opts) = (case value_of ''-l'' t of None \<Rightarrow> sw_Size opts | Some d \<Rightarrow> d)"
    "sw_Format (apply_token sw_act t opts) = (case value_of ''-F'' t of None \<Rightarrow> sw_Format opts | Some d \<Rightarrow> d)"
    "sw_PrintAfter (apply_token sw_act t opts) = (sw_PrintAfter opts \<or> t = TFlag ''-P'')"
    for t and opts :: SplitWindowOptions
    by (cases t; simp add: sw_act_def)+
  show "sw_Direction (fold (apply_token sw_act) ts opts) = last_of (sw_Direction opts) sw_direction_of ts"
    "sw_Target (fold (apply_token sw_act) ts opts) = last_of (sw_Target opts) (value_of ''-t'') ts"
    "sw_Size (fold (apply_token sw_act) ts opts) = last_of (sw_Size opts) (value_of ''-l'') ts"
    "sw_Format (fold (apply_token sw_act) ts opts) = last_of (sw_Format opts) (value_of ''-F'') ts"
    by (rule fold_field_last, rule *)+
  show "sw_PrintAfter (fold (apply_token sw_act) ts opts) = (sw_PrintAfter opts \<or> has_flag ''-P'' ts)"
    by (rule fold_field_flag, rule *)
qed

definition sw_inv :: "SplitWindowOptions \<Rightarrow> bool" where
  "sw_inv opts \<longleftrightarrow> (sw_Horizontal opts \<longleftrightarrow> sw_Direction opts = ''right'') \<and>
     sw_Direction opts \<in> {''left'', ''right'', ''up'', ''down''}"

lemma sw_inv_step: "sw_inv opts \<Longrightarrow> sw_inv (apply_token sw_act t opts)"
  by (cases t) (simp_all add: sw_act_def sw_inv_def)

lemma sw_inv_fold: "sw_inv opts \<Longrightarrow> sw_inv (fold (apply_token sw_act) ts opts)"
  by (induction ts arbitrary: opts) (simp_all add: sw_inv_step)

lemma sw_fold_spec: "fold (apply_token sw_act) ts sw_init = sw_spec ts"
proof -
  have "sw_inv (fold (apply_token sw_act) ts sw_init)"
    by (rule sw_inv_fold) (simp add: sw_inv_def sw_init_def)
  then show ?thesis
    by (simp add: sw_spec_def sw_inv_def sw_fold_fields last_value_def sw_init_def)
qed

text \<open>
  C38: \<open>ParseSplitWindow\<close> is the declarative reading of its arguments: the last direction flag wins
  over all earlier ones, each of \<open>-t\<close>, \<open>-l\<close>, \<open>-F\<close> takes the last value given, \<open>Horizontal\<close> says whether the
  direction is \<open>right\<close>, and unknown arguments are skipped.
\<close>
theorem ParseSplitWindow_spec:
  "ParseSplitWindow args = map_sum id sw_spec (tokenize sw_valued args)"
  by (simp add: ParseSplitWindow_def sw.parse_tokens sw_is_valued sw_fold_spec)

text \<open>
  Every parsed \<open>split-window\<close> has one of the four directions, and \<open>Horizontal\<close> is set exactly
  when it is \<open>right\<close>.
\<close>
theorem ParseSplitWindow_directions:
  assumes "ParseSplitWindow args = Inr opts"
  shows "sw_Direction opts \<in> {''left'', ''right'', ''up'', ''down''} \<and>
    (sw_Horizontal opts \<longleftrightarrow> sw_Direction opts = ''right'')"
proof -
  have "sw_inv opts"
    using assms sw.parse_inv [of sw_inv sw_init args opts] sw_inv_step
    by (simp add: ParseSplitWindow_def sw_inv_def sw_init_def)
  then show ?thesis by (simp add: sw_inv_def)
qed

theorem ParseSplitWindow_directions_witness:
  "\<exists>opts. ParseSplitWindow [''-h'', ''-t'', ''%1'', ''--up''] = Inr opts \<and>
     sw_Direction opts \<in> {''left'', ''right'', ''up'', ''down''} \<and> \<not> sw_Horizontal opts"
proof -
  let ?o = "sw_init\<lparr>sw_Direction := ''up'', sw_Target := ''%1'', sw_Horizontal := False\<rparr>"
  have "ParseSplitWindow [''-h'', ''-t'', ''%1'', ''--up''] = Inr ?o"
    by (simp add: ParseSplitWindow_def ParseSplitWindow_loop.simps(2) sw_init_def)
  from this ParseSplitWindow_directions [OF this] show ?thesis
    by (simp add: sw_init_def)
qed

subsection \<open>The other commands\<close>

text \<open>
  Two commands take a positional argument; it competes with the values of the same field, and the last
  of them all is kept.
\<close>

fun dm_format_of :: "token \<Rightarrow> string option" where
  "dm_format_of (TFlag a) = (if a = ''-p'' \<or> a = ''-t'' \<or> a = ''-F'' then None else Some a)"
| "dm_format_of (TOpt k v) = (if k = ''-F'' then Some v else None)"

fun so_option_of :: "token \<Rightarrow> string option" where
  "so_option_of (TFlag a) = (if a = ''-g'' then None else Some a)"
| "so_option_of (TOpt k v) = None"

definition sp_valued :: "string \<Rightarrow> bool" where
  "sp_valued a \<longleftrightarrow> a = ''-t'' \<or> a = ''-P'' \<or> a = ''-T''"

definition sp_spec :: "token list \<Rightarrow> SelectPaneOptions" where
  "sp_spec ts =
     \<lparr>sp_Target = last_value ''-t'' ts,
      sp_Style = last_value ''-P'' ts,
      sp_Title = last_value ''-T'' ts\<rparr>"

lemma sp_fold:
  "fold (apply_token sp_act) ts opts =
     opts\<lparr>sp_Target := last_of (sp_Target opts) (value_of ''-t'') ts,
       sp_Style := last_of (sp_Style opts) (value_of ''-P'') ts,
       sp_Title := last_of (sp_Title opts) (value_of ''-T'') ts\<rparr>"
proof (induction ts arbitrary: opts)
  case (Cons t ts)
  then show ?case by (cases t) (auto simp: sp_act_def has_flag_def)
qed (simp add: has_flag_def)

lemma sp_is_valued: "is_valued (sp_act a) = sp_valued a"
  by (simp add: sp_act_def sp_valued_def)

lemma ParseSelectPane_tokens: "ParseSelectPane args = map_sum id sp_spec (tokenize sp_valued args)"
  by (simp add: ParseSelectPane_def sp.parse_tokens sp_is_valued sp_fold sp_spec_def [abs_def]
      sp_init_def last_value_def)

definition nw_valued :: "string \<Rightarrow> bool" where
  "nw_valued a \<longleftrightarrow> a = ''-t'' \<or> a = ''-n'' \<or> a = ''-F''"

definition nw_spec :: "token list \<Rightarrow> NewWindowOptions" where
  "nw_spec ts =
     \<lparr>nw_Target = last_value ''-t'' ts,
      nw_Name = last_value ''-n'' ts,
      nw_PrintAfter = has_flag ''-P'' ts,
      nw_Format = last_value ''-F'' ts\<rparr>"

lemma nw_fold:
  "fold (apply_token nw_act) ts opts =
     opts\<lparr>nw_Target := last_of (nw_Target opts) (value_of ''-t'') ts,
       nw_Name := last_of (nw_Name opts) (value_of ''-n'') ts,
       nw_PrintAfter := (nw_PrintAfter opts \<or> has_flag ''-P'' ts),
       nw_Format := last_of (nw_Format opts) (value_of ''-F'') ts\<rparr>"
proof (induction ts arbitrary: opts)
  case (Cons t ts)
  then show ?case by (cases t) (auto simp: nw_act_def has_flag_def)
qed (simp add: has_flag_def)

lemma nw_is_valued: "is_valued (nw_act a) = nw_valued a"
  by (simp add: nw_act_def nw_valued_def)

lemma ParseNewWindow_tokens: "ParseNewWindow args = map_sum id nw_spec (tokenize nw_valued args)"
  by (simp add: ParseNewWindow_def nw.parse_tokens nw_is_valued nw_fold nw_spec_def [abs_def]
      nw_init_def last_value_def)

definition hs_valued :: "string \<Rightarrow> bool" where
  "hs_valued a \<longleftrightarrow> a = ''-t''"

definition hs_spec :: "token list \<Rightarrow> HasSessionOptions" where
  "hs_spec ts =
     \<lparr>hs_Target = last_value ''-t'' ts\<rparr>"

lemma hs_fold:
  "fold (apply_token hs_act) ts opts =
     opts\<lparr>hs_Target := last_of (hs_Target opts) (value_of ''-t'') ts\<rparr>"
proof (induction ts arbitrary: opts)
  case (Cons t ts)
  then show ?case by (cases t) (auto simp: hs_act_def has_flag_def)
qed (simp add: has_flag_def)

lemma hs_is_valued: "is_valued (hs_act a) = hs_valued a"
  by (simp add: hs_act_def hs_valued_def)

lemma ParseHasSession_tokens: "ParseHasSession args = map_sum id hs_spec (tokenize hs_valued args)"
  by (simp add: ParseHasSession_def hs.parse_tokens hs_is_valued hs_fold hs_spec_def [abs_def]
      hs_init_def last_value_def)

definition kp_valued :: "string \<Rightarrow> bool" where
  "kp_valued a \<longleftrightarrow> a = ''-t''"

definition kp_spec :: "token list \<Rightarrow> KillPaneOptions" where
  "kp_spec ts =
     \<lparr>kp_Target = last_value ''-t'' ts\<rparr>"

lemma kp_fold:
  "fold (apply_token kp_act) ts opts =
     opts\<lparr>kp_Target := last_of (kp_Target opts) (value_of ''-t'') ts\<rparr>"
proof (induction ts arbitrary: opts)
  case (Cons t ts)
  then show ?case by (cases t) (auto simp: kp_act_def has_flag_def)
qed (simp add: has_flag_def)

lemma kp_is_valued: "is_valued (kp_act a) = kp_valued a"
  by (simp add: kp_act_def kp_valued_def)

lemma ParseKillPane_tokens: "ParseKillPane args = map_sum id kp_spec (tokenize kp_valued args)"
  by (simp add: ParseKillPane_def kp.parse_tokens kp_is_valued kp_fold kp_spec_def [abs_def]
      kp_init_def last_value_def)

definition lp_valued :: "string \<Rightarrow> bool" where
  "lp_valued a \<longleftrightarrow> a = ''-F'' \<or> a = ''-t''"

definition lp_spec :: "token list \<Rightarrow> ListPanesOptions" where
  "lp_spec ts =
     \<lparr>lp_Format = last_value ''-F'' ts,
      lp_Target = last_value ''-t'' ts\<rparr>"

lemma lp_fold:
  "fold (apply_token lp_act) ts opts =
     opts\<lparr>lp_Format := last_of (lp_Format opts) (value_of ''-F'') ts,
       lp_Target := last_of (lp_Target opts) (value_of ''-t'') ts\<rparr>"
proof (induction ts arbitrary: opts)
  case (Cons t ts)
  then show ?case by (cases t) (auto simp: lp_act_def has_flag_def)
qed (simp add: has_flag_def)

lemma lp_is_valued: "is_valued (lp_act a) = lp_valued a"
  by (simp add: lp_act_def lp_valued_def)

lemma ParseListPanes_tokens: "ParseListPanes args = map_sum id lp_spec (tokenize lp_valued args)"
  by (simp add: ParseListPanes_def lp.parse_tokens lp_is_valued lp_fold lp_spec_def [abs_def]
      lp_init_def last_value_def)

definition dm_valued :: "string \<Rightarrow> bool" where
  "dm_valued a \<longleftrightarrow> a = ''-t'' \<or> a = ''-F''"

definition dm_spec :: "token list \<Rightarrow> DisplayMessageOptions" where
  "dm_spec ts =
     \<lparr>dm_Print = has_flag ''-p'' ts,
      dm_Format = last_of '''' dm_format_of ts,
      dm_Target = last_value ''-t'' ts\<rparr>"

lemma dm_fold:
  "fold (apply_token dm_act) ts opts =
     opts\<lparr>dm_Print := (dm_Print opts \<or> has_flag ''-p'' ts),
       dm_Format := last_of (dm_Format opts) dm_format_of ts,
       dm_Target := last_of (dm_Target opts) (value_of ''-t'') ts\<rparr>"
proof (induction ts arbitrary: opts)
  case (Cons t ts)
  then show ?case by (cases t) (auto simp: dm_act_def has_flag_def)
qed (simp add: has_flag_def)

lemma dm_is_valued: "is_valued (dm_act a) = dm_valued a"
  by (simp add: dm_act_def dm_valued_def)

lemma ParseDisplayMessage_tokens: "ParseDisplayMessage args = map_sum id dm_spec (tokenize dm_valued args)"
  by (simp add: ParseDisplayMessage_def dm.parse_tokens dm_is_valued dm_fold dm_spec_def [abs_def]
      dm_init_def last_value_def)

definition so_valued :: "string \<Rightarrow> bool" where
  "so_valued a \<longleftrightarrow> False"

definition so_spec :: "token list \<Rightarrow> ShowOptionsOptions" where
  "so_spec ts =
     \<lparr>so_Global = has_flag ''-g'' ts,
      so_Option = last_of '''' so_option_of ts\<rparr>"

lemma so_fold:
  "fold (apply_token so_act) ts opts =
     opts\<lparr>so_Global := (so_Global opts \<or> has_flag ''-g'' ts),
       so_Option := last_of (so_Option opts) so_option_of ts\<rparr>"
proof (induction ts arbitrary: opts)
  case (Cons t ts)
  then show ?case by (cases t) (auto simp: so_act_def has_flag_def)
qed (simp add: has_flag_def)

lemma so_is_valued: "is_valued (so_act a) = so_valued a"
  by (simp add: so_act_def so_valued_def)

lemma ParseShowOptions_tokens: "ParseShowOptions args = map_sum id so_spec (tokenize so_valued args)"
  by (simp add: ParseShowOptions_def so.parse_tokens so_is_valued so_fold so_spec_def [abs_def]
      so_init_def last_value_def)

lemma combined_flag: "ParseShowOptions [''-gv'', ''prefix''] = Inr \<lparr>so_Global = False, so_Option = ''prefix''\<rparr>"
  by (simp add: ParseShowOptions_def ParseShowOptions_loop.simps(2) so_init_def)

text \<open>
  C39: The seven other option loops are the declarative reading of their arguments as well: every
  field is the last value given to it, flags accumulate, and for \<open>display-message\<close> and \<open>show-options\<close> the
  positional argument counts as a value of its field. A flag is one word: \<open>-gv\<close> is not \<open>-g\<close> and \<open>-v\<close> but, like any
  word that is no flag, the name of the option, and the next word replaces it.
\<close>
theorem Parse_commands_spec:
  "ParseSelectPane args = map_sum id sp_spec (tokenize sp_valued args) \<and>
   ParseNewWindow args = map_sum id nw_spec (tokenize nw_valued args) \<and>
   ParseHasSession args = map_sum id hs_spec (tokenize hs_valued args) \<and>
   ParseKillPane args = map_sum id kp_spec (tokenize kp_valued args) \<and>
   ParseListPanes args = map_sum id lp_spec (tokenize lp_valued args) \<and>
   ParseDisplayMessage args = map_sum id dm_spec (tokenize dm_valued args) \<and>
   ParseShowOptions args = map_sum id so_spec (tokenize so_valued args) \<and>
   ParseShowOptions [''-gv'', ''prefix''] = Inr \<lparr>so_Global = False, so_Option = ''prefix''\<rparr>"
  by (intro conjI ParseSelectPane_tokens ParseNewWindow_tokens ParseHasSession_tokens
      ParseKillPane_tokens ParseListPanes_tokens ParseDisplayMessage_tokens ParseShowOptions_tokens combined_flag)

lemmas parser_error_simps =
  sw.parse_error_iff sw_is_valued sw_valued_def ParseSplitWindow_def
  sp.parse_error_iff sp_is_valued sp_valued_def ParseSelectPane_def
  nw.parse_error_iff nw_is_valued nw_valued_def ParseNewWindow_def
  lp.parse_error_iff lp_is_valued lp_valued_def ParseListPanes_def
  dm.parse_error_iff dm_is_valued dm_valued_def ParseDisplayMessage_def
  hs.parse_error_iff hs_is_valued hs_valued_def ParseHasSession_def
  kp.parse_error_iff kp_is_valued kp_valued_def ParseKillPane_def
  so.parse_error_iff so_is_valued so_valued_def ParseShowOptions_def

lemma ParseShowOptions_total: "\<exists>o'. ParseShowOptions args = Inr o'"
  by (cases "ParseShowOptions args") (auto simp: parser_error_simps)

text \<open>
  A command parser fails exactly when its arguments end in an option that is missing its value;
  the message names that option, and everything before it parses.
\<close>
theorem Parse_commands_error:
  "(ParseSplitWindow args = Inl e \<longleftrightarrow> (\<exists>ys a. args = ys @ [a] \<and> a \<in> {''-t'', ''-l'', ''-F''} \<and>
     (\<exists>o'. ParseSplitWindow ys = Inr o') \<and> e = Errorf (a @ '' requires a value''))) \<and>
   (ParseSelectPane args = Inl e \<longleftrightarrow> (\<exists>ys a. args = ys @ [a] \<and> a \<in> {''-t'', ''-P'', ''-T''} \<and>
     (\<exists>o'. ParseSelectPane ys = Inr o') \<and> e = Errorf (a @ '' requires a value''))) \<and>
   (ParseNewWindow args = Inl e \<longleftrightarrow> (\<exists>ys a. args = ys @ [a] \<and> a \<in> {''-t'', ''-n'', ''-F''} \<and>
     (\<exists>o'. ParseNewWindow ys = Inr o') \<and> e = Errorf (a @ '' requires a value''))) \<and>
   (ParseListPanes args = Inl e \<longleftrightarrow> (\<exists>ys a. args = ys @ [a] \<and> a \<in> {''-F'', ''-t''} \<and>
     (\<exists>o'. ParseListPanes ys = Inr o') \<and> e = Errorf (a @ '' requires a value''))) \<and>
   (ParseDisplayMessage args = Inl e \<longleftrightarrow> (\<exists>ys a. args = ys @ [a] \<and> a \<in> {''-t'', ''-F''} \<and>
     (\<exists>o'. ParseDisplayMessage ys = Inr o') \<and> e = Errorf (a @ '' requires a value''))) \<and>
   (ParseHasSession args = Inl e \<longleftrightarrow> (\<exists>ys. args = ys @ [''-t''] \<and>
     (\<exists>o'. ParseHasSession ys = Inr o') \<and> e = Errorf ''-t requires a value'')) \<and>
   (ParseKillPane args = Inl e \<longleftrightarrow> (\<exists>ys. args = ys @ [''-t''] \<and>
     (\<exists>o'. ParseKillPane ys = Inr o') \<and> e = Errorf ''-t requires a value'')) \<and>
   (\<exists>o'. ParseShowOptions args = Inr o')"
  by (intro conjI ParseShowOptions_total) (auto simp: parser_error_simps missing_value_def)

section \<open>send-keys\<close>

lemma sk_act_None: "sk_act a = None \<longleftrightarrow> a \<noteq> ''-t'' \<and> a \<noteq> ''-l''"
  by (simp add: sk_act_def)

lemma consumes_keys: "consumes sk_act opts pre opts' \<Longrightarrow> sk_Keys opts' = sk_Keys opts"
  by (induction rule: consumes.induct) (auto simp: sk_act_def split: if_splits)

text \<open>
  \<open>ParseSendKeys\<close> consumes \<open>-t\<close> and \<open>-l\<close> from the front only. What follows is the list of keys,
  taken as it is: everything after \<open>--\<close>, or everything from the first argument that is no option, so
  that a later \<open>-t\<close> or \<open>-l\<close> is a key.
\<close>
theorem ParseSendKeys_iff:
  "ParseSendKeys args = Inr r \<longleftrightarrow>
     (\<exists>pre opts keys. consumes sk_act sk_init pre opts \<and> r = opts\<lparr>sk_Keys := keys\<rparr> \<and>
        ((args = pre \<and> keys = []) \<or> args = pre @ ''--'' # keys \<or>
         (\<exists>k ks. keys = k # ks \<and> k \<notin> {''--'', ''-t'', ''-l''} \<and> args = pre @ keys)))"
  (is "?l \<longleftrightarrow> ?r")
proof
  assume ?l
  then obtain pre rest opts where args: "args = pre @ rest" and pre: "consumes sk_act sk_init pre opts"
      and rest: "rest = [] \<or> sk_act (hd rest) = None" and r: "sk_halt opts rest = Inr r"
    unfolding ParseSendKeys_def send_keys.scan_iff by blast
  from consumes_keys [OF pre] have "sk_Keys opts = []" by (simp add: sk_init_def)
  with args rest r have "r = opts\<lparr>sk_Keys := sk_Keys r\<rparr> \<and>
      ((args = pre \<and> sk_Keys r = []) \<or> args = pre @ ''--'' # sk_Keys r \<or>
       (\<exists>k ks. sk_Keys r = k # ks \<and> k \<notin> {''--'', ''-t'', ''-l''} \<and> args = pre @ sk_Keys r))"
    by (cases rest) (auto simp: sk_act_None split: if_splits)
  with pre show ?r by blast
next
  assume ?r
  then obtain pre opts keys rest where pre: "consumes sk_act sk_init pre opts"
      and r: "r = opts\<lparr>sk_Keys := keys\<rparr>" and args: "args = pre @ rest"
      and rest: "(rest = [] \<and> keys = []) \<or> rest = ''--'' # keys \<or>
        (\<exists>k ks. keys = k # ks \<and> k \<notin> {''--'', ''-t'', ''-l''} \<and> rest = keys)"
    by (metis append_Nil2)
  from consumes_keys [OF pre] have keys: "sk_Keys opts = []" by (simp add: sk_init_def)
  from rest have "ParseSendKeys_loop opts rest = sk_halt opts rest"
    by (intro send_keys.scan_halt) (auto simp: sk_act_None)
  moreover from rest r keys have "sk_halt opts rest = Inr r" by auto
  ultimately show ?l
    using send_keys.scan_consumes [OF pre] args by (simp add: ParseSendKeys_def)
qed

end
