(* ===== verification/Format.thy ===== *)
theory Format
  imports Prelude
begin

text \<open>
  Expansion of tmux format variables, \<open>internal/tmux/format.go\<close>: the context record, \<open>lookupVar\<close> and the
  scanning loop of \<open>ExpandFormat\<close>. The loop is shown equal to a declarative reading of the template, as
  literals that contain no \<open>#{\<close>, alternating with variables, before a tail without a complete variable.
\<close>

record FormatContext =
  SessionName :: string
  SessionID :: string
  WindowIndex :: string
  WindowID :: string
  WindowName :: string
  PaneID :: string
  PaneIndex :: string
  PanePID :: int64
  PaneTTY :: string
  PanePath :: string
  PaneWidth :: int64
  PaneHeight :: int64
  PaneActive :: bool

definition lookupVar :: "string \<Rightarrow> FormatContext \<Rightarrow> string" where
  "lookupVar name ctx =
     (if name = ''session_name'' then SessionName ctx
      else if name = ''session_id'' then SessionID ctx
      else if name = ''window_index'' then WindowIndex ctx
      else if name = ''window_id'' then WindowID ctx
      else if name = ''window_name'' then WindowName ctx
      else if name = ''pane_id'' then PaneID ctx
      else if name = ''pane_index'' then PaneIndex ctx
      else if name = ''pane_pid'' then Itoa (sint (PanePID ctx))
      else if name = ''pane_tty'' then PaneTTY ctx
      else if name = ''pane_current_path'' then PanePath ctx
      else if name = ''pane_width'' then Itoa (sint (PaneWidth ctx))
      else if name = ''pane_height'' then Itoa (sint (PaneHeight ctx))
      else if name = ''pane_active'' then (if PaneActive ctx then ''1'' else ''0'')
      else ''#{'' @ name @ ''}'')"

text \<open>The loop, with the contents of the \<open>strings.Builder\<close> as its first argument.\<close>

function ExpandFormat_loop :: "string \<Rightarrow> string \<Rightarrow> FormatContext \<Rightarrow> string" where
  "ExpandFormat_loop b template ctx =
     (case str_index template ''#{'' of
        None \<Rightarrow> b @ template
      | Some idx \<Rightarrow>
          (let b1 = b @ take idx template;
               rest = drop (idx + 2) template
           in case index_byte rest (CHR ''}'') of
                None \<Rightarrow> b1 @ drop idx template
              | Some end \<Rightarrow>
                  ExpandFormat_loop (b1 @ lookupVar (take end rest) ctx) (drop (end + 1) rest) ctx))"
  by pat_completeness auto
termination
  by (relation "measure (\<lambda>(b, template, ctx). length template)") (auto dest: str_index_bound)

declare ExpandFormat_loop.simps [simp del]

definition ExpandFormat :: "string \<Rightarrow> FormatContext \<Rightarrow> string" where
  "ExpandFormat template ctx = ExpandFormat_loop '''' template ctx"

section \<open>The declarative reading of a template\<close>

text \<open>A template is a list of literals, each followed by a variable, and a tail.\<close>

type_synonym template = "(string \<times> string) list \<times> string"

fun template_text :: "template \<Rightarrow> string" where
  "template_text ([], tail) = tail"
| "template_text ((lit, var) # ps, tail) = lit @ ''#{'' @ var @ ''}'' @ template_text (ps, tail)"

fun template_render :: "FormatContext \<Rightarrow> template \<Rightarrow> string" where
  "template_render ctx ([], tail) = tail"
| "template_render ctx ((lit, var) # ps, tail) = lit @ lookupVar var ctx @ template_render ctx (ps, tail)"

definition open_tail :: "string \<Rightarrow> bool" where
  "open_tail t \<longleftrightarrow>
     (case str_index t ''#{'' of None \<Rightarrow> True | Some i \<Rightarrow> CHR ''}'' \<notin> set (drop (i + 2) t))"

fun template_wf :: "template \<Rightarrow> bool" where
  "template_wf ([], tail) = open_tail tail"
| "template_wf ((lit, var) # ps, tail) =
     (\<not> sublist ''#{'' lit \<and> CHR ''}'' \<notin> set var \<and> template_wf (ps, tail))"

lemma ExpandFormat_loop_builder:
  "ExpandFormat_loop b t ctx = b @ ExpandFormat_loop '''' t ctx"
proof (induction t arbitrary: b rule: length_induct)
  case (1 t)
  show ?case
  proof (cases "str_index t ''#{''")
    case None
    then show ?thesis by (simp add: ExpandFormat_loop.simps)
  next
    case (Some idx)
    show ?thesis
    proof (cases "index_byte (drop (idx + 2) t) (CHR ''}'')")
      case None
      with Some show ?thesis by (simp add: ExpandFormat_loop.simps)
    next
      fix e assume e: "index_byte (drop (idx + 2) t) (CHR ''}'') = Some e"
      let ?t = "drop (e + 1) (drop (idx + 2) t)"
      let ?v = "take idx t @ lookupVar (take e (drop (idx + 2) t)) ctx"
      have unfold: "ExpandFormat_loop b t ctx = ExpandFormat_loop (b @ ?v) ?t ctx" for b
        using Some e by (subst ExpandFormat_loop.simps) simp
      from str_index_bound [OF Some] have "length ?t < length t" by simp
      then have IH: "ExpandFormat_loop b ?t ctx = b @ ExpandFormat_loop '''' ?t ctx" for b
        using 1 by blast
      show ?thesis
        unfolding unfold [of b] unfold [of "''''"] IH [of "b @ ?v"] IH [of "'''' @ ?v"] by simp
    qed
  qed
qed

lemma str_index_literal:
  "\<not> sublist ''#{'' lit \<Longrightarrow> str_index (lit @ CHR ''#'' # CHR ''{'' # s) ''#{'' = Some (length lit)"
proof (induction lit)
  case (Cons c lit)
  then have "\<not> prefix ''#{'' (c # lit @ CHR ''#'' # CHR ''{'' # s)"
    by (cases lit) (auto simp: sublist_Cons_right)
  with Cons show ?case by (auto simp: sublist_Cons_right)
qed simp

lemma ExpandFormat_var:
  assumes "\<not> sublist ''#{'' lit" and "CHR ''}'' \<notin> set var"
  shows "ExpandFormat (lit @ ''#{'' @ var @ ''}'' @ t) ctx = lit @ lookupVar var ctx @ ExpandFormat t ctx"
proof -
  have "ExpandFormat (lit @ ''#{'' @ var @ ''}'' @ t) ctx = ExpandFormat_loop (lit @ lookupVar var ctx) t ctx"
    unfolding ExpandFormat_def
    by (subst ExpandFormat_loop.simps)
       (simp add: str_index_literal [OF assms(1)] index_byte_append [OF assms(2)])
  also have "\<dots> = lit @ lookupVar var ctx @ ExpandFormat t ctx"
    by (subst ExpandFormat_loop_builder) (simp add: ExpandFormat_def)
  finally show ?thesis .
qed

lemma ExpandFormat_tail: "open_tail t \<Longrightarrow> ExpandFormat t ctx = t"
  by (subst ExpandFormat_def, subst ExpandFormat_loop.simps)
     (auto simp: open_tail_def index_byte_None [THEN iffD2] split: option.splits)

lemma ExpandFormat_template:
  "template_wf (ps, tail) \<Longrightarrow>
     ExpandFormat (template_text (ps, tail)) ctx = template_render ctx (ps, tail)"
  by (induction ps) (auto simp: ExpandFormat_tail ExpandFormat_var [simplified])

lemma template_exists: "\<exists>ps tail. template_wf (ps, tail) \<and> template_text (ps, tail) = t"
proof (induction t rule: length_induct)
  case (1 t)
  show ?case
  proof (cases "open_tail t")
    case True
    then show ?thesis by (intro exI [of _ "[]"] exI [of _ t]) simp
  next
    case False
    then obtain i where i: "str_index t ''#{'' = Some i"
        and b: "index_byte (drop (i + 2) t) (CHR ''}'') \<noteq> None"
      by (auto simp: open_tail_def index_byte_None split: option.splits)
    then obtain e where e: "index_byte (drop (i + 2) t) (CHR ''}'') = Some e" by auto
    let ?rest = "drop (i + 2) t"
    from str_index_bound [OF i] have "length (drop (Suc e) ?rest) < length t" by simp
    with 1 obtain ps tail where wf: "template_wf (ps, tail)"
        and tmpl: "template_text (ps, tail) = drop (Suc e) ?rest" by blast
    from index_byte_Some [OF e] have rest: "?rest = take e ?rest @ CHR ''}'' # drop (Suc e) ?rest"
        and var: "CHR ''}'' \<notin> set (take e ?rest)" by auto
    have t: "t = take i t @ ''#{'' @ ?rest"
      using str_index_Some [OF i] by simp
    then show ?thesis
      using wf tmpl rest var str_index_first [OF i]
      by (intro exI [of _ "(take i t, take e ?rest) # ps"] exI [of _ tail]) simp
  qed
qed

text \<open>
  C40: \<open>ExpandFormat\<close> is the declarative reading of its template: every template splits into literals
  without \<open>#{\<close>, variables without a closing brace and a tail with no complete variable, and the expansion
  is the text with each variable replaced by its value, in one pass: values are never expanded again.
\<close>
theorem ExpandFormat_iff:
  "ExpandFormat t ctx = out \<longleftrightarrow>
     (\<exists>ps tail. template_wf (ps, tail) \<and> t = template_text (ps, tail) \<and>
        out = template_render ctx (ps, tail))"
  using template_exists [of t] ExpandFormat_template by metis

definition format_variables :: "string list" where
  "format_variables =
     [''session_name'', ''session_id'', ''window_index'', ''window_id'', ''window_name'', ''pane_id'',
      ''pane_index'', ''pane_pid'', ''pane_tty'', ''pane_current_path'', ''pane_width'', ''pane_height'',
      ''pane_active'']"

lemma lookupVar_unknown: "var \<notin> set format_variables \<Longrightarrow> lookupVar var ctx = ''#{'' @ var @ ''}''"
  by (simp add: lookupVar_def format_variables_def)

text \<open>
  A template in which every complete variable is unknown is returned unchanged, in particular
  one without any variable.
\<close>
theorem ExpandFormat_unknown:
  assumes "template_wf (ps, tail)"
    and "\<And>lit var. (lit, var) \<in> set ps \<Longrightarrow> var \<notin> set format_variables"
  shows "ExpandFormat (template_text (ps, tail)) ctx = template_text (ps, tail)"
proof -
  from assms(2) have "template_render ctx (ps, tail) = template_text (ps, tail)"
  proof (induction ps)
    case (Cons p ps)
    then show ?case by (cases p) (fastforce simp: lookupVar_unknown)
  qed simp
  with assms(1) show ?thesis by (simp add: ExpandFormat_template)
qed

definition sample_context :: FormatContext where
  "sample_context =
     \<lparr>SessionName = ''work'', SessionID = ''$0'', WindowIndex = ''0'', WindowID = ''@0'', WindowName = ''work'',
      PaneID = ''%3'', PaneIndex = ''1'', PanePID = -1, PaneTTY = ''/dev/ttys001'', PanePath = ''#{pane_id}'',
      PaneWidth = 80, PaneHeight = 24, PaneActive = True\<rparr>"

theorem ExpandFormat_unknown_witness:
  "ExpandFormat ''a#{nope}b#{pane_id'' sample_context = ''a#{nope}b#{pane_id''"
  using ExpandFormat_unknown [of "[(''a'', ''nope'')]" "''b#{pane_id''" sample_context]
  by (simp add: format_variables_def open_tail_def sublist_Cons_right)

text \<open>
  Expansion distributes over the complete variables of a template: a literal without \<open>#{\<close> and the
  variable after it are replaced on their own, and the rest of the template is expanded independently.
\<close>
theorem ExpandFormat_step:
  assumes "\<not> sublist ''#{'' lit" and "CHR ''}'' \<notin> set var"
  shows "ExpandFormat (lit @ ''#{'' @ var @ ''}'' @ t) ctx = lit @ lookupVar var ctx @ ExpandFormat t ctx"
  using assms by (rule ExpandFormat_var)

theorem ExpandFormat_step_witness:
  "ExpandFormat ''[#{pane_current_path}] #{pane_pid}'' sample_context = ''[#{pane_id}] -1''"
  using ExpandFormat_step [of "''[''" "''pane_current_path''" "''] #{pane_pid}''" sample_context]
    ExpandFormat_step [of "''] ''" "''pane_pid''" "''''" sample_context]
  by (simp add: lookupVar_def sample_context_def ExpandFormat_tail open_tail_def sublist_Cons_right
      Itoa_def nat_digits.simps)

end
