(* ===== verification/Utf8.thy ===== *)
theory Utf8
  imports Prelude
begin

text \<open>
  The UTF-8 decoding that \<open>for _, r := range s\<close> performs and the encoding that \<open>string(rune)\<close>,
  \<open>WriteRune\<close> and \<open>%c\<close> perform, as the language defines them: an invalid byte decodes to U+FFFD and is one
  byte wide.
\<close>

definition RuneError :: nat where
  "RuneError = 65533"

definition byte_in :: "nat \<Rightarrow> nat \<Rightarrow> char \<Rightarrow> bool" where
  "byte_in lo hi c \<longleftrightarrow> lo \<le> of_char c \<and> (of_char c :: nat) \<le> hi"

definition low6 :: "char \<Rightarrow> nat" where
  "low6 c = of_char c - 128"

text \<open>The rune a non-empty string starts with, and its width in bytes.\<close>

fun rune2 :: "nat \<Rightarrow> string \<Rightarrow> nat \<times> nat" where
  "rune2 b0 (c1 # cs) =
     (if byte_in 128 191 c1 then ((b0 - 192) * 64 + low6 c1, 2) else (RuneError, 1))"
| "rune2 b0 cs = (RuneError, 1)"

fun rune3 :: "nat \<Rightarrow> string \<Rightarrow> nat \<times> nat" where
  "rune3 b0 (c1 # c2 # cs) =
     (if byte_in (if b0 = 224 then 160 else 128) (if b0 = 237 then 159 else 191) c1 \<and>
         byte_in 128 191 c2
      then ((b0 - 224) * 4096 + low6 c1 * 64 + low6 c2, 3) else (RuneError, 1))"
| "rune3 b0 cs = (RuneError, 1)"

fun rune4 :: "nat \<Rightarrow> string \<Rightarrow> nat \<times> nat" where
  "rune4 b0 (c1 # c2 # c3 # cs) =
     (if byte_in (if b0 = 240 then 144 else 128) (if b0 = 244 then 143 else 191) c1 \<and>
         byte_in 128 191 c2 \<and> byte_in 128 191 c3
      then ((b0 - 240) * 262144 + low6 c1 * 4096 + low6 c2 * 64 + low6 c3, 4)
      else (RuneError, 1))"
| "rune4 b0 cs = (RuneError, 1)"

fun decode_rune :: "string \<Rightarrow> nat \<times> nat" where
  "decode_rune [] = (RuneError, 0)"
| "decode_rune (c0 # cs) =
     (let b0 = of_char c0 in
      if b0 < 128 then (b0, 1)
      else if b0 < 194 then (RuneError, 1)
      else if b0 < 224 then rune2 b0 cs
      else if b0 < 240 then rune3 b0 cs
      else if b0 < 245 then rune4 b0 cs
      else (RuneError, 1))"

definition encode_rune :: "nat \<Rightarrow> string" where
  "encode_rune r0 =
     (let r = (if r0 > 1114111 \<or> (55296 \<le> r0 \<and> r0 \<le> 57343) then RuneError else r0) in
      if r < 128 then [char_of r]
      else if r < 2048 then [char_of (192 + r div 64), char_of (128 + r mod 64)]
      else if r < 65536 then
        [char_of (224 + r div 4096), char_of (128 + r div 64 mod 64), char_of (128 + r mod 64)]
      else
        [char_of (240 + r div 262144), char_of (128 + r div 4096 mod 64),
         char_of (128 + r div 64 mod 64), char_of (128 + r mod 64)])"

lemma rune_widths: "1 \<le> snd (rune2 b cs)" "1 \<le> snd (rune3 b cs)" "1 \<le> snd (rune4 b cs)"
  by (cases "(b, cs)" rule: rune2.cases, simp_all)
     (cases "(b, cs)" rule: rune3.cases, simp_all, cases "(b, cs)" rule: rune4.cases, simp_all)

lemma decode_rune_width: "s \<noteq> [] \<Longrightarrow> 1 \<le> snd (decode_rune s)"
  using rune_widths by (cases s) (simp_all add: Let_def)

text \<open>The runes a \<open>range\<close> loop over a string visits.\<close>

function runes :: "string \<Rightarrow> nat list" where
  "runes s =
     (if s = [] then []
      else let (r, w) = decode_rune s in r # runes (drop w s))"
  by pat_completeness auto
termination
proof (relation "measure length")
  fix s :: string and x r w
  assume "s \<noteq> []" "x = decode_rune s" "(r, w) = x"
  with decode_rune_width [of s] show "(drop w s, s) \<in> measure length"
    by (cases s) (auto dest: arg_cong [where f = snd])
qed simp

declare runes.simps [simp del]

lemma runes_Nil [simp]: "runes [] = []"
  by (simp add: runes.simps)

lemma runes_ascii_Cons: "of_char c < (128 :: nat) \<Longrightarrow> runes (c # s) = of_char c # runes s"
  by (subst runes.simps) (simp add: Let_def)

lemma low6_ge: "byte_in 160 hi c \<Longrightarrow> 32 \<le> low6 c" "byte_in 144 hi c \<Longrightarrow> 16 \<le> low6 c"
  by (auto simp: byte_in_def low6_def)

lemma rune2_high: "194 \<le> b \<Longrightarrow> 128 \<le> fst (rune2 b cs)"
proof -
  assume "194 \<le> b"
  then have "2 \<le> b - 192" by simp
  then have "128 \<le> (b - 192) * 64 + x" for x by linarith
  then show ?thesis
    by (cases "(b, cs)" rule: rune2.cases) (simp_all add: RuneError_def)
qed

lemma rune3_high: "224 \<le> b \<Longrightarrow> 128 \<le> fst (rune3 b cs)"
proof (cases "(b, cs)" rule: rune3.cases)
  case (1 b0 c1 c2 rest)
  assume "224 \<le> b"
  then consider "b = 224" | "1 \<le> b - 224" by linarith
  then show ?thesis
  proof cases
    case 1
    with \<open>(b, cs) = _\<close> low6_ge(1) [of 191 c1] show ?thesis by (auto simp: RuneError_def)
  next
    case 2
    with \<open>(b, cs) = _\<close> show ?thesis by (auto simp: RuneError_def)
  qed
qed (simp_all add: RuneError_def)

lemma rune4_high: "240 \<le> b \<Longrightarrow> 128 \<le> fst (rune4 b cs)"
proof (cases "(b, cs)" rule: rune4.cases)
  case (1 b0 c1 c2 c3 rest)
  assume "240 \<le> b"
  then consider "b = 240" | "1 \<le> b - 240" by linarith
  then show ?thesis
  proof cases
    case 1
    with \<open>(b, cs) = _\<close> low6_ge(2) [of 191 c1] show ?thesis by (auto simp: RuneError_def)
  next
    case 2
    with \<open>(b, cs) = _\<close> show ?thesis by (auto simp: RuneError_def)
  qed
qed (simp_all add: RuneError_def)

lemma decode_rune_high:
  assumes "(128 :: nat) \<le> of_char c"
  shows "128 \<le> fst (decode_rune (c # s))"
  using assms by (simp add: Let_def RuneError_def rune2_high rune3_high rune4_high)

lemma runes_high_Cons:
  "(128 :: nat) \<le> of_char c \<Longrightarrow> \<exists>r w. 128 \<le> r \<and> 1 \<le> w \<and> runes (c # s) = r # runes (drop w (c # s))"
  using decode_rune_high [of c s] decode_rune_width [of "c # s"]
  by (subst runes.simps) (auto simp: split_beta)

lemma runes_ascii: "list_all (\<lambda>c. of_char c < (128 :: nat)) s \<Longrightarrow> runes s = map of_char s"
  by (induction s) (simp_all add: runes_ascii_Cons)

lemma length_runes: "length (runes s) \<le> length s"
proof (induction s rule: length_induct)
  case (1 s)
  show ?case
  proof (cases "s = []")
    case False
    from decode_rune_width [OF False] have "length (runes (drop (snd (decode_rune s)) s)) \<le> length (drop (snd (decode_rune s)) s)"
      using False by (intro 1 [rule_format]) auto
    moreover from False have "0 < length s" by simp
    ultimately have "Suc (length (runes (drop (snd (decode_rune s)) s))) \<le> length s"
      using decode_rune_width [OF False] unfolding length_drop by linarith
    with False show ?thesis
      by (subst runes.simps) (simp add: split_beta)
  qed simp
qed

lemma encode_rune_ascii: "r < 128 \<Longrightarrow> encode_rune r = [char_of r]"
  by (simp add: encode_rune_def)

lemma encode_rune_not_Nil [simp]: "encode_rune r \<noteq> []"
  by (simp add: encode_rune_def Let_def)

end
