(* ===== verification/Keys.thy ===== *)
theory Keys
  imports Utf8
begin

text \<open>
  Expansion of tmux key names into the byte sequences written to a pane, \<open>internal/tmux/keys.go\<close>: the two key
  tables, the modifier parser, the xterm modifier encoding, \<open>ExpandSpecialKey\<close> with its fallbacks and
  \<open>BuildSendKeysData\<close>. A Go map literal is an association list with distinct keys, read with \<open>map_of\<close>.
\<close>

section \<open>Tables\<close>

definition esc :: "string \<Rightarrow> string" where
  "esc s = CHR 0x1B # s"

definition specialKeys :: "(string \<times> string) list" where
  "specialKeys =
    [(''Enter'', [CHR 0x0D]),
     (''Escape'', [CHR 0x1B]),
     (''Tab'', [CHR 0x09]),
     (''Space'', '' ''),
     (''BSpace'', [CHR 0x7F]),
     (''BTab'', esc ''[Z''),
     (''Up'', esc ''[A''),
     (''Down'', esc ''[B''),
     (''Right'', esc ''[C''),
     (''Left'', esc ''[D''),
     (''DC'', esc ''[3~''),
     (''End'', esc ''[F''),
     (''Home'', esc ''[H''),
     (''IC'', esc ''[2~''),
     (''NPage'', esc ''[6~''),
     (''PPage'', esc ''[5~''),
     (''Insert'', esc ''[2~''),
     (''Delete'', esc ''[3~''),
     (''PageDown'', esc ''[6~''),
     (''PgDn'', esc ''[6~''),
     (''PageUp'', esc ''[5~''),
     (''PgUp'', esc ''[5~''),
     (''F1'', esc ''OP''),
     (''F2'', esc ''OQ''),
     (''F3'', esc ''OR''),
     (''F4'', esc ''OS''),
     (''F5'', esc ''[15~''),
     (''F6'', esc ''[17~''),
     (''F7'', esc ''[18~''),
     (''F8'', esc ''[19~''),
     (''F9'', esc ''[20~''),
     (''F10'', esc ''[21~''),
     (''F11'', esc ''[23~''),
     (''F12'', esc ''[24~''),
     (''[NUL]'', [CHR 0x00]),
     (''[SOH]'', [CHR 0x01]),
     (''[STX]'', [CHR 0x02]),
     (''[ETX]'', [CHR 0x03]),
     (''[EOT]'', [CHR 0x04]),
     (''[ENQ]'', [CHR 0x05]),
     (''[ASC]'', [CHR 0x06]),
     (''[BEL]'', [CHR 0x07]),
     (''[BS]'', [CHR 0x08]),
     (''[LF]'', [CHR 0x0A]),
     (''[VT]'', [CHR 0x0B]),
     (''[FF]'', [CHR 0x0C]),
     (''[SO]'', [CHR 0x0E]),
     (''[SI]'', [CHR 0x0F]),
     (''[DLE]'', [CHR 0x10]),
     (''[DC1]'', [CHR 0x11]),
     (''[DC2]'', [CHR 0x12]),
     (''[DC3]'', [CHR 0x13]),
     (''[DC4]'', [CHR 0x14]),
     (''[NAK]'', [CHR 0x15]),
     (''[SYN]'', [CHR 0x16]),
     (''[ETB]'', [CHR 0x17]),
     (''[CAN]'', [CHR 0x18]),
     (''[EM]'', [CHR 0x19]),
     (''[SUB]'', [CHR 0x1A]),
     (''[FS]'', [CHR 0x1C]),
     (''[GS]'', [CHR 0x1D]),
     (''[RS]'', [CHR 0x1E]),
     (''[US]'', [CHR 0x1F]),
     (''KP/'', ''/''),
     (''KP*'', ''*''),
     (''KP-'', ''-''),
     (''KP+'', ''+''),
     (''KP.'', ''.''),
     (''KPEnter'', [CHR 0x0D]),
     (''KP0'', ''0''),
     (''KP1'', ''1''),
     (''KP2'', ''2''),
     (''KP3'', ''3''),
     (''KP4'', ''4''),
     (''KP5'', ''5''),
     (''KP6'', ''6''),
     (''KP7'', ''7''),
     (''KP8'', ''8''),
     (''KP9'', ''9'')]"

record modifiableKeyInfo =
  paramStyle :: string
  num :: string
  letter :: char

definition csi_tilde :: "string \<Rightarrow> modifiableKeyInfo" where
  "csi_tilde n = \<lparr>paramStyle = ''csi_tilde'', num = n, letter = CHR 0x00\<rparr>"

definition csi_letter :: "char \<Rightarrow> modifiableKeyInfo" where
  "csi_letter c = \<lparr>paramStyle = ''csi_letter'', num = '''', letter = c\<rparr>"

definition ss3_to_csi :: "char \<Rightarrow> modifiableKeyInfo" where
  "ss3_to_csi c = \<lparr>paramStyle = ''ss3_to_csi'', num = '''', letter = c\<rparr>"

definition modifiableKeys :: "(string \<times> modifiableKeyInfo) list" where
  "modifiableKeys =
    [(''Up'', csi_letter (CHR ''A'')),
     (''Down'', csi_letter (CHR ''B'')),
     (''Right'', csi_letter (CHR ''C'')),
     (''Left'', csi_letter (CHR ''D'')),
     (''Home'', csi_letter (CHR ''H'')),
     (''End'', csi_letter (CHR ''F'')),
     (''IC'', csi_tilde ''2''),
     (''Insert'', csi_tilde ''2''),
     (''DC'', csi_tilde ''3''),
     (''Delete'', csi_tilde ''3''),
     (''PPage'', csi_tilde ''5''),
     (''PageUp'', csi_tilde ''5''),
     (''PgUp'', csi_tilde ''5''),
     (''NPage'', csi_tilde ''6''),
     (''PageDown'', csi_tilde ''6''),
     (''PgDn'', csi_tilde ''6''),
     (''F1'', ss3_to_csi (CHR ''P'')),
     (''F2'', ss3_to_csi (CHR ''Q'')),
     (''F3'', ss3_to_csi (CHR ''R'')),
     (''F4'', ss3_to_csi (CHR ''S'')),
     (''F5'', csi_tilde ''15''),
     (''F6'', csi_tilde ''17''),
     (''F7'', csi_tilde ''18''),
     (''F8'', csi_tilde ''19''),
     (''F9'', csi_tilde ''20''),
     (''F10'', csi_tilde ''21''),
     (''F11'', csi_tilde ''23''),
     (''F12'', csi_tilde ''24'')]"

section \<open>Modifiers\<close>

fun parseModifiers_loop :: "bool \<Rightarrow> bool \<Rightarrow> bool \<Rightarrow> string \<Rightarrow> bool \<times> bool \<times> bool \<times> string" where
  "parseModifiers_loop ctrl meta shift (c0 # c1 # s) =
     (if c1 = CHR ''-'' then
        (if c0 = CHR ''C'' \<or> c0 = CHR ''c'' then parseModifiers_loop True meta shift s
         else if c0 = CHR ''M'' \<or> c0 = CHR ''m'' then parseModifiers_loop ctrl True shift s
         else if c0 = CHR ''S'' \<or> c0 = CHR ''s'' then parseModifiers_loop ctrl meta True s
         else (ctrl, meta, shift, c0 # c1 # s))
      else (ctrl, meta, shift, c0 # c1 # s))"
| "parseModifiers_loop ctrl meta shift s = (ctrl, meta, shift, s)"

definition parseModifiers :: "string \<Rightarrow> bool \<times> bool \<times> bool \<times> string" where
  "parseModifiers key = parseModifiers_loop False False False key"

definition xtermModParam :: "bool \<Rightarrow> bool \<Rightarrow> bool \<Rightarrow> int" where
  "xtermModParam ctrl meta shift =
     1 + (if shift then 1 else 0) + (if meta then 2 else 0) + (if ctrl then 4 else 0)"

definition buildModifiedSequence :: "modifiableKeyInfo \<Rightarrow> int \<Rightarrow> string" where
  "buildModifiedSequence info modParam =
     (if paramStyle info = ''csi_tilde'' then
        esc (''['' @ num info @ '';'' @ Itoa modParam @ ''~'')
      else if paramStyle info = ''csi_letter'' \<or> paramStyle info = ''ss3_to_csi'' then
        esc (''[1;'' @ Itoa modParam @ encode_rune (of_char (letter info)))
      else '''')"

definition rebuildKeyName :: "bool \<Rightarrow> bool \<Rightarrow> bool \<Rightarrow> string \<Rightarrow> string" where
  "rebuildKeyName ctrl meta shift baseKey =
     (if ctrl then ''C-'' else '''') @ (if meta then ''M-'' else '''') @
     (if shift then ''S-'' else '''') @ baseKey"

section \<open>Expansion\<close>

text \<open>Byte arithmetic: \<open>ch - 'a' + 'A'\<close> on a byte between \<open>'a'\<close> and \<open>'z'\<close> does not wrap around.\<close>

definition is_lower :: "nat \<Rightarrow> bool" where
  "is_lower ch \<longleftrightarrow> 97 \<le> ch \<and> ch \<le> 122"

definition is_upper :: "nat \<Rightarrow> bool" where
  "is_upper ch \<longleftrightarrow> 65 \<le> ch \<and> ch \<le> 90"

definition expandBaseKey :: "string \<Rightarrow> bool \<Rightarrow> bool \<Rightarrow> bool \<Rightarrow> string" where
  "expandBaseKey baseKey ctrl meta shift =
     (let with_meta = (\<lambda>result. if meta then esc result else result) in
      case map_of specialKeys baseKey of
        Some seq \<Rightarrow> with_meta seq
      | None \<Rightarrow>
          (case baseKey of
             [c] \<Rightarrow>
               (let ch0 = of_char c;
                    ch = (if shift \<and> is_lower ch0 then ch0 - 97 + 65 else ch0)
                in if ctrl then
                     (let upper = (if is_lower ch then ch - 97 + 65 else ch)
                      in if is_upper upper then with_meta (encode_rune (upper - 65 + 1))
                         else if upper = 64 then with_meta [CHR 0x00]
                         else with_meta (encode_rune ch))
                   else with_meta (encode_rune ch))
           | _ \<Rightarrow> rebuildKeyName ctrl meta shift baseKey))"

definition ExpandSpecialKey :: "string \<Rightarrow> string" where
  "ExpandSpecialKey key =
     (case map_of specialKeys key of
        Some seq \<Rightarrow> seq
      | None \<Rightarrow>
          (let (ctrl, meta, shift, baseKey) = parseModifiers key in
           if \<not> (ctrl \<or> meta \<or> shift) then key
           else
             (case map_of modifiableKeys baseKey of
                Some info \<Rightarrow> buildModifiedSequence info (xtermModParam ctrl meta shift)
              | None \<Rightarrow> expandBaseKey baseKey ctrl meta shift)))"

fun BuildSendKeysData_loop :: "string \<Rightarrow> string list \<Rightarrow> bool \<Rightarrow> string" where
  "BuildSendKeysData_loop b [] literal = b"
| "BuildSendKeysData_loop b (arg # args) literal =
     BuildSendKeysData_loop (b @ (if literal then arg else ExpandSpecialKey arg)) args literal"

definition BuildSendKeysData :: "string list \<Rightarrow> bool \<Rightarrow> string" where
  "BuildSendKeysData args literal = BuildSendKeysData_loop '''' args literal"

end
