(* ===== verification/Pane.thy ===== *)
theory Pane
  imports Prelude "HOL-Library.AList" "HOL-Library.Multiset"
begin

text \<open>
  The in-memory part of \<open>internal/pane/manager.go\<close>: the pane record, the manager and its operations. A Go
  map is an association list with distinct keys; \<open>range\<close> over a map visits its entries in an
  unspecified order, so \<open>GetActive\<close> takes that order as an argument. Every method locks the manager for its
  whole body, so a method is one step. The map holds pointers; no caller writes through one, so the model
  keeps the pane itself.
\<close>

section \<open>State\<close>

record Pane =
  p_ID :: string
  p_TTY :: string
  p_Active :: bool
  p_Width :: int64
  p_Height :: int64
  p_PID :: int64
  p_CurrentPath :: string

type_synonym pane_map = "(string \<times> Pane) list"

record Manager =
  m_panes :: pane_map
  m_nextPaneID :: int64
  m_stateFile :: string
  m_order :: "string list"

definition NewManager :: "string \<Rightarrow> Manager" where
  "NewManager stateFile =
     \<lparr>m_panes = [], m_nextPaneID = 0, m_stateFile = stateFile, m_order = []\<rparr>"

section \<open>Operations\<close>

definition nextID :: "Manager \<Rightarrow> string \<times> Manager" where
  "nextID m =
     (Itoa (sint (m_nextPaneID m)), m\<lparr>m_nextPaneID := m_nextPaneID m + 1\<rparr>)"

definition NextID :: "Manager \<Rightarrow> string \<times> Manager" where
  "NextID m = nextID m"

definition new_pane :: "string \<Rightarrow> string \<Rightarrow> bool \<Rightarrow> Pane" where
  "new_pane paneID tty active =
     \<lparr>p_ID = paneID, p_TTY = tty, p_Active = active, p_Width = 0, p_Height = 0, p_PID = 0,
      p_CurrentPath = ''''\<rparr>"

definition Register :: "string \<Rightarrow> Manager \<Rightarrow> Pane result \<times> Manager" where
  "Register tty m =
     (let (paneID, m1) = nextID m;
          p = new_pane paneID tty (length (m_panes m1) = 0)
      in (Inr p, m1\<lparr>m_panes := AList.update paneID p (m_panes m1), m_order := m_order m1 @ [paneID]\<rparr>))"

text \<open>The loop that removes the first entry equal to the id from the order.\<close>

fun remove_order :: "string \<Rightarrow> string list \<Rightarrow> string list" where
  "remove_order paneID [] = []"
| "remove_order paneID (oid # order) = (if oid = paneID then order else oid # remove_order paneID order)"

definition Unregister :: "string \<Rightarrow> Manager \<Rightarrow> go_error option \<times> Manager" where
  "Unregister paneID m =
     (case map_of (m_panes m) paneID of
        None \<Rightarrow> (Some (ErrPaneNotFound paneID), m)
      | Some _ \<Rightarrow>
          (None, m\<lparr>m_panes := AList.delete paneID (m_panes m), m_order := remove_order paneID (m_order m)\<rparr>))"

definition Get :: "string \<Rightarrow> Manager \<Rightarrow> Pane result" where
  "Get paneID m =
     (case map_of (m_panes m) paneID of None \<Rightarrow> Inl (ErrPaneNotFound paneID) | Some p \<Rightarrow> Inr p)"

fun List_loop :: "pane_map \<Rightarrow> string list \<Rightarrow> Pane list" where
  "List_loop panes [] = []"
| "List_loop panes (paneID # order) =
     (case map_of panes paneID of
        Some p \<Rightarrow> p # List_loop panes order
      | None \<Rightarrow> List_loop panes order)"

definition List :: "Manager \<Rightarrow> Pane list" where
  "List m = List_loop (m_panes m) (m_order m)"

fun IndexOf_loop :: "int \<Rightarrow> string \<Rightarrow> string list \<Rightarrow> int" where
  "IndexOf_loop i paneID [] = -1"
| "IndexOf_loop i paneID (oid # order) = (if oid = paneID then i else IndexOf_loop (i + 1) paneID order)"

definition IndexOf :: "string \<Rightarrow> Manager \<Rightarrow> int" where
  "IndexOf paneID m = IndexOf_loop 0 paneID (m_order m)"

definition OrderedList :: "Manager \<Rightarrow> string list" where
  "OrderedList m = m_order m"

text \<open>The iteration order of a \<open>range\<close> loop over the map: some permutation of its entries.\<close>

type_synonym map_order = "pane_map \<Rightarrow> pane_map"

definition is_map_order :: "map_order \<Rightarrow> bool" where
  "is_map_order ord \<longleftrightarrow> (\<forall>panes. mset (ord panes) = mset panes)"

definition GetActive :: "map_order \<Rightarrow> Manager \<Rightarrow> Pane option" where
  "GetActive ord m = find p_Active (map snd (ord (m_panes m)))"

fun SetActive_loop :: "string \<Rightarrow> pane_map \<Rightarrow> pane_map" where
  "SetActive_loop paneID [] = []"
| "SetActive_loop paneID ((k, p) # panes) =
     (k, p\<lparr>p_Active := (p_ID p = paneID)\<rparr>) # SetActive_loop paneID panes"

definition SetActive :: "string \<Rightarrow> Manager \<Rightarrow> go_error option \<times> Manager" where
  "SetActive paneID m =
     (case map_of (m_panes m) paneID of
        None \<Rightarrow> (Some (ErrPaneNotFound paneID), m)
      | Some _ \<Rightarrow>
          (None, m\<lparr>m_panes := SetActive_loop paneID (m_panes m)\<rparr>))"

section \<open>The interface the commands use\<close>

text \<open>
  What the tmux commands rely on, stated over the list of panes in registration order. \<open>room\<close> says that the
  id counter can still be incremented.
\<close>

locale pane_registry =
  fixes inv :: "'m \<Rightarrow> bool"
    and room :: "'m \<Rightarrow> bool"
    and panes :: "'m \<Rightarrow> Pane list"
    and register :: "string \<Rightarrow> 'm \<Rightarrow> Pane result \<times> 'm"
    and unregister :: "string \<Rightarrow> 'm \<Rightarrow> go_error option \<times> 'm"
    and index_of :: "string \<Rightarrow> 'm \<Rightarrow> int"
    and order_ok :: "'o \<Rightarrow> bool"
    and active :: "'o \<Rightarrow> 'm \<Rightarrow> Pane option"
  assumes ids_distinct: "inv m \<Longrightarrow> distinct (map p_ID (panes m))"
    and ids_numeric: "inv m \<Longrightarrow> p \<in> set (panes m) \<Longrightarrow> list_all is_digit (p_ID p) \<and> p_ID p \<noteq> []"
    and one_active: "inv m \<Longrightarrow> length (filter p_Active (panes m)) \<le> 1"
    and register_inv: "inv m \<Longrightarrow> room m \<Longrightarrow> inv (snd (register tty m))"
    and register_panes: "inv m \<Longrightarrow> room m \<Longrightarrow> register tty m = (r, m') \<Longrightarrow>
      \<exists>p. r = Inr p \<and> panes m' = panes m @ [p] \<and> p_TTY p = tty \<and> (p_Active p \<longleftrightarrow> panes m = [])"
    and unregister_inv: "inv m \<Longrightarrow> inv (snd (unregister paneID m))"
    and unregister_known: "inv m \<Longrightarrow> paneID \<in> p_ID ` set (panes m) \<Longrightarrow>
      fst (unregister paneID m) = None \<and>
      panes (snd (unregister paneID m)) = filter (\<lambda>p. p_ID p \<noteq> paneID) (panes m)"
    and unregister_unknown: "inv m \<Longrightarrow> paneID \<notin> p_ID ` set (panes m) \<Longrightarrow>
      unregister paneID m = (Some (ErrPaneNotFound paneID), m)"
    and index_of_nth: "inv m \<Longrightarrow> i < length (panes m) \<Longrightarrow> index_of (p_ID (panes m ! i)) m = int i"
    and active_find: "inv m \<Longrightarrow> order_ok ord \<Longrightarrow> active ord m = find p_Active (panes m)"
begin

lemma register_fresh:
  assumes "inv m" "room m" "register tty m = (Inr p, m')"
  shows "p_ID p \<notin> p_ID ` set (panes m)"
proof -
  from assms register_panes have "panes m' = panes m @ [p]" by fastforce
  moreover have "distinct (map p_ID (panes m'))"
    using assms register_inv [of m tty] ids_distinct [of m'] by simp
  ultimately show ?thesis by auto
qed

lemma register_index:
  assumes "inv m" "room m" "register tty m = (Inr p, m')"
  shows "index_of (p_ID p) m' = int (length (panes m))"
proof -
  from assms register_panes have "panes m' = panes m @ [p]" by fastforce
  moreover have "inv m'" using assms register_inv [of m tty] by simp
  ultimately show ?thesis
    using index_of_nth [of m' "length (panes m)"] by simp
qed

lemma register_unregister:
  assumes "inv m" "room m" "register tty m = (Inr p, m')"
  shows "fst (unregister (p_ID p) m') = None \<and> panes (snd (unregister (p_ID p) m')) = panes m"
proof -
  from assms register_panes have "panes m' = panes m @ [p]" by fastforce
  moreover have "inv m'" using assms register_inv [of m tty] by simp
  moreover have "filter (\<lambda>q. p_ID q \<noteq> p_ID p) (panes m) = panes m"
    using register_fresh [OF assms] by (intro filter_True ballI) (metis imageI)
  ultimately show ?thesis
    using unregister_known [of m' "p_ID p"] by simp
qed

lemma active_unique:
  assumes "inv m" "order_ok ord" "p \<in> set (panes m)" "p_Active p"
  shows "active ord m = Some p"
proof -
  obtain q where q: "find p_Active (panes m) = Some q"
    using assms(3,4) by (cases "find p_Active (panes m)") (auto simp: find_None_iff)
  then have "q \<in> set (filter p_Active (panes m))"
    by (auto simp: find_Some_iff)
  moreover have "p \<in> set (filter p_Active (panes m))" using assms by simp
  ultimately have "q = p"
    using one_active [OF assms(1)]
    by (cases "filter p_Active (panes m)"; cases "tl (filter p_Active (panes m))") auto
  with q show ?thesis by (simp add: active_find [OF assms(1,2)])
qed

lemma unregister_active:
  assumes "inv m" "order_ok ord" "active ord m = Some p"
  shows "active ord (snd (unregister (p_ID p) m)) = None"
proof -
  have inv': "inv (snd (unregister (p_ID p) m))" using assms(1) by (rule unregister_inv)
  from assms have "find p_Active (panes m) = Some p" by (simp add: active_find)
  then have p: "p \<in> set (panes m)" by (auto simp: find_Some_iff)
  have "\<not> p_Active q" if "q \<in> set (panes m)" "p_ID q \<noteq> p_ID p" for q
    using active_unique [OF assms(1,2) that(1)] assms(3) that(2) by auto
  with p show ?thesis
    by (auto simp: active_find [OF inv' assms(2)] unregister_known [OF assms(1)] find_None_iff)
qed

end

end
