(* ===== verification/Pane_Spec.thy ===== *)
theory Pane_Spec
  imports Pane
begin

text \<open>
  What the pane manager promises: its representation invariant, kept by every operation; the operations as
  functions of the list of panes in registration order; fresh identifiers; at
  most one active pane; and that the iteration order of the Go map cannot be observed.
\<close>

section \<open>Representation invariant\<close>

definition mgr_inv :: "Manager \<Rightarrow> bool" where
  "mgr_inv m \<longleftrightarrow>
     distinct (map fst (m_panes m)) \<and> distinct (m_order m) \<and>
     set (m_order m) = fst ` set (m_panes m) \<and>
     (\<forall>(k, p) \<in> set (m_panes m). p_ID p = k) \<and>
     length (filter p_Active (map snd (m_panes m))) \<le> 1 \<and>
     0 \<le> sint (m_nextPaneID m) \<and>
     (\<forall>k \<in> set (m_order m). \<exists>n. 0 \<le> n \<and> n < sint (m_nextPaneID m) \<and> k = Itoa n)"

definition mgr_room :: "Manager \<Rightarrow> bool" where
  "mgr_room m \<longleftrightarrow> sint (m_nextPaneID m) < 2 ^ 63 - 1"

lemma mgr_invD:
  assumes "mgr_inv m"
  shows "distinct (map fst (m_panes m))" "distinct (m_order m)"
    "set (m_order m) = fst ` set (m_panes m)" "\<And>k p. (k, p) \<in> set (m_panes m) \<Longrightarrow> p_ID p = k"
    "length (filter p_Active (map snd (m_panes m))) \<le> 1" "0 \<le> sint (m_nextPaneID m)"
    "\<And>k. k \<in> set (m_order m) \<Longrightarrow> \<exists>n. 0 \<le> n \<and> n < sint (m_nextPaneID m) \<and> k = Itoa n"
  using assms by (auto simp: mgr_inv_def)

lemma mgr_inv_NewManager: "mgr_inv (NewManager f)"
  by (simp add: mgr_inv_def NewManager_def)

section \<open>The list of panes\<close>

lemma List_loop_map:
  "set order \<subseteq> dom (map_of panes) \<Longrightarrow> List_loop panes order = map (\<lambda>k. the (map_of panes k)) order"
  by (induction order) (auto split: option.splits)

lemma List_map: "mgr_inv m \<Longrightarrow> List m = map (\<lambda>k. the (map_of (m_panes m) k)) (m_order m)"
  unfolding List_def
  by (rule List_loop_map) (use mgr_invD(3) in \<open>auto simp: dom_map_of_conv_image_fst\<close>)

lemma map_of_ID: "mgr_inv m \<Longrightarrow> map_of (m_panes m) k = Some p \<Longrightarrow> p_ID p = k"
  by (blast dest: map_of_SomeD mgr_invD(4))

lemma map_of_order: "mgr_inv m \<Longrightarrow> k \<in> set (m_order m) \<Longrightarrow> \<exists>p. map_of (m_panes m) k = Some p"
  using mgr_invD(3) by (metis map_of_eq_None_iff not_None_eq)

lemma List_IDs: "mgr_inv m \<Longrightarrow> map p_ID (List m) = m_order m"
  by (auto simp: List_map intro!: map_idI) (metis map_of_ID map_of_order option.sel)

lemma List_set: "mgr_inv m \<Longrightarrow> p_ID ` set (List m) = set (m_order m)"
  by (metis List_IDs list.set_map)

lemma List_mset: "mgr_inv m \<Longrightarrow> mset (List m) = mset (map snd (m_panes m))"
proof -
  assume inv: "mgr_inv m"
  let ?f = "\<lambda>k. the (map_of (m_panes m) k)"
  have "mset (m_order m) = mset (map fst (m_panes m))"
    using mgr_invD(1-3) [OF inv] by (metis list.set_map set_eq_iff_mset_eq_distinct)
  then have "mset (List m) = mset (map ?f (map fst (m_panes m)))"
    by (simp only: List_map [OF inv] mset_map)
  also have "map ?f (map fst (m_panes m)) = map snd (m_panes m)"
    using mgr_invD(1) [OF inv] by auto
  finally show ?thesis .
qed

lemma find_unique:
  assumes "mset xs = mset ys" "length (filter P xs) \<le> 1"
  shows "find P xs = find P ys"
proof -
  have "mset (filter P xs) = mset (filter P ys)" using assms(1) by simp
  with assms(2) have "filter P xs = filter P ys"
    by (cases "filter P xs"; cases "filter P ys") (auto dest: arg_cong [where f = size])
  moreover have "find P zs = (case filter P zs of [] \<Rightarrow> None | z # _ \<Rightarrow> Some z)" for zs :: "'a list"
    by (induction zs) auto
  ultimately show ?thesis by metis
qed

lemma GetActive_List:
  assumes "mgr_inv m" "is_map_order ord"
  shows "GetActive ord m = find p_Active (List m)"
proof -
  have "mset (map snd (ord (m_panes m))) = mset (map snd (m_panes m))"
    using assms(2) by (simp add: is_map_order_def)
  also have "\<dots> = mset (List m)" using assms(1) by (simp add: List_mset)
  finally have "mset (List m) = mset (map snd (ord (m_panes m)))" by simp
  moreover have "length (filter p_Active (List m)) \<le> 1"
    using mgr_invD(5) [OF assms(1)] List_mset [OF assms(1)]
    by (metis mset_filter size_mset)
  ultimately show ?thesis
    unfolding GetActive_def by (metis find_unique)
qed

section \<open>Every operation keeps the invariant\<close>

lemma next_id_fresh:
  assumes "mgr_inv m"
  shows "Itoa (sint (m_nextPaneID m)) \<notin> set (m_order m)"
  using mgr_invD(7) [OF assms] by fastforce

lemma nextID_inv: "mgr_inv m \<Longrightarrow> mgr_room m \<Longrightarrow> mgr_inv (snd (nextID m))"
  by (fastforce simp: mgr_inv_def nextID_def mgr_room_def sint_add_one)

lemma AList_update_new: "k \<notin> fst ` set xs \<Longrightarrow> AList.update k v xs = xs @ [(k, v)]"
  by (induction xs) auto

lemma Register_state:
  assumes "mgr_inv m"
  shows "Register tty m =
    (let k = Itoa (sint (m_nextPaneID m)); p = new_pane k tty (m_panes m = [])
     in (Inr p, m\<lparr>m_panes := m_panes m @ [(k, p)], m_nextPaneID := m_nextPaneID m + 1,
                  m_order := m_order m @ [k]\<rparr>))"
  using next_id_fresh [OF assms] mgr_invD(3) [OF assms]
  by (simp add: Register_def nextID_def Let_def AList_update_new)

lemma Register_inv:
  assumes "mgr_inv m" "mgr_room m"
  shows "mgr_inv (snd (Register tty m))"
proof -
  have "sint (m_nextPaneID m + 1) = sint (m_nextPaneID m) + 1"
    using assms(2) by (simp add: mgr_room_def sint_add_one)
  moreover have "filter p_Active (map snd (m_panes m)) = [] \<or> m_panes m \<noteq> []" by auto
  moreover have "Itoa (sint (m_nextPaneID m)) \<notin> fst ` set (m_panes m)"
    using next_id_fresh [OF assms(1)] mgr_invD(3) [OF assms(1)] by simp
  ultimately show ?thesis
    using mgr_invD [OF assms(1)] next_id_fresh [OF assms(1)]
    by (fastforce simp: Register_state [OF assms(1)] Let_def mgr_inv_def new_pane_def)
qed

lemma remove_order_filter: "distinct xs \<Longrightarrow> remove_order k xs = filter (\<lambda>x. x \<noteq> k) xs"
  by (induction xs) (auto intro!: filter_True [symmetric])

lemma delete_filter: "AList.delete k xs = filter (\<lambda>x. fst x \<noteq> k) xs"
  by (auto simp: AList.delete_eq split_beta intro: filter_cong)

lemma Unregister_known:
  assumes "mgr_inv m" "k \<in> set (m_order m)"
  shows "Unregister k m = (None, m\<lparr>m_panes := filter (\<lambda>x. fst x \<noteq> k) (m_panes m),
    m_order := filter (\<lambda>x. x \<noteq> k) (m_order m)\<rparr>)"
proof -
  obtain p where "map_of (m_panes m) k = Some p" using map_of_order [OF assms] by blast
  then show ?thesis
    using mgr_invD(2) [OF assms(1)]
    by (simp add: Unregister_def remove_order_filter delete_filter)
qed

lemma Unregister_unknown:
  assumes "mgr_inv m" "k \<notin> set (m_order m)"
  shows "Unregister k m = (Some (ErrPaneNotFound k), m)"
proof -
  have "map_of (m_panes m) k = None"
    using assms(2) mgr_invD(3) [OF assms(1)] by (simp add: map_of_eq_None_iff)
  then show ?thesis by (simp add: Unregister_def)
qed

lemma filter_active_le:
  "length (filter p_Active (map snd (filter P xs))) \<le> length (filter p_Active (map snd xs))"
  by (induction xs) auto

lemma Unregister_inv:
  assumes "mgr_inv m"
  shows "mgr_inv (snd (Unregister k m))"
proof (cases "k \<in> set (m_order m)")
  case True
  have "length (filter p_Active (map snd (filter (\<lambda>x. fst x \<noteq> k) (m_panes m)))) \<le> 1"
    using filter_active_le mgr_invD(5) [OF assms] by (rule order_trans)
  moreover have "set (filter (\<lambda>x. x \<noteq> k) (m_order m)) = fst ` set (filter (\<lambda>x. fst x \<noteq> k) (m_panes m))"
    using mgr_invD(3) [OF assms] by auto
  ultimately show ?thesis
    using mgr_invD [OF assms]
    by (auto simp: Unregister_known [OF assms True] mgr_inv_def distinct_map_filter)
next
  case False
  then show ?thesis by (simp add: Unregister_unknown assms)
qed

lemma distinct_filter_eq: "distinct (map f xs) \<Longrightarrow> length (filter (\<lambda>x. f x = k) xs) \<le> 1"
  by (induction xs) (auto simp: filter_empty_conv image_iff)

lemma SetActive_loop_fst: "map fst (SetActive_loop k ps) = map fst ps"
  by (induction k ps rule: SetActive_loop.induct) simp_all

lemma SetActive_loop_map_of:
  "map_of (SetActive_loop k ps) j = map_option (\<lambda>p. p\<lparr>p_Active := (p_ID p = k)\<rparr>) (map_of ps j)"
  by (induction k ps rule: SetActive_loop.induct) auto

lemma SetActive_loop_ID:
  "(\<forall>(j, p) \<in> set ps. p_ID p = j) \<Longrightarrow> (\<forall>(j, p) \<in> set (SetActive_loop k ps). p_ID p = j)"
  by (induction k ps rule: SetActive_loop.induct) auto

lemma SetActive_loop_active:
  "(\<forall>(j, p) \<in> set ps. p_ID p = j) \<Longrightarrow>
     length (filter p_Active (map snd (SetActive_loop k ps))) = length (filter (\<lambda>x. fst x = k) ps)"
  by (induction k ps rule: SetActive_loop.induct) auto

lemma SetActive_inv:
  assumes "mgr_inv m"
  shows "mgr_inv (snd (SetActive k m))"
proof -
  let ?ps = "SetActive_loop k (m_panes m)"
  have "fst ` set ?ps = fst ` set (m_panes m)"
    using SetActive_loop_fst [of k "m_panes m"] by (metis list.set_map)
  moreover have "length (filter p_Active (map snd ?ps)) \<le> 1"
    using assms distinct_filter_eq [OF mgr_invD(1) [OF assms]]
    by (subst SetActive_loop_active) (simp_all add: mgr_inv_def)
  moreover have "\<forall>(j, p) \<in> set ?ps. p_ID p = j"
    using assms by (intro SetActive_loop_ID) (simp add: mgr_inv_def)
  ultimately show ?thesis
    using assms by (simp add: SetActive_def mgr_inv_def SetActive_loop_fst split: option.split)
qed

section \<open>The operations over the list of panes\<close>

lemma List_Register:
  assumes "mgr_inv m" "mgr_room m" "Register tty m = (r, m')"
  shows "\<exists>p. r = Inr p \<and> List m' = List m @ [p] \<and> p_TTY p = tty \<and> (p_Active p \<longleftrightarrow> List m = []) \<and>
    p_ID p = Itoa (sint (m_nextPaneID m))"
proof -
  let ?k = "Itoa (sint (m_nextPaneID m))"
  let ?p = "new_pane ?k tty (m_panes m = [])"
  have m': "r = Inr ?p" "m' = snd (Register tty m)"
    using assms(1,3) by (auto simp: Register_state Let_def)
  have "mgr_inv m'" using assms(1,2) m'(2) by (simp add: Register_inv)
  have order: "m_order m' = m_order m @ [?k]" "m_panes m' = m_panes m @ [(?k, ?p)]"
    using assms(1) m'(2) by (simp_all add: Register_state Let_def)
  have "map_of (m_panes m') j = map_of (m_panes m) j" if "j \<in> set (m_order m)" for j
    using that map_of_order [OF assms(1) that] order(2) by (auto simp: map_add_def)
  moreover have "map_of (m_panes m) ?k = None"
    using next_id_fresh [OF assms(1)] mgr_invD(3) [OF assms(1)] by (simp add: map_of_eq_None_iff)
  then have "map_of (m_panes m') ?k = Some ?p"
    using order(2) by (simp add: map_add_def)
  ultimately have "List m' = List m @ [?p]"
    unfolding List_map [OF assms(1)] List_map [OF \<open>mgr_inv m'\<close>] order(1) by simp
  moreover have "List m = [] \<longleftrightarrow> m_panes m = []"
    using List_mset [OF assms(1)] by (metis list.map_disc_iff mset_zero_iff)
  ultimately show ?thesis using m'(1) by (simp add: new_pane_def)
qed

lemma map_of_filter_key: "map_of (filter (\<lambda>x. fst x \<noteq> k) xs) j = (if j = k then None else map_of xs j)"
  by (induction xs) auto

lemma List_Unregister:
  assumes "mgr_inv m" "k \<in> set (m_order m)"
  shows "List (snd (Unregister k m)) = filter (\<lambda>p. p_ID p \<noteq> k) (List m)"
proof -
  let ?m' = "snd (Unregister k m)"
  have inv': "mgr_inv ?m'" by (rule Unregister_inv [OF assms(1)])
  have st: "m_order ?m' = filter (\<lambda>x. x \<noteq> k) (m_order m)"
      "map_of (m_panes ?m') j = (if j = k then None else map_of (m_panes m) j)" for j
    by (auto simp: Unregister_known [OF assms] map_of_filter_key)
  have id: "p_ID (the (map_of (m_panes m) j)) = j" if "j \<in> set (m_order m)" for j
    using map_of_order [OF assms(1) that] map_of_ID [OF assms(1)] by fastforce
  show ?thesis
    unfolding List_map [OF inv'] List_map [OF assms(1)] st(1)
    by (simp add: st(2) filter_map o_def id cong: filter_cong)
qed

lemma Unregister_registered:
  "mgr_inv m \<Longrightarrow> k \<in> p_ID ` set (List m) \<Longrightarrow>
     fst (Unregister k m) = None \<and> List (snd (Unregister k m)) = filter (\<lambda>p. p_ID p \<noteq> k) (List m)"
  using List_Unregister [of m k] by (simp add: List_set Unregister_known)

lemma IndexOf_loop_nth:
  "distinct order \<Longrightarrow> i < length order \<Longrightarrow> IndexOf_loop j (order ! i) order = j + int i"
proof (induction j "order ! i" order arbitrary: i rule: IndexOf_loop.induct)
  case (2 j oid order)
  then show ?case by (cases i) auto
qed simp

lemma IndexOf_loop_absent: "k \<notin> set order \<Longrightarrow> IndexOf_loop j k order = -1"
  by (induction j k order rule: IndexOf_loop.induct) auto

lemma List_nth_ID: "mgr_inv m \<Longrightarrow> i < length (List m) \<Longrightarrow> p_ID (List m ! i) = m_order m ! i"
  by (metis List_IDs nth_map)

lemma List_length: "mgr_inv m \<Longrightarrow> length (List m) = length (m_order m)"
  by (metis List_IDs length_map)

lemma IndexOf_nth: "mgr_inv m \<Longrightarrow> i < length (List m) \<Longrightarrow> IndexOf (p_ID (List m ! i)) m = int i"
  using mgr_invD(2) by (simp add: IndexOf_def List_nth_ID List_length IndexOf_loop_nth)

interpretation panes: pane_registry mgr_inv mgr_room List Register Unregister IndexOf is_map_order GetActive
proof unfold_locales
  fix m p
  assume "mgr_inv m" "p \<in> set (List m)"
  then obtain n where "0 \<le> n" "p_ID p = Itoa n"
    using List_set mgr_invD(7) by (metis imageI)
  then show "list_all is_digit (p_ID p) \<and> p_ID p \<noteq> []" by (simp add: Itoa_digits)
next
  fix m assume inv: "mgr_inv m"
  show "length (filter p_Active (List m)) \<le> 1"
    using mgr_invD(5) [OF inv] List_mset [OF inv] by (metis mset_filter size_mset)
next
  fix m tty r m'
  assume "mgr_inv m" "mgr_room m" "Register tty m = (r, m')"
  from List_Register [OF this] show "\<exists>p. r = Inr p \<and> List m' = List m @ [p] \<and> p_TTY p = tty \<and>
      (p_Active p \<longleftrightarrow> List m = [])" by blast
qed (simp_all add: List_IDs List_set mgr_invD(2) Register_inv Unregister_inv
    Unregister_registered [simplified List_set] Unregister_unknown IndexOf_nth GetActive_List)

section \<open>The counter\<close>

lemma Register_counter: "m_nextPaneID (snd (Register tty m)) = m_nextPaneID m + 1"
  by (simp add: Register_def nextID_def Let_def)

lemma Unregister_counter: "m_nextPaneID (snd (Unregister k m)) = m_nextPaneID m"
  by (simp add: Unregister_def split: option.split)

lemma SetActive_counter: "m_nextPaneID (snd (SetActive k m)) = m_nextPaneID m"
  by (simp add: SetActive_def split: option.split)

text \<open>Two registered panes, the first of them active: the state most witnesses use.\<close>

definition one_pane :: Manager where
  "one_pane = snd (Register ''ttys000'' (NewManager ''panes.json''))"

definition two_panes :: Manager where
  "two_panes = snd (Register ''ttys001'' one_pane)"

lemma Itoa_small [simp]: "Itoa 0 = ''0''" "Itoa 1 = ''1''" "Itoa 2 = ''2''"
  by (simp_all add: Itoa_def nat_digits.simps)

lemma one_pane_eval:
  "one_pane = \<lparr>m_panes = [(''0'', new_pane ''0'' ''ttys000'' True)], m_nextPaneID = 1,
     m_stateFile = ''panes.json'', m_order = [''0'']\<rparr>"
  by (simp add: one_pane_def NewManager_def Register_def nextID_def Let_def)

lemma two_panes_eval:
  "two_panes = \<lparr>m_panes = [(''0'', new_pane ''0'' ''ttys000'' True), (''1'', new_pane ''1'' ''ttys001'' False)],
     m_nextPaneID = 2, m_stateFile = ''panes.json'', m_order = [''0'', ''1'']\<rparr>"
  by (simp add: two_panes_def one_pane_eval Register_def nextID_def Let_def)

lemma two_panes_inv: "mgr_inv two_panes" and two_panes_room: "mgr_room two_panes"
proof -
  have new: "mgr_room (NewManager ''panes.json'')" by (simp add: mgr_room_def NewManager_def)
  have one: "mgr_inv one_pane" unfolding one_pane_def by (rule Register_inv [OF mgr_inv_NewManager new])
  have "mgr_room one_pane" by (simp add: mgr_room_def one_pane_eval)
  note one = one this
  show "mgr_inv two_panes" using Register_inv [OF one] by (simp add: two_panes_def)
  show "mgr_room two_panes" by (simp add: mgr_room_def two_panes_eval)
qed

text \<open>
  C15: Registering appends one pane with a fresh identifier to the list, active exactly when it is
  the first one, and unregistering it again restores the list.
\<close>
theorem Register_spec:
  assumes "mgr_inv m" "mgr_room m"
  shows "\<exists>p m'. Register tty m = (Inr p, m') \<and> List m' = List m @ [p] \<and>
    p_ID p \<notin> p_ID ` set (List m) \<and> p_TTY p = tty \<and> (p_Active p \<longleftrightarrow> List m = []) \<and>
    IndexOf (p_ID p) m' = int (length (List m)) \<and>
    fst (Unregister (p_ID p) m') = None \<and> List (snd (Unregister (p_ID p) m')) = List m"
proof -
  obtain r m' where reg: "Register tty m = (r, m')" by (cases "Register tty m")
  with panes.register_panes [OF assms] obtain p where p: "r = Inr p" "List m' = List m @ [p]"
      "p_TTY p = tty" "p_Active p \<longleftrightarrow> List m = []" by blast
  with reg have reg: "Register tty m = (Inr p, m')" by simp
  show ?thesis
    using p panes.register_fresh [OF assms reg] panes.register_index [OF assms reg]
      panes.register_unregister [OF assms reg] reg by blast
qed

theorem Register_spec_witness:
  "\<exists>p m'. Register ''x'' two_panes = (Inr p, m') \<and> List m' = List two_panes @ [p] \<and> \<not> p_Active p"
  using Register_spec [OF two_panes_inv two_panes_room, of "''x''"]
  by (auto simp: two_panes_eval List_def)

lemma is_map_order_id: "is_map_order (\<lambda>ps. ps)"
  by (simp add: is_map_order_def)

lemma is_map_order_rev: "is_map_order rev"
  by (simp add: is_map_order_def)

text \<open>
  C16: Unregistering a pane takes it, and nothing else, out of everything that can be asked of the manager: out of
  the list and the order, which keep the others as they were, out of the map, so that looking the identifier up is
  an error from then on, and out of the search for the active pane. The counter stays, so its identifier is not
  free again. An unknown identifier is an error that changes nothing.
\<close>
theorem Unregister_spec:
  assumes "mgr_inv m" "is_map_order ord"
  shows "(k \<notin> p_ID ` set (List m) \<longrightarrow> Unregister k m = (Some (ErrPaneNotFound k), m)) \<and>
    (k \<in> p_ID ` set (List m) \<longrightarrow> (\<exists>m'. Unregister k m = (None, m') \<and> mgr_inv m' \<and>
       List m' = filter (\<lambda>p. p_ID p \<noteq> k) (List m) \<and> OrderedList m' = filter (\<lambda>j. j \<noteq> k) (OrderedList m) \<and>
       (\<forall>j. Get j m' = (if j = k then Inl (ErrPaneNotFound k) else Get j m)) \<and> IndexOf k m' = -1 \<and>
       GetActive ord m' = find (\<lambda>p. p_Active p \<and> p_ID p \<noteq> k) (List m) \<and>
       m_nextPaneID m' = m_nextPaneID m \<and> m_stateFile m' = m_stateFile m))"
proof (cases "k \<in> p_ID ` set (List m)")
  case True
  then have k: "k \<in> set (m_order m)" by (simp add: List_set assms(1))
  let ?m' = "snd (Unregister k m)"
  have inv': "mgr_inv ?m'" by (rule Unregister_inv [OF assms(1)])
  have panes: "List ?m' = filter (\<lambda>p. p_ID p \<noteq> k) (List m)" by (rule List_Unregister [OF assms(1) k])
  have "find P (filter Q xs) = find (\<lambda>x. P x \<and> Q x) xs" for P Q :: "Pane \<Rightarrow> bool" and xs
    by (induction xs) auto
  then have "GetActive ord ?m' = find (\<lambda>p. p_Active p \<and> p_ID p \<noteq> k) (List m)"
    by (simp add: GetActive_List [OF inv' assms(2)] panes)
  then show ?thesis
    using True inv' panes
    by (simp add: Unregister_known [OF assms(1) k] OrderedList_def Get_def IndexOf_def IndexOf_loop_absent map_of_filter_key)
next
  case False
  with panes.unregister_unknown [OF assms(1) False] show ?thesis by simp
qed

theorem Unregister_spec_witness:
  "Unregister ''7'' two_panes = (Some (ErrPaneNotFound ''7''), two_panes) \<and>
   Get ''0'' (snd (Unregister ''0'' two_panes)) = Inl (ErrPaneNotFound ''0'') \<and>
   map p_ID (List (snd (Unregister ''0'' two_panes))) = [''1'']"
proof -
  have ids: "p_ID ` set (List two_panes) = {''0'', ''1''}" "map p_ID (List two_panes) = [''0'', ''1'']"
    by (auto simp: two_panes_eval List_def new_pane_def)
  note spec = Unregister_spec [OF two_panes_inv is_map_order_rev]
  have "''0'' \<in> p_ID ` set (List two_panes)" "''7'' \<notin> p_ID ` set (List two_panes)" by (simp_all add: ids(1))
  note known = spec [THEN conjunct2, rule_format, OF this(1)] and unknown = spec [THEN conjunct1, rule_format, OF this(2)]
  from known obtain m' where m': "Unregister ''0'' two_panes = (None, m')"
      "List m' = filter (\<lambda>p. p_ID p \<noteq> ''0'') (List two_panes)" "Get ''0'' m' = Inl (ErrPaneNotFound ''0'')"
    by (elim exE conjE) simp
  have "map p_ID (List m') = [''1'']" by (simp add: m'(2)) (simp add: two_panes_eval List_def new_pane_def)
  with m' unknown show ?thesis by simp
qed

lemma map_option_the: "\<exists>y. x = Some y \<Longrightarrow> the (map_option f x) = f (the x)"
  by auto

text \<open>
  C17: \<open>SetActive\<close> on a registered pane makes it the active one and the only one, whatever order the
  map is visited in, and changes nothing but the \<open>Active\<close> fields: every pane keeps its place and its other fields,
  and the order, the counter and the state file stay. On an unknown pane it is an error that changes nothing.
\<close>
theorem SetActive_spec:
  assumes "mgr_inv m" "is_map_order ord"
  shows "(k \<notin> p_ID ` set (List m) \<longrightarrow> SetActive k m = (Some (ErrPaneNotFound k), m)) \<and>
    (k \<in> p_ID ` set (List m) \<longrightarrow> (\<exists>m'. SetActive k m = (None, m') \<and> mgr_inv m' \<and>
       List m' = map (\<lambda>p. p\<lparr>p_Active := (p_ID p = k)\<rparr>) (List m) \<and>
       map_option p_ID (GetActive ord m') = Some k \<and>
       (\<forall>j. Get j m' = map_sum id (\<lambda>p. p\<lparr>p_Active := (j = k)\<rparr>) (Get j m)) \<and>
       OrderedList m' = OrderedList m \<and> m_nextPaneID m' = m_nextPaneID m \<and> m_stateFile m' = m_stateFile m))"
proof (cases "k \<in> p_ID ` set (List m)")
  case True
  then have k: "k \<in> set (m_order m)" by (simp add: List_set assms(1))
  let ?m' = "snd (SetActive k m)"
  have st: "SetActive k m = (None, m\<lparr>m_panes := SetActive_loop k (m_panes m)\<rparr>)"
    using map_of_order [OF assms(1) k] by (auto simp: SetActive_def)
  have inv': "mgr_inv ?m'" by (rule SetActive_inv [OF assms(1)])
  have panes: "List ?m' = map (\<lambda>p. p\<lparr>p_Active := (p_ID p = k)\<rparr>) (List m)"
    unfolding List_map [OF inv'] List_map [OF assms(1)]
    by (simp add: st SetActive_loop_map_of map_option_the [OF map_of_order [OF assms(1)]])
  with True have "\<exists>p \<in> set (List ?m'). p_Active p \<and> p_ID p = k" by auto
  then have "map_option p_ID (GetActive ord ?m') = Some k"
    using panes.active_unique [OF inv' assms(2)] by fastforce
  moreover have "Get j ?m' = map_sum id (\<lambda>p. p\<lparr>p_Active := (j = k)\<rparr>) (Get j m)" for j
    using map_of_ID [OF assms(1), of j] by (simp add: st Get_def SetActive_loop_map_of split: option.split)
  ultimately show ?thesis using True st inv' panes by (simp add: OrderedList_def)
next
  case False
  then have "map_of (m_panes m) k = None"
    using mgr_invD(3) [OF assms(1)] by (simp add: List_set assms(1) map_of_eq_None_iff)
  with False show ?thesis by (simp add: SetActive_def)
qed

theorem SetActive_spec_witness:
  "map_option p_ID (GetActive rev (snd (SetActive ''1'' two_panes))) = Some ''1'' \<and>
   m_nextPaneID (snd (SetActive ''1'' two_panes)) = 2"
proof -
  have "''1'' \<in> p_ID ` set (List two_panes)" by (auto simp: two_panes_eval List_def new_pane_def)
  from SetActive_spec [OF two_panes_inv is_map_order_rev, THEN conjunct2, rule_format, OF this] obtain m' where
      "SetActive ''1'' two_panes = (None, m')" "map_option p_ID (GetActive rev m') = Some ''1''"
      "m_nextPaneID m' = m_nextPaneID two_panes" by (elim exE conjE)
  then show ?thesis by (simp add: two_panes_eval)
qed

text \<open>
  Which order Go visits the map in cannot be observed through \<open>GetActive\<close>: under the invariant
  all orders give the same pane, the first active one of the list.
\<close>
theorem GetActive_order_independent:
  assumes "mgr_inv m" "is_map_order ord1" "is_map_order ord2"
  shows "GetActive ord1 m = GetActive ord2 m \<and> GetActive ord1 m = find p_Active (List m)"
  using assms by (simp add: GetActive_List)

theorem GetActive_order_independent_witness:
  "GetActive rev two_panes = GetActive (\<lambda>ps. ps) two_panes"
  by (rule GetActive_order_independent [OF two_panes_inv is_map_order_rev is_map_order_id, THEN conjunct1])

text \<open>
  Unregistering the active pane leaves the manager without an active pane, however many panes
  remain: no other pane takes its place until \<open>SetActive\<close> is called.
\<close>
theorem Unregister_active:
  assumes "mgr_inv m" "is_map_order ord" "GetActive ord m = Some p"
  shows "GetActive ord (snd (Unregister (p_ID p) m)) = None"
  using assms by (rule panes.unregister_active)

theorem Unregister_active_witness:
  "GetActive rev (snd (Unregister ''0'' two_panes)) = None \<and>
   List (snd (Unregister ''0'' two_panes)) \<noteq> []"
  using Unregister_active [OF two_panes_inv is_map_order_rev, of "new_pane ''0'' ''ttys000'' True"]
  by (simp add: two_panes_eval GetActive_def new_pane_def Unregister_def List_def AList.delete_eq)

end
