(* ===== verification/Ghostty.thy ===== *)
theory Ghostty
  imports Prelude
begin

text \<open>
  The terminal side: the \<open>Controller\<close> interface of \<open>internal/ghostty/controller.go\<close>, its implementation by
  simulated key strokes (\<open>internal/ghostty/keysim/keysim.go\<close>) and the detection of the environment
  (\<open>internal/ghostty/detect.go\<close>). A controller acts on a world of type \<open>'w\<close>, which belongs to the terminal; the
  program that runs a script, \<open>osascript\<close>, is a parameter.
\<close>

section \<open>Controller\<close>

datatype SplitDirection = SplitDown | SplitRight | SplitLeft | SplitUp

datatype GotoDirection = GotoNext | GotoPrevious

text \<open>The values of the \<open>iota\<close> constants, which \<open>%d\<close> prints.\<close>

primrec split_code :: "SplitDirection \<Rightarrow> int" where
  "split_code SplitDown = 0"
| "split_code SplitRight = 1"
| "split_code SplitLeft = 2"
| "split_code SplitUp = 3"

type_synonym 'w action_of = "'w \<Rightarrow> go_error option \<times> 'w"

record 'w Controller =
  NewWindow :: "'w action_of"
  NewTab :: "'w action_of"
  NewSplit :: "SplitDirection \<Rightarrow> 'w action_of"
  GotoSplit :: "GotoDirection \<Rightarrow> 'w action_of"
  CloseSurface :: "'w action_of"

section \<open>Key strokes through System Events\<close>

record keystroke =
  ks_key :: string
  ks_modifiers :: string

definition keyNewWindow :: keystroke where
  "keyNewWindow = \<lparr>ks_key = ''n'', ks_modifiers = ''{command down}''\<rparr>"

definition keyNewTab :: keystroke where
  "keyNewTab = \<lparr>ks_key = ''t'', ks_modifiers = ''{command down}''\<rparr>"

definition keyClose :: keystroke where
  "keyClose = \<lparr>ks_key = ''w'', ks_modifiers = ''{command down}''\<rparr>"

definition keySplit :: "(SplitDirection \<times> keystroke) list" where
  "keySplit =
    [(SplitRight, \<lparr>ks_key = ''d'', ks_modifiers = ''{command down}''\<rparr>),
     (SplitDown, \<lparr>ks_key = ''D'', ks_modifiers = ''{command down, shift down}''\<rparr>)]"

definition keyGoto :: "(GotoDirection \<times> keystroke) list" where
  "keyGoto =
    [(GotoNext, \<lparr>ks_key = '']'', ks_modifiers = ''{command down}''\<rparr>),
     (GotoPrevious, \<lparr>ks_key = ''['', ks_modifiers = ''{command down}''\<rparr>)]"

definition dq :: string where
  "dq = [CHR 0x22]"

definition buildScript :: "keystroke \<Rightarrow> string" where
  "buildScript ks =
     ''tell application '' @ dq @ ''System Events'' @ dq @ '' to tell process '' @ dq @ ''ghostty'' @ dq @
     '' to keystroke '' @ dq @ ks_key ks @ dq @ '' using '' @ ks_modifiers ks"

type_synonym 'w executor = "string \<Rightarrow> 'w action_of"

primrec goto_code :: "GotoDirection \<Rightarrow> int" where
  "goto_code GotoNext = 0"
| "goto_code GotoPrevious = 1"

definition keysim_NewSplit :: "'w executor \<Rightarrow> SplitDirection \<Rightarrow> 'w action_of" where
  "keysim_NewSplit execScript direction w =
     (case map_of keySplit direction of
        None \<Rightarrow> (Some (Errorf (''unsupported split direction: '' @ Itoa (split_code direction))), w)
      | Some ks \<Rightarrow> execScript (buildScript ks) w)"

definition keysim_GotoSplit :: "'w executor \<Rightarrow> GotoDirection \<Rightarrow> 'w action_of" where
  "keysim_GotoSplit execScript direction w =
     (case map_of keyGoto direction of
        None \<Rightarrow> (Some (Errorf (''unsupported goto direction: '' @ Itoa (goto_code direction))), w)
      | Some ks \<Rightarrow> execScript (buildScript ks) w)"

definition NewWithExecutor :: "'w executor \<Rightarrow> 'w Controller" where
  "NewWithExecutor execScript =
     \<lparr>NewWindow = execScript (buildScript keyNewWindow),
      NewTab = execScript (buildScript keyNewTab),
      NewSplit = keysim_NewSplit execScript,
      GotoSplit = keysim_GotoSplit execScript,
      CloseSurface = execScript (buildScript keyClose)\<rparr>"

text \<open>\<open>osascript -e <script>\<close>: an error with the combined output, or nothing.\<close>

definition defaultExecScript ::
    "(string \<Rightarrow> 'w \<Rightarrow> (go_error option \<times> string) \<times> 'w) \<Rightarrow> 'w executor" where
  "defaultExecScript osascript script w =
     (case osascript script w of
        ((None, output), w') \<Rightarrow> (None, w')
      | ((Some err, output), w') \<Rightarrow> (Some (Wrapf ''osascript failed: '' err ('': '' @ output)), w'))"

definition keysim_New :: "(string \<Rightarrow> 'w \<Rightarrow> (go_error option \<times> string) \<times> 'w) \<Rightarrow> 'w Controller" where
  "keysim_New osascript = NewWithExecutor (defaultExecScript osascript)"

section \<open>Environment\<close>

text \<open>The process environment; an unset variable reads as the empty string.\<close>

type_synonym environ = "string \<Rightarrow> string"

definition IsInsideGhostty :: "environ \<Rightarrow> bool" where
  "IsInsideGhostty env \<longleftrightarrow> env ''TERM_PROGRAM'' = ''ghostty'' \<or> env ''GHOSTTY_RESOURCES_DIR'' \<noteq> ''''"

definition GhosttyVersion :: "environ \<Rightarrow> string" where
  "GhosttyVersion env = (if \<not> IsInsideGhostty env then '''' else env ''TERM_PROGRAM_VERSION'')"

definition IsNestedTerminal :: "environ \<Rightarrow> bool" where
  "IsNestedTerminal env \<longleftrightarrow> env ''TMUX'' \<noteq> ''''"

record EnvironmentInfo =
  InsideGhostty :: bool
  ei_GhosttyVersion :: string
  NestedTerminal :: bool
  ei_OS :: string
  ei_Arch :: string
  ShimuxSession :: string
  ShimuxActive :: bool
  ResourcesDir :: string

text \<open>The operating system and the architecture are constants of the build.\<close>

definition DetectEnvironment :: "string \<Rightarrow> string \<Rightarrow> environ \<Rightarrow> EnvironmentInfo" where
  "DetectEnvironment goos goarch env =
     \<lparr>InsideGhostty = IsInsideGhostty env, ei_GhosttyVersion = GhosttyVersion env,
      NestedTerminal = IsNestedTerminal env, ei_OS = goos, ei_Arch = goarch,
      ShimuxSession = env ''SHIMUX_SESSION'', ShimuxActive = (env ''SHIMUX'' = ''1''),
      ResourcesDir = env ''GHOSTTY_RESOURCES_DIR''\<rparr>"

section \<open>The interface the commands use\<close>

text \<open>
  What a command may assume of a controller: a direction it does not support is an error that does not
  touch the terminal, and every other call runs exactly one script of a fixed set.
\<close>

locale controller =
  fixes supported :: "SplitDirection \<Rightarrow> bool"
    and scripts :: "string set"
    and history :: "'w \<Rightarrow> string list"
    and ctl :: "'w Controller"
  assumes split_unsupported: "\<not> supported d \<Longrightarrow> \<exists>e. NewSplit ctl d w = (Some e, w)"
    and split_supported: "supported d \<Longrightarrow>
      \<exists>s \<in> scripts. history (snd (NewSplit ctl d w)) = history w @ [s]"
    and close_script: "\<exists>s \<in> scripts. history (snd (CloseSurface ctl w)) = history w @ [s]"
begin

lemma split_history:
  "\<exists>ss. history (snd (NewSplit ctl d w)) = history w @ ss \<and> set ss \<subseteq> scripts \<and> length ss \<le> 1"
proof (cases "supported d")
  case True
  from split_supported [OF this, of w] show ?thesis by force
next
  case False
  from split_unsupported [OF this, of w] show ?thesis by force
qed

lemma close_history:
  "\<exists>ss. history (snd (CloseSurface ctl w)) = history w @ ss \<and> set ss \<subseteq> scripts \<and> length ss = 1"
  using close_script [of w] by force

end

text \<open>
  The key-stroke controller over an executor that records what it runs, whatever the executor answers.
\<close>

definition recording :: "(string list \<Rightarrow> go_error option) \<Rightarrow> string list executor" where
  "recording answer script log = (answer (log @ [script]), log @ [script])"

definition keysim_scripts :: "string list" where
  "keysim_scripts =
     map buildScript ([keyNewWindow, keyNewTab, keyClose] @ map snd keySplit @ map snd keyGoto)"

definition keysim_supported :: "SplitDirection \<Rightarrow> bool" where
  "keysim_supported d \<longleftrightarrow> d = SplitRight \<or> d = SplitDown"

lemma keySplit_lookup:
  "keysim_supported d \<Longrightarrow> \<exists>ks. map_of keySplit d = Some ks \<and> buildScript ks \<in> set keysim_scripts"
  "\<not> keysim_supported d \<Longrightarrow> map_of keySplit d = None"
  by (cases d; auto simp: keySplit_def keysim_supported_def keysim_scripts_def)+

lemma keyGoto_lookup:
  "\<exists>ks. map_of keyGoto d = Some ks \<and> buildScript ks \<in> set keysim_scripts"
  by (cases d) (auto simp: keyGoto_def keysim_scripts_def)

interpretation keysim: controller keysim_supported "set keysim_scripts" "\<lambda>log. log"
    "NewWithExecutor (recording answer)" for answer
proof unfold_locales
  fix d and w :: "string list"
  assume "\<not> keysim_supported d"
  then show "\<exists>e. NewSplit (NewWithExecutor (recording answer)) d w = (Some e, w)"
    by (simp add: NewWithExecutor_def keysim_NewSplit_def keySplit_lookup)
next
  fix d and w :: "string list"
  assume "keysim_supported d"
  from keySplit_lookup(1) [OF this] show "\<exists>s \<in> set keysim_scripts.
      snd (NewSplit (NewWithExecutor (recording answer)) d w) = w @ [s]"
    by (auto simp: NewWithExecutor_def keysim_NewSplit_def recording_def)
next
  fix w
  show "\<exists>s \<in> set keysim_scripts. snd (CloseSurface (NewWithExecutor (recording answer)) w) = w @ [s]"
    by (auto simp: NewWithExecutor_def recording_def keysim_scripts_def)
qed

end
