(* ===== verification/Path.thy ===== *)
theory Path
  imports Prelude
begin

text \<open>
  The functions of \<open>path/filepath\<close> the program uses, on Unix: \<open>Clean\<close>, \<open>Join\<close>, \<open>Dir\<close> and \<open>Base\<close>, by their
  documented rules (drop empty and \<open>.\<close> elements, let \<open>..\<close> remove the element before it, drop \<open>..\<close> at
  the root). Paths made of proper elements are shown to be left alone.
\<close>

fun split_slash :: "string \<Rightarrow> string list" where
  "split_slash [] = [[]]"
| "split_slash (c # s) =
     (if c = CHR ''/'' then [] # split_slash s
      else case split_slash s of [] \<Rightarrow> [[c]] | e # es \<Rightarrow> (c # e) # es)"

fun join_slash :: "string list \<Rightarrow> string" where
  "join_slash [] = []"
| "join_slash [e] = e"
| "join_slash (e # es) = e @ CHR ''/'' # join_slash es"

definition clean_elem :: "bool \<Rightarrow> string \<Rightarrow> string list \<Rightarrow> string list" where
  "clean_elem rooted e st =
     (if e = '''' \<or> e = ''.'' then st
      else if e = ''..'' then
        (case st of
           [] \<Rightarrow> if rooted then [] else [e]
         | e0 # st' \<Rightarrow> if e0 = ''..'' then e # st else st')
      else e # st)"

definition rooted :: "string \<Rightarrow> bool" where
  "rooted p \<longleftrightarrow> prefix ''/'' p"

definition Clean :: "string \<Rightarrow> string" where
  "Clean p =
     (let body = join_slash (rev (fold (clean_elem (rooted p)) (split_slash p) []))
      in if rooted p then CHR ''/'' # body else if body = '''' then ''.'' else body)"

fun Join :: "string list \<Rightarrow> string" where
  "Join [] = ''''"
| "Join (e # es) = (if e = '''' then Join es else Clean (join_slash (e # es)))"

definition Dir :: "string \<Rightarrow> string" where
  "Dir p = Clean (rev (dropWhile (\<lambda>c. c \<noteq> CHR ''/'') (rev p)))"

definition Base :: "string \<Rightarrow> string" where
  "Base p =
     (if p = '''' then ''.''
      else let q = rev (dropWhile (\<lambda>c. c = CHR ''/'') (rev p))
           in if q = '''' then ''/'' else rev (takeWhile (\<lambda>c. c \<noteq> CHR ''/'') (rev q)))"

section \<open>Proper elements\<close>

definition proper_elem :: "string \<Rightarrow> bool" where
  "proper_elem e \<longleftrightarrow> e \<noteq> '''' \<and> e \<noteq> ''.'' \<and> e \<noteq> ''..'' \<and> CHR ''/'' \<notin> set e"

text \<open>A cleaned absolute path that is not the root: \<open>/e1/\<dots>/en\<close>.\<close>

definition abs_path :: "string list \<Rightarrow> string" where
  "abs_path es = concat (map (\<lambda>e. CHR ''/'' # e) es)"

lemma abs_path_simps [simp]:
  "abs_path [] = ''''" "abs_path (e # es) = CHR ''/'' # e @ abs_path es"
  "abs_path (es @ fs) = abs_path es @ abs_path fs"
  by (simp_all add: abs_path_def)

lemma join_slash_abs_path: "es \<noteq> [] \<Longrightarrow> abs_path es = CHR ''/'' # join_slash es"
  by (induction es rule: join_slash.induct) simp_all

lemma split_slash_not_Nil [simp]: "split_slash s \<noteq> []"
  by (cases s) (auto split: list.splits)

lemma split_slash_elem: "CHR ''/'' \<notin> set e \<Longrightarrow> split_slash e = [e]"
  by (induction e) auto

lemma split_slash_append:
  "CHR ''/'' \<notin> set e \<Longrightarrow> split_slash (e @ CHR ''/'' # s) = e # split_slash s"
  by (induction e) auto

lemma split_slash_join:
  "list_all (\<lambda>e. CHR ''/'' \<notin> set e) es \<Longrightarrow> es \<noteq> [] \<Longrightarrow> split_slash (join_slash es) = es"
  by (induction es rule: join_slash.induct) (simp_all add: split_slash_elem split_slash_append)

lemma fold_clean_proper:
  "list_all proper_elem es \<Longrightarrow> fold (clean_elem r) es st = rev es @ st"
  by (induction es arbitrary: st) (auto simp: clean_elem_def proper_elem_def)

lemma split_slash_abs_path:
  "list_all (\<lambda>e. CHR ''/'' \<notin> set e) es \<Longrightarrow> split_slash (abs_path es) = [] # es"
  by (cases "es = []") (simp_all add: join_slash_abs_path split_slash_join)

lemma Clean_abs_path:
  assumes "list_all proper_elem es" "es \<noteq> []"
  shows "Clean (abs_path es) = abs_path es"
proof -
  have "list_all (\<lambda>e. CHR ''/'' \<notin> set e) es"
    using assms(1) by (simp add: list_all_iff proper_elem_def)
  then have "split_slash (abs_path es) = [] # es" by (rule split_slash_abs_path)
  moreover have "fold (clean_elem True) es (clean_elem True [] []) = rev es"
    using assms(1) by (simp add: clean_elem_def fold_clean_proper)
  ultimately show ?thesis
    using assms(2) by (simp add: Clean_def rooted_def join_slash_abs_path)
qed

lemma join_slash_append:
  "es \<noteq> [] \<Longrightarrow> fs \<noteq> [] \<Longrightarrow> join_slash (es @ fs) = join_slash es @ CHR ''/'' # join_slash fs"
  by (induction es rule: join_slash.induct) (auto simp: neq_Nil_conv)

lemma Join_abs_path:
  assumes "list_all proper_elem (ts @ fs)" "ts \<noteq> []"
  shows "Join (abs_path ts # fs) = abs_path (ts @ fs)"
proof -
  have "join_slash (abs_path ts # fs) = abs_path (ts @ fs)"
    using join_slash_abs_path [of fs] by (cases fs) simp_all
  moreover have "abs_path ts \<noteq> ''''" using assms(2) by (cases ts) auto
  ultimately show ?thesis
    using Clean_abs_path [of "ts @ fs"] assms by simp
qed

lemma Dir_abs_path:
  assumes "list_all proper_elem (ts @ [e])" "ts \<noteq> []"
  shows "Dir (abs_path (ts @ [e])) = abs_path ts"
proof -
  have "rev (dropWhile (\<lambda>c. c \<noteq> CHR ''/'') (rev (abs_path (ts @ [e])))) = abs_path ts @ ''/''"
  proof -
    have "CHR ''/'' \<notin> set e" using assms(1) by (simp add: proper_elem_def)
    then have "dropWhile (\<lambda>c. c \<noteq> CHR ''/'') (rev e @ CHR ''/'' # rev (abs_path ts))
               = CHR ''/'' # rev (abs_path ts)"
      by (subst dropWhile_append2) auto
    then show ?thesis by simp
  qed
  moreover have "Clean (abs_path ts @ ''/'') = abs_path ts"
  proof -
    have no: "list_all (\<lambda>e. CHR ''/'' \<notin> set e) (ts @ [[]])"
      using assms(1) by (simp add: list_all_iff proper_elem_def)
    then have "split_slash (abs_path ts @ ''/'') = [] # ts @ [[]]"
      using split_slash_abs_path [of "ts @ [[]]"] by simp
    moreover have "fold (clean_elem True) (ts @ [[]]) (clean_elem True [] []) = rev ts"
      using assms(1) by (simp add: clean_elem_def fold_clean_proper)
    moreover have "rooted (abs_path ts @ ''/'')"
      using assms(2) by (cases ts) (simp_all add: rooted_def)
    ultimately show ?thesis
      using assms(2) by (simp add: Clean_def join_slash_abs_path)
  qed
  ultimately show ?thesis by (simp add: Dir_def)
qed

section \<open>Joining under a directory that need not be clean\<close>

text \<open>
  \<open>plain_dir d es\<close>: \<open>d\<close> is absolute and has no \<open>..\<close>; its elements are \<open>es\<close>. Extra slashes, such as the one
  macOS puts at the end of \<open>$TMPDIR\<close>, and \<open>.\<close> elements are allowed.
\<close>

definition plain_dir :: "string \<Rightarrow> string list \<Rightarrow> bool" where
  "plain_dir d es \<longleftrightarrow>
     rooted d \<and> list_all (\<lambda>e. e \<noteq> ''..'') (split_slash d) \<and>
     es = filter (\<lambda>e. e \<noteq> '''' \<and> e \<noteq> ''.'') (split_slash d)"

lemma split_slash_no_slash: "e \<in> set (split_slash s) \<Longrightarrow> CHR ''/'' \<notin> set e"
proof (induction s arbitrary: e)
  case (Cons c s)
  then show ?case by (cases "split_slash s") (auto split: if_splits)
qed simp

lemma split_slash_concat: "split_slash (a @ CHR ''/'' # b) = split_slash a @ split_slash b"
proof (induction a)
  case (Cons c a)
  then show ?case by (cases "split_slash a") auto
qed simp

lemma fold_clean_plain:
  "list_all (\<lambda>e. e \<noteq> ''..'') es \<Longrightarrow>
     fold (clean_elem r) es st = rev (filter (\<lambda>e. e \<noteq> '''' \<and> e \<noteq> ''.'') es) @ st"
  by (induction es arbitrary: st) (auto simp: clean_elem_def)

lemma plain_dir_proper: "plain_dir d es \<Longrightarrow> list_all proper_elem es"
  by (auto simp: plain_dir_def list_all_iff proper_elem_def dest: split_slash_no_slash)

lemma plain_dir_abs_path:
  assumes "list_all proper_elem es" "es \<noteq> []"
  shows "plain_dir (abs_path es) es"
proof -
  have "list_all (\<lambda>e. CHR ''/'' \<notin> set e) es" using assms(1) by (simp add: list_all_iff proper_elem_def)
  then have "split_slash (abs_path es) = [] # es" by (rule split_slash_abs_path)
  moreover have "filter (\<lambda>e. e \<noteq> '''' \<and> e \<noteq> ''.'') es = es"
    using assms(1) by (induction es) (simp_all add: proper_elem_def)
  moreover have "rooted (abs_path es)" using assms(2) by (cases es) (simp_all add: rooted_def)
  ultimately show ?thesis
    using assms(1) by (simp add: plain_dir_def list_all_iff proper_elem_def)
qed

lemma Join_plain_dir:
  assumes "plain_dir d es" "list_all proper_elem fs" "fs \<noteq> []"
  shows "Join (d # fs) = abs_path (es @ fs)"
proof -
  have d: "d \<noteq> ''''" "rooted d" "list_all (\<lambda>e. e \<noteq> ''..'') (split_slash d)"
      "es = filter (\<lambda>e. e \<noteq> '''' \<and> e \<noteq> ''.'') (split_slash d)"
    using assms(1) by (auto simp: plain_dir_def rooted_def)
  have fs: "list_all (\<lambda>e. CHR ''/'' \<notin> set e) fs" using assms(2) by (simp add: list_all_iff proper_elem_def)
  have j: "join_slash (d # fs) = d @ CHR ''/'' # join_slash fs" using assms(3) by (cases fs) simp_all
  then have "split_slash (join_slash (d # fs)) = split_slash d @ fs"
    using fs assms(3) by (simp add: split_slash_concat split_slash_join)
  moreover have "rooted (join_slash (d # fs))" using d(1,2) j by (cases d) (auto simp: rooted_def)
  ultimately have "Clean (join_slash (d # fs)) = CHR ''/'' # join_slash (es @ fs)"
    using d(3,4) assms(2) by (simp add: Clean_def fold_clean_plain fold_clean_proper)
  then show ?thesis using d(1) assms(3) join_slash_abs_path [of "es @ fs"] by simp
qed

lemma abs_path_inject:
  assumes "list_all proper_elem es" "list_all proper_elem fs"
  shows "abs_path es = abs_path fs \<longleftrightarrow> es = fs"
proof
  have no: "list_all (\<lambda>e. CHR ''/'' \<notin> set e) gs" if "list_all proper_elem gs" for gs
    using that by (simp add: list_all_iff proper_elem_def)
  assume "abs_path es = abs_path fs"
  then have "split_slash (abs_path es) = split_slash (abs_path fs)" by simp
  then show "es = fs" using assms by (simp add: split_slash_abs_path no)
qed simp

lemma length_abs_path: "length (abs_path es) = length es + sum_list (map length es)"
  by (induction es) simp_all

end
