(* ===== verification/Json.thy ===== *)
theory Json
  imports Utf8
begin

text \<open>
  The part of \<open>encoding/json\<close> the program uses. Decoding is the scanner of the package, a pushdown automaton
  that reads one byte at a time, here with the values it has built on its stack; encoding is the string
  escaping of \<open>Marshal\<close>. Escaping and unquoting are shown to be inverse up to the replacement of invalid
  UTF-8, which both directions do.
\<close>

section \<open>Values\<close>

datatype json =
    JNull
  | JBool bool
  | JNumber string
  | JString string
  | JArray "json list"
  | JObject "(string \<times> json) list"

section \<open>Unquoting a string literal\<close>

definition hex_value :: "char \<Rightarrow> nat option" where
  "hex_value c =
     (let n = of_char c in
      if 48 \<le> n \<and> n \<le> 57 then Some (n - 48)
      else if 97 \<le> n \<and> n \<le> 102 then Some (n - 87)
      else if 65 \<le> n \<and> n \<le> 70 then Some (n - 55)
      else None)"

text \<open>\<open>getu4\<close>: the code point of an escape \<open>\uXXXX\<close> at the start of the text.\<close>

definition hex4 :: "string \<Rightarrow> nat option" where
  "hex4 s =
     (case map hex_value s of
        [Some a, Some b, Some c, Some d] \<Rightarrow> Some (a * 4096 + b * 256 + c * 16 + d)
      | _ \<Rightarrow> None)"

definition getu4 :: "string \<Rightarrow> nat option" where
  "getu4 s = (if take 2 s = [CHR 0x5C, CHR ''u''] then hex4 (take 4 (drop 2 s)) else None)"

definition is_surrogate :: "nat \<Rightarrow> bool" where
  "is_surrogate r \<longleftrightarrow> 55296 \<le> r \<and> r < 57344"

text \<open>\<open>utf16.DecodeRune\<close>, \<open>None\<close> for its replacement character.\<close>

definition utf16_pair :: "nat \<Rightarrow> nat \<Rightarrow> nat option" where
  "utf16_pair r1 r2 =
     (if 55296 \<le> r1 \<and> r1 < 56320 \<and> 56320 \<le> r2 \<and> r2 < 57344
      then Some ((r1 - 55296) * 1024 + (r2 - 56320) + 65536) else None)"

definition unescape :: "char \<Rightarrow> char" where
  "unescape c =
     (if c = CHR ''b'' then CHR 0x08 else if c = CHR ''f'' then CHR 0x0C
      else if c = CHR ''n'' then CHR 0x0A else if c = CHR ''r'' then CHR 0x0D
      else if c = CHR ''t'' then CHR 0x09 else c)"

text \<open>The runes one escape \<open>\u\<close> stands for, and how many bytes it takes.\<close>

definition unquote_u :: "string \<Rightarrow> nat \<times> nat" where
  "unquote_u s =
     (case getu4 s of
        None \<Rightarrow> (RuneError, 6)
      | Some rr \<Rightarrow>
          if is_surrogate rr then
            (case getu4 (drop 6 s) of
               None \<Rightarrow> (RuneError, 6)
             | Some rr1 \<Rightarrow> (case utf16_pair rr rr1 of Some r \<Rightarrow> (r, 12) | None \<Rightarrow> (RuneError, 6)))
          else (rr, 6))"

lemma unquote_u_width: "6 \<le> snd (unquote_u s)"
  by (auto simp: unquote_u_def split: option.splits)

function unquote :: "string \<Rightarrow> string" where
  "unquote s =
     (case s of
        [] \<Rightarrow> []
      | c # s1 \<Rightarrow>
          if c = CHR 0x5C then
            (case s1 of
               [] \<Rightarrow> []
             | e # s2 \<Rightarrow>
                 if e = CHR ''u'' then
                   (let (r, w) = unquote_u s in encode_rune r @ unquote (drop w s))
                 else unescape e # unquote s2)
          else if of_char c < (128 :: nat) then c # unquote s1
          else (let (r, w) = decode_rune s in encode_rune r @ unquote (drop w s)))"
  by pat_completeness auto
termination
proof (relation "measure length")
  fix s c s1 e s2 x r w
  assume "s = c # s1" "s1 = e # s2" "x = unquote_u s" "(r, w) = x"
  with unquote_u_width [of s] show "(drop w s, s) \<in> measure length"
    by (auto dest: arg_cong [where f = snd])
next
  fix s c s1 x r w
  assume "s = c # s1" "x = decode_rune s" "(r, w) = x"
  with decode_rune_width [of s] show "(drop w s, s) \<in> measure length"
    by (auto dest: arg_cong [where f = snd])
qed auto

declare unquote.simps [simp del]

section \<open>The scanner\<close>

datatype num_state = NNeg | NZero | NInt | NDot | NFrac | NExp | NExpSign | NExpInt

datatype frame =
    FArray "json list"
  | FKey "(string \<times> json) list"
  | FColon string "(string \<times> json) list"
  | FValue string "(string \<times> json) list"
  | FPair "(string \<times> json) list"

datatype jstate =
    BeginValue
  | BeginValueOrEmpty
  | BeginStringOrEmpty
  | BeginString
  | EndValue
  | InString string
  | InEsc string
  | InEscU nat string
  | InNumber num_state string
  | InLiteral string string json
  | AtTop json string

type_synonym config = "frame list \<times> jstate"

definition maxNestingDepth :: int where
  "maxNestingDepth = 10000"

definition is_space :: "char \<Rightarrow> bool" where
  "is_space c \<longleftrightarrow> c = CHR '' '' \<or> c = CHR 0x09 \<or> c = CHR 0x0D \<or> c = CHR 0x0A"

text \<open>A finished value goes to the container on the stack; without one it is the whole text.\<close>

fun complete :: "frame list \<Rightarrow> json \<Rightarrow> config" where
  "complete [] v = ([], AtTop v [])"
| "complete (FArray vs # stk) v = (FArray (v # vs) # stk, EndValue)"
| "complete (FValue k ms # stk) v = (FPair ((k, v) # ms) # stk, EndValue)"
| "complete stk v = (stk, EndValue)"

fun complete_string :: "frame list \<Rightarrow> string \<Rightarrow> config" where
  "complete_string (FKey ms # stk) s = (FColon s ms # stk, EndValue)"
| "complete_string stk s = complete stk (JString s)"

definition push_frame :: "frame \<Rightarrow> frame list \<Rightarrow> jstate \<Rightarrow> string + config" where
  "push_frame f stk st =
     (if int (length stk) + 1 \<le> maxNestingDepth then Inr (f # stk, st) else Inl ''exceeded max depth'')"

definition begin_value :: "frame list \<Rightarrow> char \<Rightarrow> string + config" where
  "begin_value stk c =
     (if c = CHR ''{'' then push_frame (FKey []) stk BeginStringOrEmpty
      else if c = CHR ''['' then push_frame (FArray []) stk BeginValueOrEmpty
      else if c = CHR 0x22 then Inr (stk, InString [])
      else if c = CHR ''-'' then Inr (stk, InNumber NNeg [c])
      else if c = CHR ''0'' then Inr (stk, InNumber NZero [c])
      else if c = CHR ''t'' then Inr (stk, InLiteral ''true'' ''rue'' (JBool True))
      else if c = CHR ''f'' then Inr (stk, InLiteral ''false'' ''alse'' (JBool False))
      else if c = CHR ''n'' then Inr (stk, InLiteral ''null'' ''ull'' JNull)
      else if is_digit c then Inr (stk, InNumber NInt [c])
      else Inl ''looking for beginning of value'')"

definition begin_string :: "frame list \<Rightarrow> char \<Rightarrow> string + config" where
  "begin_string stk c =
     (if c = CHR 0x22 then Inr (stk, InString [])
      else Inl ''looking for beginning of object key string'')"

fun end_value :: "frame list \<Rightarrow> char \<Rightarrow> string + config" where
  "end_value (FArray vs # stk) c =
     (if is_space c then Inr (FArray vs # stk, EndValue)
      else if c = CHR '','' then Inr (FArray vs # stk, BeginValue)
      else if c = CHR '']'' then Inr (complete stk (JArray (rev vs)))
      else Inl ''after array element'')"
| "end_value (FColon k ms # stk) c =
     (if is_space c then Inr (FColon k ms # stk, EndValue)
      else if c = CHR '':'' then Inr (FValue k ms # stk, BeginValue)
      else Inl ''after object key'')"
| "end_value (FPair ms # stk) c =
     (if is_space c then Inr (FPair ms # stk, EndValue)
      else if c = CHR '','' then Inr (FKey ms # stk, BeginString)
      else if c = CHR ''}'' then Inr (complete stk (JObject (rev ms)))
      else Inl ''after object key:value pair'')"
| "end_value stk c = Inl ''invalid''"

text \<open>
  One byte of a number: the next state, the end of the number (\<open>None\<close>), or an error. A byte that ends a number
  outside a container belongs to the text after the value.
\<close>

definition num_step :: "num_state \<Rightarrow> char \<Rightarrow> string + num_state option" where
  "num_step ns c =
     (case ns of
        NNeg \<Rightarrow> if c = CHR ''0'' then Inr (Some NZero)
          else if is_digit c then Inr (Some NInt) else Inl ''in numeric literal''
      | NZero \<Rightarrow> Inr (if c = CHR ''.'' then Some NDot
          else if c = CHR ''e'' \<or> c = CHR ''E'' then Some NExp else None)
      | NInt \<Rightarrow> Inr (if is_digit c then Some NInt else if c = CHR ''.'' then Some NDot
          else if c = CHR ''e'' \<or> c = CHR ''E'' then Some NExp else None)
      | NDot \<Rightarrow> if is_digit c then Inr (Some NFrac) else Inl ''after decimal point in numeric literal''
      | NFrac \<Rightarrow> Inr (if is_digit c then Some NFrac
          else if c = CHR ''e'' \<or> c = CHR ''E'' then Some NExp else None)
      | NExp \<Rightarrow> if c = CHR ''+'' \<or> c = CHR ''-'' then Inr (Some NExpSign)
          else if is_digit c then Inr (Some NExpInt) else Inl ''in exponent of numeric literal''
      | NExpSign \<Rightarrow> if is_digit c then Inr (Some NExpInt) else Inl ''in exponent of numeric literal''
      | NExpInt \<Rightarrow> Inr (if is_digit c then Some NExpInt else None))"

definition num_accepting :: "num_state \<Rightarrow> bool" where
  "num_accepting ns \<longleftrightarrow> ns = NZero \<or> ns = NInt \<or> ns = NFrac \<or> ns = NExpInt"

fun scan_step :: "config \<Rightarrow> char \<Rightarrow> string + config" where
  "scan_step (stk, BeginValue) c = (if is_space c then Inr (stk, BeginValue) else begin_value stk c)"
| "scan_step (stk, BeginValueOrEmpty) c =
     (if is_space c then Inr (stk, BeginValueOrEmpty)
      else if c = CHR '']'' then Inr (complete (tl stk) (JArray []))
      else begin_value stk c)"
| "scan_step (stk, BeginStringOrEmpty) c =
     (if is_space c then Inr (stk, BeginStringOrEmpty)
      else if c = CHR ''}'' then Inr (complete (tl stk) (JObject []))
      else begin_string stk c)"
| "scan_step (stk, BeginString) c =
     (if is_space c then Inr (stk, BeginString) else begin_string stk c)"
| "scan_step (stk, EndValue) c = end_value stk c"
| "scan_step (stk, InString raw) c =
     (if c = CHR 0x22 then Inr (complete_string stk (unquote (rev raw)))
      else if c = CHR 0x5C then Inr (stk, InEsc (c # raw))
      else if of_char c < (32 :: nat) then Inl ''in string literal''
      else Inr (stk, InString (c # raw)))"
| "scan_step (stk, InEsc raw) c =
     (if c \<in> set ''bfnrt/'' \<or> c = CHR 0x5C \<or> c = CHR 0x22 then Inr (stk, InString (c # raw))
      else if c = CHR ''u'' then Inr (stk, InEscU 3 (c # raw))
      else Inl ''in string escape code'')"
| "scan_step (stk, InEscU n raw) c =
     (if hex_value c = None then Inl ([CHR ''i'', CHR ''n'', CHR '' '', CHR 0x5C] @ ''u hexadecimal character escape'')
      else Inr (stk, case n of 0 \<Rightarrow> InString (c # raw) | Suc k \<Rightarrow> InEscU k (c # raw)))"
| "scan_step (stk, InNumber ns raw) c =
     (case num_step ns c of
        Inl e \<Rightarrow> Inl e
      | Inr (Some ns') \<Rightarrow> Inr (stk, InNumber ns' (c # raw))
      | Inr None \<Rightarrow>
          (if stk = [] then Inr ([], AtTop (JNumber (rev raw)) [c])
           else end_value (fst (complete stk (JNumber (rev raw)))) c))"
| "scan_step (stk, InLiteral w rest v) c =
     (if rest \<noteq> [] \<and> c = hd rest then
        Inr (if tl rest = [] then complete stk v else (stk, InLiteral w (tl rest) v))
      else Inl (''in literal '' @ w @ '' (expecting '' @ [CHR 0x27] @ take 1 rest @ [CHR 0x27] @ '')''))"
| "scan_step (stk, AtTop v pre) c = Inr (stk, AtTop v (pre @ [c]))"

fun is_container :: "json \<Rightarrow> bool" where
  "is_container (JArray vs) = True"
| "is_container (JObject ms) = True"
| "is_container v = False"

text \<open>
  \<open>Scanned v rest\<close>: the value is complete and \<open>rest\<close> was not needed. \<open>Partial\<close>: the text ends inside a value, or
  before it; the flag says whether anything but white space was seen, and the value is the one the text
  would be if it ended here. \<open>Invalid\<close>: the byte the scanner stops at, and what it was doing.
\<close>

datatype scan_result =
    Scanned json string
  | Partial bool "json option"
  | Invalid char string

fun finished :: "config \<Rightarrow> json option" where
  "finished (stk, AtTop v pre) = Some v"
| "finished (stk, InNumber ns raw) =
     (if stk = [] \<and> num_accepting ns then Some (JNumber (rev raw)) else None)"
| "finished c = None"

definition stops :: "config \<Rightarrow> string \<Rightarrow> bool" where
  "stops cfg s \<longleftrightarrow>
     (case snd cfg of AtTop v pre \<Rightarrow> is_container v \<or> pre \<noteq> [] \<or> s \<noteq> [] | _ \<Rightarrow> False)"

fun scan_from :: "config \<Rightarrow> string \<Rightarrow> scan_result" where
  "scan_from cfg [] =
     (if stops cfg [] then (case snd cfg of AtTop v pre \<Rightarrow> Scanned v pre | _ \<Rightarrow> Partial True None)
      else Partial (cfg \<noteq> ([], BeginValue)) (finished cfg))"
| "scan_from cfg (c # s) =
     (case snd cfg of
        AtTop v pre \<Rightarrow> Scanned v (pre @ c # s)
      | _ \<Rightarrow> (case scan_step cfg c of Inl e \<Rightarrow> Invalid c e | Inr cfg' \<Rightarrow> scan_from cfg' s))"

definition scan_json :: "string \<Rightarrow> scan_result" where
  "scan_json s = scan_from ([], BeginValue) s"

section \<open>Reading one value from a stream\<close>

text \<open>\<open>quoteChar\<close>: the byte of a syntax error, as a rune of Latin-1, in single quotes.\<close>

definition hex_digit :: "nat \<Rightarrow> char" where
  "hex_digit d = (if d < 10 then digit_char d else char_of (87 + d))"

definition quoteChar :: "char \<Rightarrow> string" where
  "quoteChar c =
     (let n = of_char c;
          bs = (\<lambda>x. [CHR 0x5C, x]);
          body =
            (if c = CHR 0x27 then bs (CHR 0x27)
             else if c = CHR 0x5C then bs (CHR 0x5C)
             else if c = CHR 0x07 then bs (CHR ''a'') else if c = CHR 0x08 then bs (CHR ''b'')
             else if c = CHR 0x0C then bs (CHR ''f'') else if c = CHR 0x0A then bs (CHR ''n'')
             else if c = CHR 0x0D then bs (CHR ''r'') else if c = CHR 0x09 then bs (CHR ''t'')
             else if c = CHR 0x0B then bs (CHR ''v'')
             else if n < 32 \<or> n = 127 then bs (CHR ''x'') @ [hex_digit (n div 16), hex_digit (n mod 16)]
             else if n < 127 then [c]
             else if n < 161 \<or> n = 173 then
               bs (CHR ''u'') @ ''00'' @ [hex_digit (n div 16), hex_digit (n mod 16)]
             else encode_rune n)
      in [CHR 0x27] @ body @ [CHR 0x27])"

text \<open>
  What a connection delivers: bytes, and then the end of the stream (\<open>None\<close>) or a read error.
\<close>

type_synonym stream = "string \<times> go_error option"

fun Decode_value :: "stream \<Rightarrow> json result" where
  "Decode_value (s, end_err) =
     (case scan_json s of
        Scanned v rest \<Rightarrow> Inr v
      | Invalid c what \<Rightarrow> Inl (Errorf (''invalid character '' @ quoteChar c @ '' '' @ what))
      | Partial seen v \<Rightarrow>
          (case (end_err, v) of
             (Some e, _) \<Rightarrow> Inl e
           | (None, Some v) \<Rightarrow> Inr v
           | (None, None) \<Rightarrow> Inl (Errorf (if seen then ''unexpected EOF'' else ''EOF''))))"

section \<open>Structs\<close>

text \<open>
  A member of an object belongs to the field whose name it equals after case folding; the runes that fold
  to an ASCII letter are the other case and the signs U+017F and U+212A.
\<close>

definition fold_rune :: "nat \<Rightarrow> nat" where
  "fold_rune r =
     (if 97 \<le> r \<and> r \<le> 122 then r - 32 else if r = 8490 then 75 else if r = 383 then 83 else r)"

definition same_field :: "string \<Rightarrow> string \<Rightarrow> bool" where
  "same_field key name \<longleftrightarrow> map fold_rune (runes key) = map fold_rune (runes name)"

text \<open>\<open>describe\<close> is the value kind an \<open>UnmarshalTypeError\<close> names.\<close>

fun json_kind :: "json \<Rightarrow> string" where
  "json_kind JNull = ''null''"
| "json_kind (JBool b) = ''bool''"
| "json_kind (JNumber n) = ''number''"
| "json_kind (JString s) = ''string''"
| "json_kind (JArray vs) = ''array''"
| "json_kind (JObject ms) = ''object''"

definition type_error :: "json \<Rightarrow> string \<Rightarrow> go_error" where
  "type_error v go_type = Errorf (''json: cannot unmarshal '' @ json_kind v @ '' into Go value of type '' @ go_type)"

definition field_error :: "json \<Rightarrow> string \<Rightarrow> string \<Rightarrow> go_error" where
  "field_error v field go_type =
     Errorf (''json: cannot unmarshal '' @ json_kind v @ '' into Go struct field '' @ field @
             '' of type '' @ go_type)"

text \<open>A struct is read member by member; the first mismatch is remembered and the rest is still read.\<close>

definition save_error :: "go_error option \<Rightarrow> go_error \<Rightarrow> go_error option" where
  "save_error err e = (case err of None \<Rightarrow> Some e | Some _ \<Rightarrow> err)"

fun read_string :: "string \<Rightarrow> json \<Rightarrow> string \<times> go_error option \<Rightarrow> string \<times> go_error option" where
  "read_string field (JString s) (old, err) = (s, err)"
| "read_string field JNull (old, err) = (old, err)"
| "read_string field v (old, err) = (old, save_error err (field_error v field ''string''))"

fun read_bool :: "string \<Rightarrow> json \<Rightarrow> bool \<times> go_error option \<Rightarrow> bool \<times> go_error option" where
  "read_bool field (JBool b) (old, err) = (b, err)"
| "read_bool field JNull (old, err) = (old, err)"
| "read_bool field v (old, err) = (old, save_error err (field_error v field ''bool''))"

section \<open>Encoding strings\<close>

definition escape_ascii :: "char \<Rightarrow> string" where
  "escape_ascii c =
     (let n = of_char c in
      if c = CHR 0x22 \<or> c = CHR 0x5C then [CHR 0x5C, c]
      else if c = CHR 0x08 then [CHR 0x5C, CHR ''b''] else if c = CHR 0x0C then [CHR 0x5C, CHR ''f'']
      else if c = CHR 0x0A then [CHR 0x5C, CHR ''n''] else if c = CHR 0x0D then [CHR 0x5C, CHR ''r'']
      else if c = CHR 0x09 then [CHR 0x5C, CHR ''t'']
      else if n < 32 \<or> c = CHR ''<'' \<or> c = CHR ''>'' \<or> c = CHR ''&'' then
        [CHR 0x5C, CHR ''u'', CHR ''0'', CHR ''0'', hex_digit (n div 16), hex_digit (n mod 16)]
      else [c])"

function escape_json :: "string \<Rightarrow> string" where
  "escape_json s =
     (case s of
        [] \<Rightarrow> []
      | c # s1 \<Rightarrow>
          if of_char c < (128 :: nat) then escape_ascii c @ escape_json s1
          else (let (r, w) = decode_rune s in
                (if r = RuneError \<and> w = 1 then CHR 0x5C # ''ufffd''
                 else if r = 8232 \<or> r = 8233 then CHR 0x5C # ''u202'' @ [hex_digit (r mod 16)]
                 else take w s) @ escape_json (drop w s)))"
  by pat_completeness auto
termination
proof (relation "measure length")
  fix s c s1 x r w
  assume "s = c # s1" "x = decode_rune s" "(r, w) = x"
  with decode_rune_width [of s] show "(drop w s, s) \<in> measure length"
    by (auto dest: arg_cong [where f = snd])
qed auto

declare escape_json.simps [simp del]

definition quote_json :: "string \<Rightarrow> string" where
  "quote_json s = CHR 0x22 # escape_json s @ [CHR 0x22]"

text \<open>What a string becomes when invalid UTF-8 is replaced.\<close>

definition to_valid_utf8 :: "string \<Rightarrow> string" where
  "to_valid_utf8 s = concat (map encode_rune (runes s))"

function valid_utf8 :: "string \<Rightarrow> bool" where
  "valid_utf8 s =
     (if s = [] then True
      else let (r, w) = decode_rune s in if r = RuneError \<and> w = 1 then False else valid_utf8 (drop w s))"
  by pat_completeness auto
termination
proof (relation "measure length")
  fix s :: string and x r w
  assume "s \<noteq> []" "x = decode_rune s" "(r, w) = x"
  with decode_rune_width [of s] show "(drop w s, s) \<in> measure length"
    by (cases s) (auto dest: arg_cong [where f = snd])
qed simp

declare valid_utf8.simps [simp del]

end
