(* ===== verification/Protocol.thy ===== *)
theory Protocol
  imports Path Sha256 Json
begin

text \<open>
  The protocol between a tmux command and the agent of a pane, \<open>internal/agent/protocol.go\<close>: socket paths, the
  client with its retries, the check for stale sockets, the server's set-up and its handling of one
  connection. The services of the operating system are the fields of a record \<open>os\<close> over a world \<open>'w\<close>; the
  concurrency of the server is in \<open>Server\<close>.
\<close>

section \<open>The operating system\<close>

text \<open>
  One connection is open at a time in each of the functions below, so the operations on it carry no handle.
  Durations are nanoseconds. An error of \<open>None\<close> is \<open>nil\<close>.
\<close>

record 'w os =
  os_Stat :: "string \<Rightarrow> 'w \<Rightarrow> go_error option \<times> 'w"
  os_Remove :: "string \<Rightarrow> 'w \<Rightarrow> go_error option \<times> 'w"
  os_MkdirAll :: "string \<Rightarrow> int \<Rightarrow> 'w \<Rightarrow> go_error option \<times> 'w"
  os_Umask :: "int \<Rightarrow> 'w \<Rightarrow> int \<times> 'w"
  os_Listen :: "string \<Rightarrow> 'w \<Rightarrow> go_error option \<times> 'w"
  os_Dial :: "string \<Rightarrow> int \<Rightarrow> 'w \<Rightarrow> go_error option \<times> 'w"
  os_SetDeadline :: "int \<Rightarrow> 'w \<Rightarrow> 'w"
  os_Write :: "string \<Rightarrow> 'w \<Rightarrow> go_error option \<times> 'w"
  os_CloseWrite :: "'w \<Rightarrow> 'w"
  os_ReadAll :: "'w \<Rightarrow> stream \<times> 'w"
  os_CloseConn :: "'w \<Rightarrow> 'w"
  os_Sleep :: "int \<Rightarrow> 'w \<Rightarrow> 'w"

fun IsNotExist :: "go_error option \<Rightarrow> bool" where
  "IsNotExist (Some (OsError ENOENT m)) = True"
| "IsNotExist e = False"

section \<open>Messages\<close>

record SendKeysRequest =
  Data :: string

record SendKeysResponse =
  OK :: bool
  Error :: string

definition Marshal_request :: "SendKeysRequest \<Rightarrow> string result" where
  "Marshal_request req = Inr (''{'' @ quote_json ''data'' @ '':'' @ quote_json (Data req) @ ''}'')"

text \<open>\<open>Encoder.Encode\<close> ends the text with a newline; an empty error is omitted.\<close>

definition Encode_response :: "SendKeysResponse \<Rightarrow> string" where
  "Encode_response resp =
     ''{'' @ quote_json ''ok'' @ '':'' @ (if OK resp then ''true'' else ''false'') @
     (if Error resp = '''' then '''' else '','' @ quote_json ''error'' @ '':'' @ quote_json (Error resp)) @
     ''}'' @ [CHR 0x0A]"

fun read_request :: "(string \<times> json) list \<Rightarrow> SendKeysRequest \<times> go_error option \<Rightarrow>
    SendKeysRequest \<times> go_error option" where
  "read_request [] (req, err) = (req, err)"
| "read_request ((k, v) # ms) (req, err) =
     (if same_field k ''data'' then
        (let (d, err') = read_string ''SendKeysRequest.data'' v (Data req, err)
         in read_request ms (req\<lparr>Data := d\<rparr>, err'))
      else read_request ms (req, err))"

definition or_error :: "'a \<times> go_error option \<Rightarrow> 'a result" where
  "or_error x = (case snd x of None \<Rightarrow> Inr (fst x) | Some e \<Rightarrow> Inl e)"

fun Unmarshal_request :: "json \<Rightarrow> SendKeysRequest result" where
  "Unmarshal_request JNull = Inr \<lparr>Data = ''''\<rparr>"
| "Unmarshal_request (JObject ms) = or_error (read_request ms (\<lparr>Data = ''''\<rparr>, None))"
| "Unmarshal_request v = Inl (type_error v ''agent.SendKeysRequest'')"

definition Decode_request :: "stream \<Rightarrow> SendKeysRequest result" where
  "Decode_request st = (case Decode_value st of Inl e \<Rightarrow> Inl e | Inr v \<Rightarrow> Unmarshal_request v)"

fun read_response :: "(string \<times> json) list \<Rightarrow> SendKeysResponse \<times> go_error option \<Rightarrow>
    SendKeysResponse \<times> go_error option" where
  "read_response [] (resp, err) = (resp, err)"
| "read_response ((k, v) # ms) (resp, err) =
     (if same_field k ''ok'' then
        (let (b, err') = read_bool ''SendKeysResponse.ok'' v (OK resp, err)
         in read_response ms (resp\<lparr>OK := b\<rparr>, err'))
      else if same_field k ''error'' then
        (let (m, err') = read_string ''SendKeysResponse.error'' v (Error resp, err)
         in read_response ms (resp\<lparr>Error := m\<rparr>, err'))
      else read_response ms (resp, err))"

fun Unmarshal_response :: "json \<Rightarrow> SendKeysResponse result" where
  "Unmarshal_response JNull = Inr \<lparr>OK = False, Error = ''''\<rparr>"
| "Unmarshal_response (JObject ms) = or_error (read_response ms (\<lparr>OK = False, Error = ''''\<rparr>, None))"
| "Unmarshal_response v = Inl (type_error v ''agent.SendKeysResponse'')"

definition Decode_response :: "stream \<Rightarrow> SendKeysResponse result" where
  "Decode_response st = (case Decode_value st of Inl e \<Rightarrow> Inl e | Inr v \<Rightarrow> Unmarshal_response v)"

section \<open>Constants\<close>

definition Millisecond :: int where "Millisecond = 1000000"
definition maxSunPath :: int where "maxSunPath = 104"
definition maxRequestSize :: int where "maxRequestSize = 2 ^ 20"
definition maxConcurrent :: nat where "maxConcurrent = 16"
definition connTimeout :: int where "connTimeout = 5000 * Millisecond"
definition retryInitInterval :: int where "retryInitInterval = 10 * Millisecond"
definition retryMaxInterval :: int where "retryMaxInterval = 200 * Millisecond"
definition retryMaxAttempts :: nat where "retryMaxAttempts = 10"
definition staleDialTimeout :: int where "staleDialTimeout = 500 * Millisecond"

section \<open>Socket paths\<close>

text \<open>\<open>os.TempDir\<close>, from the environment; the path functions take its value.\<close>

definition TempDir :: "(string \<Rightarrow> string) \<Rightarrow> string" where
  "TempDir env = (if env ''TMPDIR'' = '''' then ''/tmp'' else env ''TMPDIR'')"

definition SocketDir :: "string \<Rightarrow> string \<Rightarrow> string" where
  "SocketDir tmp session = Join [tmp, ''shimux'', session]"

definition SocketPath :: "string \<Rightarrow> string \<Rightarrow> string \<Rightarrow> string" where
  "SocketPath tmp session paneID = Join [SocketDir tmp session, ''pane-'' @ paneID @ ''.sock'']"

definition SafeSocketPath :: "string \<Rightarrow> string \<Rightarrow> string \<Rightarrow> string" where
  "SafeSocketPath tmp session paneID =
     (let p = SocketPath tmp session paneID in
      if int (length p) \<le> maxSunPath then p
      else let h = sha256 session; hashed = take 16 (hex_string h)
           in SocketPath tmp hashed paneID)"

section \<open>Client\<close>

definition SendKeysWithTimeout ::
    "'w os \<Rightarrow> string \<Rightarrow> string \<Rightarrow> int \<Rightarrow> 'w \<Rightarrow> go_error option \<times> 'w" where
  "SendKeysWithTimeout os socketPath data timeout w0 =
     (case os_Dial os socketPath timeout w0 of
        (Some err, w1) \<Rightarrow> (Some (Wrapf (''connect to '' @ socketPath @ '': '') err ''''), w1)
      | (None, w1) \<Rightarrow>
          (let w2 = os_SetDeadline os timeout w1 in
           case Marshal_request \<lparr>Data = data\<rparr> of
             Inl err \<Rightarrow> (Some (Wrapf ''marshal request: '' err ''''), os_CloseConn os w2)
           | Inr reqData \<Rightarrow>
               (case os_Write os reqData w2 of
                  (Some err, w3) \<Rightarrow> (Some (Wrapf ''write request: '' err ''''), os_CloseConn os w3)
                | (None, w3) \<Rightarrow>
                    (let (stream, w4) = os_ReadAll os (os_CloseWrite os w3) in
                     case Decode_response stream of
                       Inl err \<Rightarrow> (Some (Wrapf ''read response: '' err ''''), os_CloseConn os w4)
                     | Inr resp \<Rightarrow>
                         (if \<not> OK resp then (Some (Errorf (''server error: '' @ Error resp)), os_CloseConn os w4)
                          else (None, os_CloseConn os w4))))))"

text \<open>The retry loop, by the number of attempts left.\<close>

fun SendKeys_loop ::
    "('w \<Rightarrow> go_error option \<times> 'w) \<Rightarrow> (int \<Rightarrow> 'w \<Rightarrow> 'w) \<Rightarrow> nat \<Rightarrow> int \<Rightarrow> go_error option \<Rightarrow> 'w \<Rightarrow>
     go_error option \<times> 'w" where
  "SendKeys_loop attempt sleep 0 interval lastErr w =
     (let what = ''send-keys failed after '' @ Itoa (int retryMaxAttempts) @ '' retries: '' in
      (Some (case lastErr of Some e \<Rightarrow> Wrapf what e '''' | None \<Rightarrow> Errorf (what @ ''%!w(<nil>)'')), w))"
| "SendKeys_loop attempt sleep (Suc n) interval lastErr w =
     (case attempt w of
        (None, w1) \<Rightarrow> (None, w1)
      | (Some err, w1) \<Rightarrow>
          (let w2 = sleep interval w1;
               doubled = interval * 2;
               interval' = (if doubled > retryMaxInterval then retryMaxInterval else doubled)
           in SendKeys_loop attempt sleep n interval' (Some err) w2))"

definition SendKeys :: "'w os \<Rightarrow> string \<Rightarrow> string \<Rightarrow> 'w \<Rightarrow> go_error option \<times> 'w" where
  "SendKeys os socketPath data w =
     SendKeys_loop (SendKeysWithTimeout os socketPath data connTimeout) (os_Sleep os)
       retryMaxAttempts retryInitInterval None w"

section \<open>Stale sockets\<close>

definition CleanStaleSocket :: "'w os \<Rightarrow> string \<Rightarrow> 'w \<Rightarrow> go_error option \<times> 'w" where
  "CleanStaleSocket os socketPath w0 =
     (let (err, w1) = os_Stat os socketPath w0 in
      if IsNotExist err then (None, w1)
      else
        (case os_Dial os socketPath staleDialTimeout w1 of
           (Some _, w2) \<Rightarrow>
             (let (removeErr, w3) = os_Remove os socketPath w2 in
              case removeErr of
                None \<Rightarrow> (None, w3)
              | Some e \<Rightarrow>
                  if \<not> IsNotExist removeErr then (Some (Wrapf ''remove stale socket: '' e ''''), w3)
                  else (None, w3))
         | (None, w2) \<Rightarrow> (Some ErrSocketInUse, os_CloseConn os w2)))"

section \<open>Server\<close>

text \<open>
  \<open>ListenAndServe\<close> up to the start of the accept loop; \<open>None\<close> is a running server, whose state is in
  \<open>Server\<close>.
\<close>

definition ListenAndServe :: "'w os \<Rightarrow> string \<Rightarrow> 'w \<Rightarrow> go_error option \<times> 'w" where
  "ListenAndServe os socketPath w0 =
     (case os_MkdirAll os (Dir socketPath) 448 w0 of
        (Some err, w1) \<Rightarrow> (Some (Wrapf ''create socket directory: '' err ''''), w1)
      | (None, w1) \<Rightarrow>
          (let (oldUmask, w2) = os_Umask os 63 w1;
               (err, w3) = os_Listen os socketPath w2;
               (_, w4) = os_Umask os oldUmask w3
           in case err of
                Some e \<Rightarrow> (Some (Wrapf (''listen on '' @ socketPath @ '': '') e ''''), w4)
              | None \<Rightarrow> (None, w4)))"

text \<open>
  The \<open>LimitedReader\<close>: at most \<open>maxRequestSize + 1\<close> bytes, then the end of the stream. Its \<open>N\<close> after the
  decoder is what the decoder has not read: nothing is left unread when the text ended inside a value;
  otherwise the decoder may have read ahead to any point, which is the argument \<open>ahead\<close>.
\<close>

definition limit_stream :: "stream \<Rightarrow> stream" where
  "limit_stream st =
     (if int (length (fst st)) > maxRequestSize then (take (nat (maxRequestSize + 1)) (fst st), None) else st)"

definition lr_N :: "int \<Rightarrow> string \<Rightarrow> int" where
  "lr_N ahead s =
     maxRequestSize + 1 -
       (case scan_json s of Partial seen v \<Rightarrow> int (length s) | _ \<Rightarrow> min ahead (int (length s)))"

text \<open>One connection: what is written back, and what the handler does to the world.\<close>

definition handleConn ::
    "(string \<Rightarrow> 'w \<Rightarrow> go_error option \<times> 'w) \<Rightarrow> int \<Rightarrow> stream \<Rightarrow> 'w \<Rightarrow> string \<times> 'w" where
  "handleConn handler ahead conn w =
     (let lr = limit_stream conn in
      case Decode_request lr of
        Inl err \<Rightarrow>
          (let msg = (if lr_N ahead (fst lr) = 0 then ''request too large''
                      else ''invalid request: '' @ error_string err)
           in (Encode_response \<lparr>OK = False, Error = msg\<rparr>, w))
      | Inr req \<Rightarrow>
          (case handler (Data req) w of
             (Some err, w') \<Rightarrow> (Encode_response \<lparr>OK = False, Error = error_string err\<rparr>, w')
           | (None, w') \<Rightarrow> (Encode_response \<lparr>OK = True, Error = ''''\<rparr>, w')))"

end
