(* ===== verification/Commands.thy ===== *)
theory Commands
  imports Parser Format Keys Pane_Spec Ghostty Protocol
begin

text \<open>
  Execution of a parsed command, \<open>internal/tmux/commands.go\<close>: one definition per handler, and \<open>Execute\<close>, which
  parses the arguments of the command and dispatches. A handler changes the pane manager, the two output
  streams and the world of the terminal and the operating system, all fields of one state, and returns an
  exit code and an error.
\<close>

section \<open>Context and state\<close>

text \<open>
  The part of \<open>CommandContext\<close> a command does not change, with the services it reaches: the controller, the
  session, the operating system, the temporary directory, and the order Go visits the pane map in.
\<close>

record 'w CommandContext =
  ctx_Controller :: "'w Controller"
  ctx_Session :: string
  ctx_os :: "'w os"
  ctx_TempDir :: string
  ctx_order :: map_order

record 'w State =
  PaneManager :: Manager
  Stdout :: string
  Stderr :: string
  World :: 'w

type_synonym 'w command = "'w State \<Rightarrow> (int \<times> go_error option) \<times> 'w State"

definition newline :: string where
  "newline = [CHR 0x0A]"

definition Fprintln_out :: "string \<Rightarrow> 'w State \<Rightarrow> 'w State" where
  "Fprintln_out s st = st\<lparr>Stdout := Stdout st @ s @ newline\<rparr>"

section \<open>Helpers\<close>

text \<open>The loop over the runes after the last \<open>%\<close>, with the contents of the builder.\<close>

fun extractPaneID_loop :: "string \<Rightarrow> nat list \<Rightarrow> string" where
  "extractPaneID_loop b [] = b"
| "extractPaneID_loop b (ch # rs) =
     (if 48 \<le> ch \<and> ch \<le> 57 then extractPaneID_loop (b @ encode_rune ch) rs else b)"

definition extractPaneID :: "string \<Rightarrow> string" where
  "extractPaneID target =
     (if target = '''' then ''''
      else case str_last_index target ''%'' of
        None \<Rightarrow> ''''
      | Some idx \<Rightarrow>
          (let rest = drop (idx + 1) target in
           if rest = '''' then '''' else extractPaneID_loop '''' (runes rest)))"

definition buildFormatContext :: "'w CommandContext \<Rightarrow> Manager \<Rightarrow> Pane \<Rightarrow> FormatContext" where
  "buildFormatContext ctx m p =
     (let idx = IndexOf (p_ID p) m;
          paneIndex = (if 0 \<le> idx then Itoa idx else ''0'')
      in \<lparr>SessionName = ctx_Session ctx, SessionID = ''$0'', WindowIndex = ''0'', WindowID = ''@0'',
          WindowName = ctx_Session ctx, PaneID = ''%'' @ p_ID p, PaneIndex = paneIndex,
          PanePID = p_PID p, PaneTTY = p_TTY p, PanePath = p_CurrentPath p, PaneWidth = p_Width p,
          PaneHeight = p_Height p, PaneActive = p_Active p\<rparr>)"

section \<open>Handlers\<close>

definition handleHasSession :: "'w CommandContext \<Rightarrow> HasSessionOptions \<Rightarrow> 'w command" where
  "handleHasSession ctx opts st = (if hs_Target opts = ctx_Session ctx then (0, None) else (1, None), st)"

definition handleSwitchClient :: "'w CommandContext \<Rightarrow> 'w command" where
  "handleSwitchClient ctx st = ((0, None), st)"

definition handleNewSession :: "'w CommandContext \<Rightarrow> 'w command" where
  "handleNewSession ctx st = ((0, None), st)"

definition handleShowOptions :: "'w CommandContext \<Rightarrow> ShowOptionsOptions \<Rightarrow> 'w command" where
  "handleShowOptions ctx opts st =
     ((0, None),
      if so_Global opts \<and> so_Option opts = ''prefix'' then Fprintln_out ''prefix C-b'' st else st)"

definition split_direction :: "string \<Rightarrow> SplitDirection" where
  "split_direction d =
     (if d = ''right'' then SplitRight else if d = ''left'' then SplitLeft
      else if d = ''up'' then SplitUp else SplitDown)"

definition handleSplitWindow :: "'w CommandContext \<Rightarrow> SplitWindowOptions \<Rightarrow> 'w command" where
  "handleSplitWindow ctx opts st =
     (let direction = split_direction (sw_Direction opts) in
      case NewSplit (ctx_Controller ctx) direction (World st) of
        (Some err, w) \<Rightarrow> ((1, Some (Wrapf ''split-window: '' err '''')), st\<lparr>World := w\<rparr>)
      | (None, w) \<Rightarrow>
          (case Register '''' (PaneManager st) of
             (Inl err, m) \<Rightarrow>
               ((1, Some (Wrapf ''split-window: register pane: '' err '''')), st\<lparr>World := w, PaneManager := m\<rparr>)
           | (Inr p, m) \<Rightarrow>
               (let st1 = st\<lparr>World := w, PaneManager := m\<rparr> in
                if sw_PrintAfter opts then
                  (let format = (if sw_Format opts = '''' then ''#{pane_id}'' else sw_Format opts);
                       fctx = buildFormatContext ctx m p
                   in ((0, None), Fprintln_out (ExpandFormat format fctx) st1))
                else ((0, None), st1))))"

definition handleSendKeys :: "'w CommandContext \<Rightarrow> SendKeysOptions \<Rightarrow> 'w command" where
  "handleSendKeys ctx opts st =
     (let data = BuildSendKeysData (sk_Keys opts) (sk_Literal opts) in
      if data = '''' then ((0, None), st)
      else
        (let target = extractPaneID (sk_Target opts);
             paneID =
               (if target = '''' then
                  (case GetActive (ctx_order ctx) (PaneManager st) of Some p \<Rightarrow> p_ID p | None \<Rightarrow> target)
                else target)
         in if paneID = '''' then ((1, Some (Errorf ''send-keys: no target pane specified'')), st)
            else
              (let socketPath = SafeSocketPath (ctx_TempDir ctx) (ctx_Session ctx) paneID in
               case SendKeys (ctx_os ctx) socketPath data (World st) of
                 (Some err, w) \<Rightarrow> ((1, Some (Wrapf ''send-keys: '' err '''')), st\<lparr>World := w\<rparr>)
               | (None, w) \<Rightarrow> ((0, None), st\<lparr>World := w\<rparr>))))"

definition handleSelectPane :: "'w CommandContext \<Rightarrow> SelectPaneOptions \<Rightarrow> 'w command" where
  "handleSelectPane ctx opts st = ((0, None), st)"

definition handleKillPane :: "'w CommandContext \<Rightarrow> KillPaneOptions \<Rightarrow> 'w command" where
  "handleKillPane ctx opts st =
     (case CloseSurface (ctx_Controller ctx) (World st) of
        (Some err, w) \<Rightarrow> ((1, Some (Wrapf ''kill-pane: '' err '''')), st\<lparr>World := w\<rparr>)
      | (None, w) \<Rightarrow>
          (let st1 = st\<lparr>World := w\<rparr>; paneID = extractPaneID (kp_Target opts) in
           if paneID \<noteq> '''' then
             (case Unregister paneID (PaneManager st1) of
                (Some err, m) \<Rightarrow>
                  ((1, Some (Wrapf ''kill-pane: unregister: '' err '''')), st1\<lparr>PaneManager := m\<rparr>)
              | (None, m) \<Rightarrow> ((0, None), st1\<lparr>PaneManager := m\<rparr>))
           else ((0, None), st1)))"

fun print_panes :: "'w CommandContext \<Rightarrow> string \<Rightarrow> Pane list \<Rightarrow> 'w State \<Rightarrow> 'w State" where
  "print_panes ctx format [] st = st"
| "print_panes ctx format (p # ps) st =
     (let fctx = buildFormatContext ctx (PaneManager st) p
      in print_panes ctx format ps (Fprintln_out (ExpandFormat format fctx) st))"

definition handleListPanes :: "'w CommandContext \<Rightarrow> ListPanesOptions \<Rightarrow> 'w command" where
  "handleListPanes ctx opts st =
     (let ps = List (PaneManager st) in
      if ps = [] then ((0, None), st)
      else
        (let format = (if lp_Format opts = '''' then ''#{pane_id}'' else lp_Format opts)
         in ((0, None), print_panes ctx format ps st)))"

text \<open>The zero value of a format context with the session name set.\<close>

definition session_context :: "string \<Rightarrow> FormatContext" where
  "session_context session =
     \<lparr>SessionName = session, SessionID = '''', WindowIndex = '''', WindowID = '''', WindowName = '''',
      PaneID = '''', PaneIndex = '''', PanePID = 0, PaneTTY = '''', PanePath = '''', PaneWidth = 0,
      PaneHeight = 0, PaneActive = False\<rparr>"

definition handleDisplayMessage :: "'w CommandContext \<Rightarrow> DisplayMessageOptions \<Rightarrow> 'w command" where
  "handleDisplayMessage ctx opts st =
     (if \<not> dm_Print opts then ((0, None), st)
      else
        (let fctx =
               (case GetActive (ctx_order ctx) (PaneManager st) of
                  Some p \<Rightarrow> buildFormatContext ctx (PaneManager st) p
                | None \<Rightarrow> session_context (ctx_Session ctx))
         in ((0, None), Fprintln_out (ExpandFormat (dm_Format opts) fctx) st)))"

definition handleUnsupported :: "'w CommandContext \<Rightarrow> string \<Rightarrow> 'w command" where
  "handleUnsupported ctx cmd st =
     ((0, None), st\<lparr>Stderr := Stderr st @ ''shimux: unsupported tmux command: '' @ cmd @ newline\<rparr>)"

section \<open>Dispatch\<close>

text \<open>Parsing the arguments of a command and running its handler, or failing with exit code 1.\<close>

definition with_options :: "'o result \<Rightarrow> ('o \<Rightarrow> 'w command) \<Rightarrow> 'w command" where
  "with_options parsed handler st =
     (case parsed of Inl err \<Rightarrow> ((1, Some err), st) | Inr opts \<Rightarrow> handler opts st)"

definition Execute :: "'w CommandContext \<Rightarrow> ParseResult \<Rightarrow> 'w command" where
  "Execute ctx r =
     (let cmd = Command r; args = Args r in
      if cmd = ''has-session'' then with_options (ParseHasSession args) (handleHasSession ctx)
      else if cmd = ''switch-client'' then handleSwitchClient ctx
      else if cmd = ''new-session'' then handleNewSession ctx
      else if cmd = ''show-options'' then with_options (ParseShowOptions args) (handleShowOptions ctx)
      else if cmd = ''split-window'' then with_options (ParseSplitWindow args) (handleSplitWindow ctx)
      else if cmd = ''send-keys'' then with_options (ParseSendKeys args) (handleSendKeys ctx)
      else if cmd = ''select-pane'' then with_options (ParseSelectPane args) (handleSelectPane ctx)
      else if cmd = ''kill-pane'' then with_options (ParseKillPane args) (handleKillPane ctx)
      else if cmd = ''list-panes'' then with_options (ParseListPanes args) (handleListPanes ctx)
      else if cmd = ''display-message'' then with_options (ParseDisplayMessage args) (handleDisplayMessage ctx)
      else handleUnsupported ctx cmd)"

end
