(* ===== verification/Keys_Spec.thy ===== *)
theory Keys_Spec
  imports Keys
begin

text \<open>
  What key expansion promises: which inputs are read as modifiers, that a modified cursor, editing or
  function key is the xterm encoding of the unmodified one and identifies both the key and the set of
  modifiers, what control and meta do to a character, what happens to a name that is no key, and how the
  arguments of one \<open>send-keys\<close> compose.
\<close>

section \<open>Reading modifiers\<close>

definition is_modifier :: "char \<Rightarrow> bool" where
  "is_modifier c \<longleftrightarrow> c \<in> {CHR ''C'', CHR ''c'', CHR ''M'', CHR ''m'', CHR ''S'', CHR ''s''}"

definition modifier_prefix :: "string \<Rightarrow> string" where
  "modifier_prefix ms = concat (map (\<lambda>m. [m, CHR ''-'']) ms)"

definition has_ctrl :: "string \<Rightarrow> bool" where
  "has_ctrl ms \<longleftrightarrow> CHR ''C'' \<in> set ms \<or> CHR ''c'' \<in> set ms"

definition has_meta :: "string \<Rightarrow> bool" where
  "has_meta ms \<longleftrightarrow> CHR ''M'' \<in> set ms \<or> CHR ''m'' \<in> set ms"

definition has_shift :: "string \<Rightarrow> bool" where
  "has_shift ms \<longleftrightarrow> CHR ''S'' \<in> set ms \<or> CHR ''s'' \<in> set ms"

fun unprefixed :: "string \<Rightarrow> bool" where
  "unprefixed (c0 # c1 # s) \<longleftrightarrow> \<not> (c1 = CHR ''-'' \<and> is_modifier c0)"
| "unprefixed s \<longleftrightarrow> True"

lemma modifier_prefix_simps [simp]:
  "modifier_prefix [] = ''''"
  "modifier_prefix (m # ms) = m # CHR ''-'' # modifier_prefix ms"
  by (simp_all add: modifier_prefix_def)

lemma has_simps [simp]:
  "\<not> has_ctrl []" "has_ctrl (m # ms) \<longleftrightarrow> m = CHR ''C'' \<or> m = CHR ''c'' \<or> has_ctrl ms"
  "\<not> has_meta []" "has_meta (m # ms) \<longleftrightarrow> m = CHR ''M'' \<or> m = CHR ''m'' \<or> has_meta ms"
  "\<not> has_shift []" "has_shift (m # ms) \<longleftrightarrow> m = CHR ''S'' \<or> m = CHR ''s'' \<or> has_shift ms"
  by (auto simp: has_ctrl_def has_meta_def has_shift_def)

lemma modifiers_present:
  "list_all is_modifier ms \<Longrightarrow> ms \<noteq> [] \<Longrightarrow> has_ctrl ms \<or> has_meta ms \<or> has_shift ms"
  by (cases ms) (auto simp: is_modifier_def)

lemma parseModifiers_loop_base:
  "unprefixed base \<Longrightarrow> parseModifiers_loop ctrl meta shift base = (ctrl, meta, shift, base)"
  by (cases base rule: unprefixed.cases) (auto simp: is_modifier_def)

lemma parseModifiers_loop_prefix:
  "list_all is_modifier ms \<Longrightarrow> unprefixed base \<Longrightarrow>
     parseModifiers_loop ctrl meta shift (modifier_prefix ms @ base) =
       (ctrl \<or> has_ctrl ms, meta \<or> has_meta ms, shift \<or> has_shift ms, base)"
  by (induction ms arbitrary: ctrl meta shift)
     (auto simp: parseModifiers_loop_base is_modifier_def)

lemma modifier_split: "\<exists>ms base. key = modifier_prefix ms @ base \<and> list_all is_modifier ms \<and> unprefixed base"
proof (induction key rule: length_induct)
  case (1 key)
  show ?case
  proof (cases "unprefixed key")
    case True
    then show ?thesis by (intro exI [of _ "[]"] exI [of _ key]) simp
  next
    case False
    then obtain m s where key: "key = m # CHR ''-'' # s" and m: "is_modifier m"
      by (cases key rule: unprefixed.cases) auto
    then have "length s < length key" by simp
    with 1 obtain ms base where "s = modifier_prefix ms @ base" "list_all is_modifier ms"
        "unprefixed base" by blast
    with key m show ?thesis by (intro exI [of _ "m # ms"] exI [of _ base]) simp
  qed
qed

lemma modifier_prefix_parse:
  "list_all is_modifier ms \<Longrightarrow> unprefixed base \<Longrightarrow>
     parseModifiers (modifier_prefix ms @ base) = (has_ctrl ms, has_meta ms, has_shift ms, base)"
  by (simp add: parseModifiers_def parseModifiers_loop_prefix)

text \<open>
  \<open>parseModifiers\<close> splits a key name into the longest run of modifier prefixes, in any order, with
  repetitions and in either case, and the base name after it; each flag says whether its modifier occurs.
\<close>
theorem parseModifiers_iff:
  "parseModifiers key = (ctrl, meta, shift, base) \<longleftrightarrow>
     (\<exists>ms. key = modifier_prefix ms @ base \<and> list_all is_modifier ms \<and> unprefixed base \<and>
        ctrl = has_ctrl ms \<and> meta = has_meta ms \<and> shift = has_shift ms)"
proof -
  obtain ms b where key: "key = modifier_prefix ms @ b" and ms: "list_all is_modifier ms" "unprefixed b"
    using modifier_split by blast
  then have parse: "parseModifiers key = (has_ctrl ms, has_meta ms, has_shift ms, b)"
    by (simp add: modifier_prefix_parse)
  show ?thesis
  proof
    assume "parseModifiers key = (ctrl, meta, shift, base)"
    with parse have "ctrl = has_ctrl ms" "meta = has_meta ms" "shift = has_shift ms" "base = b"
      by simp_all
    with key ms show "\<exists>ms. key = modifier_prefix ms @ base \<and> list_all is_modifier ms \<and>
        unprefixed base \<and> ctrl = has_ctrl ms \<and> meta = has_meta ms \<and> shift = has_shift ms"
      by blast
  qed (auto simp: modifier_prefix_parse)
qed

section \<open>Modified special keys\<close>

text \<open>
  The xterm rule, as a function of the sequence of the unmodified key: the modifier digit goes in
  front of a final \<open>~\<close>, and after a parameter \<open>1\<close> that \<open>CSI X\<close> and \<open>SS3 X\<close> do not write.
\<close>

definition xterm_modified :: "char \<Rightarrow> string \<Rightarrow> string" where
  "xterm_modified d seq =
     (let params = drop 2 seq in
      if last params = CHR ''~'' then esc (''['' @ butlast params @ [CHR '';'', d, CHR ''~''])
      else esc (''[1;'' @ d # params))"

definition modifier_digit :: "bool \<Rightarrow> bool \<Rightarrow> bool \<Rightarrow> char" where
  "modifier_digit ctrl meta shift = digit_char (nat (xtermModParam ctrl meta shift))"

lemma Itoa_modParam: "Itoa (xtermModParam ctrl meta shift) = [modifier_digit ctrl meta shift]"
  by (simp add: xtermModParam_def modifier_digit_def Itoa_def nat_digits.simps)

fun xterm_row :: "string \<times> modifiableKeyInfo \<Rightarrow> bool" where
  "xterm_row (k, info) \<longleftrightarrow>
     (case map_of specialKeys k of
        None \<Rightarrow> False
      | Some seq \<Rightarrow>
          (if paramStyle info = ''csi_tilde'' then seq = esc (''['' @ num info @ ''~'')
           else (paramStyle info = ''csi_letter'' \<and> seq = esc [CHR ''['', letter info] \<or>
                 paramStyle info = ''ss3_to_csi'' \<and> seq = esc [CHR ''O'', letter info]) \<and>
                letter info \<noteq> CHR ''~'' \<and> of_char (letter info) < (128 :: nat)))"

lemma modifiableKeys_rows: "list_all xterm_row modifiableKeys"
  by code_simp

lemma specialKeys_unprefixed: "list_all (\<lambda>(k, seq). unprefixed k \<and> 2 \<le> length k) specialKeys"
  by code_simp

lemma specialKeys_prefix_None:
  assumes "list_all is_modifier ms" "ms \<noteq> []"
  shows "map_of specialKeys (modifier_prefix ms @ base) = None"
proof -
  have "\<not> unprefixed (modifier_prefix ms @ base)"
    using assms by (cases ms) simp_all
  with specialKeys_unprefixed show ?thesis
    by (auto simp: map_of_eq_None_iff list_all_iff)
qed

lemma specialKeys_char_None: "map_of specialKeys [c] = None"
  using specialKeys_unprefixed by (fastforce simp: map_of_eq_None_iff list_all_iff)

lemma modifiable_row: "map_of modifiableKeys k = Some info \<Longrightarrow> xterm_row (k, info)"
  using modifiableKeys_rows map_of_SomeD [of modifiableKeys k info] unfolding list_all_iff by blast

lemma modifiable_special:
  assumes "map_of modifiableKeys k = Some info"
  shows "\<exists>seq. map_of specialKeys k = Some seq \<and> unprefixed k \<and> 2 \<le> length k"
proof -
  obtain seq where "map_of specialKeys k = Some seq"
    using modifiable_row [OF assms] by (auto split: option.splits)
  with specialKeys_unprefixed show ?thesis
    by (auto dest!: map_of_SomeD simp: list_all_iff)
qed

lemma modifiableKeys_char_None: "map_of modifiableKeys [c] = None"
  using modifiable_special [of "[c]"] by (cases "map_of modifiableKeys [c]") auto

lemma ExpandSpecialKey_modified:
  assumes "list_all is_modifier ms" "ms \<noteq> []" "unprefixed base"
  shows "ExpandSpecialKey (modifier_prefix ms @ base) =
    (case map_of modifiableKeys base of
       Some info \<Rightarrow>
         buildModifiedSequence info (xtermModParam (has_ctrl ms) (has_meta ms) (has_shift ms))
     | None \<Rightarrow> expandBaseKey base (has_ctrl ms) (has_meta ms) (has_shift ms))"
  using assms modifiers_present [of ms]
  by (auto simp: ExpandSpecialKey_def specialKeys_prefix_None modifier_prefix_parse)

lemma ExpandSpecialKey_xterm:
  assumes "list_all is_modifier ms" "ms \<noteq> []" "map_of modifiableKeys k = Some info"
  shows "ExpandSpecialKey (modifier_prefix ms @ k) =
    buildModifiedSequence info (xtermModParam (has_ctrl ms) (has_meta ms) (has_shift ms))"
  using assms modifiable_special [OF assms(3)] by (auto simp: ExpandSpecialKey_modified)

text \<open>
  C36: A cursor, editing or function key with modifiers expands to the xterm encoding of its own
  unmodified sequence with the digit of the modifier set, whatever the order and case of the prefixes.
\<close>
theorem ExpandSpecialKey_xterm_rule:
  assumes "list_all is_modifier ms" "ms \<noteq> []" "k \<in> fst ` set modifiableKeys"
  shows "ExpandSpecialKey (modifier_prefix ms @ k) =
    xterm_modified (modifier_digit (has_ctrl ms) (has_meta ms) (has_shift ms)) (ExpandSpecialKey k)"
proof -
  from assms(3) obtain info where info: "map_of modifiableKeys k = Some info"
    by (metis map_of_eq_None_iff not_None_eq)
  then obtain seq where "map_of specialKeys k = Some seq"
    using modifiable_special by blast
  with modifiable_row [OF info] show ?thesis
    unfolding ExpandSpecialKey_xterm [OF assms(1,2) info]
    by (auto simp: ExpandSpecialKey_def buildModifiedSequence_def Itoa_modParam xterm_modified_def
        esc_def Let_def encode_rune_ascii last_append split: if_splits)
qed

theorem ExpandSpecialKey_xterm_rule_witness:
  "ExpandSpecialKey ''s-C-F5'' = xterm_modified (CHR ''6'') (ExpandSpecialKey ''F5'')"
  using ExpandSpecialKey_xterm_rule [of "''sC''" "''F5''"]
  by (simp add: is_modifier_def modifiableKeys_def modifier_digit_def xtermModParam_def)

lemma modifier_digit_inject:
  "modifier_digit c1 m1 s1 = modifier_digit c2 m2 s2 \<longleftrightarrow> c1 = c2 \<and> m1 = m2 \<and> s1 = s2"
  by (cases c1; cases m1; cases s1; cases c2; cases m2; cases s2)
     (simp_all add: modifier_digit_def xtermModParam_def)

text \<open>The parameter and the final byte that identify a row of the table.\<close>

definition row_id :: "modifiableKeyInfo \<Rightarrow> string \<times> char" where
  "row_id info =
     (if paramStyle info = ''csi_tilde'' then (num info, CHR ''~'') else (''1'', letter info))"

lemma row_id_sequence:
  "xterm_row (k, info) \<Longrightarrow>
     buildModifiedSequence info (xtermModParam ctrl meta shift) =
       esc (''['' @ fst (row_id info) @ [CHR '';'', modifier_digit ctrl meta shift, snd (row_id info)])"
  by (auto simp: buildModifiedSequence_def Itoa_modParam row_id_def encode_rune_ascii
      split: option.splits if_splits)

fun row_letter :: "string \<times> modifiableKeyInfo \<Rightarrow> bool" where
  "row_letter (k, info) \<longleftrightarrow>
     (if paramStyle info = ''csi_letter'' then letter info \<in> set ''ABCDFH''
      else if paramStyle info = ''ss3_to_csi'' then letter info \<in> set ''PQRS''
      else True)"

lemma row_letters: "list_all row_letter modifiableKeys"
  by code_simp

lemma modifiable_letter: "map_of modifiableKeys k = Some info \<Longrightarrow> row_letter (k, info)"
  using row_letters map_of_SomeD [of modifiableKeys k info] unfolding list_all_iff by blast

lemma row_id_special:
  assumes "map_of modifiableKeys k1 = Some i1" "map_of modifiableKeys k2 = Some i2"
  shows "row_id i1 = row_id i2 \<longleftrightarrow> map_of specialKeys k1 = map_of specialKeys k2"
proof -
  have "letter i1 = letter i2 \<Longrightarrow> \<not> (paramStyle i1 = ''csi_letter'' \<and> paramStyle i2 = ''ss3_to_csi'')"
    "letter i1 = letter i2 \<Longrightarrow> \<not> (paramStyle i1 = ''ss3_to_csi'' \<and> paramStyle i2 = ''csi_letter'')"
    using assms [THEN modifiable_letter] by auto
  with assms [THEN modifiable_row] show ?thesis
    by (auto simp: row_id_def esc_def append_eq_Cons_conv split: option.splits if_splits)
qed

lemma snoc3_eq: "xs @ [a, b, c] = ys @ [a', b', c'] \<longleftrightarrow> xs = ys \<and> a = a' \<and> b = b' \<and> c = c'"
  using append1_eq_conv [of "xs @ [a, b]" c "ys @ [a', b']" c']
    append1_eq_conv [of "xs @ [a]" b "ys @ [a']" b'] by auto

text \<open>
  C35: The bytes sent for a modified key identify it: two of them are equal exactly when the two keys
  are aliases, that is, have the same unmodified sequence, and the modifier sets are the same.
\<close>
theorem ExpandSpecialKey_injective:
  assumes "list_all is_modifier ms1" "ms1 \<noteq> []" "k1 \<in> fst ` set modifiableKeys"
    and "list_all is_modifier ms2" "ms2 \<noteq> []" "k2 \<in> fst ` set modifiableKeys"
  shows "ExpandSpecialKey (modifier_prefix ms1 @ k1) = ExpandSpecialKey (modifier_prefix ms2 @ k2) \<longleftrightarrow>
    map_of specialKeys k1 = map_of specialKeys k2 \<and>
    has_ctrl ms1 = has_ctrl ms2 \<and> has_meta ms1 = has_meta ms2 \<and> has_shift ms1 = has_shift ms2"
proof -
  from assms(3,6) obtain i1 i2 where i: "map_of modifiableKeys k1 = Some i1"
      "map_of modifiableKeys k2 = Some i2"
    by (metis map_of_eq_None_iff not_None_eq)
  from row_id_special [OF i] show ?thesis
    unfolding ExpandSpecialKey_xterm [OF assms(1,2) i(1)] ExpandSpecialKey_xterm [OF assms(4,5) i(2)]
      row_id_sequence [OF modifiable_row [OF i(1)]] row_id_sequence [OF modifiable_row [OF i(2)]]
    by (auto simp: esc_def snoc3_eq modifier_digit_inject prod_eq_iff)
qed

theorem ExpandSpecialKey_injective_witness:
  "ExpandSpecialKey ''C-S-PgDn'' = ExpandSpecialKey ''s-C-NPage'' \<and>
   ExpandSpecialKey ''C-S-PgDn'' \<noteq> ExpandSpecialKey ''C-PgDn''"
  using ExpandSpecialKey_injective [of "''CS''" "''PgDn''" "''sC''" "''NPage''"]
    ExpandSpecialKey_injective [of "''CS''" "''PgDn''" "''C''" "''PgDn''"]
  by (simp add: is_modifier_def modifiableKeys_def specialKeys_def)

section \<open>Modified characters and unknown names\<close>

definition modified_char :: "bool \<Rightarrow> bool \<Rightarrow> char \<Rightarrow> string" where
  "modified_char ctrl shift c =
     (let n = of_char c in
      if ctrl \<and> (is_lower n \<or> is_upper n) then [char_of (n mod 32)]
      else if ctrl \<and> c = CHR ''@'' then [CHR 0x00]
      else if shift \<and> is_lower n then [char_of (n - 32)]
      else encode_rune n)"

lemma expandBaseKey_char:
  "expandBaseKey [c] ctrl meta shift =
     (if meta then esc (modified_char ctrl shift c) else modified_char ctrl shift c)"
proof -
  define n :: nat where "n = of_char c"
  have at: "c = CHR ''@'' \<longleftrightarrow> n = 64"
    by (simp add: n_def flip: of_char_eq_iff [where 'a = nat])
  consider (lower) "is_lower n" | (upper) "is_upper n" | (other) "\<not> is_lower n" "\<not> is_upper n"
    by blast
  then show ?thesis
  proof cases
    case lower
    then have "n mod 32 = n - 96" "encode_rune (n - 97 + 1) = [char_of (n - 96)]"
        "encode_rune (n - 32) = [char_of (n - 32)]" "n - 97 + 65 = n - 32"
      by (auto simp: is_lower_def encode_rune_ascii mod_if Suc_diff_le numeral_eq_Suc)
    with lower show ?thesis
      by (auto simp: expandBaseKey_def specialKeys_char_None modified_char_def Let_def n_def [symmetric]
          is_lower_def is_upper_def at)
  next
    case upper
    then have "n mod 32 = n - 64" "encode_rune (n - 65 + 1) = [char_of (n - 64)]"
      by (auto simp: is_upper_def encode_rune_ascii mod_if Suc_diff_le numeral_eq_Suc)
    with upper show ?thesis
      by (auto simp: expandBaseKey_def specialKeys_char_None modified_char_def Let_def n_def [symmetric]
          is_lower_def is_upper_def at)
  next
    case other
    then show ?thesis
      by (auto simp: expandBaseKey_def specialKeys_char_None modified_char_def Let_def n_def [symmetric] at)
  qed
qed

text \<open>
  A single byte with modifiers: control maps a letter of either case to its control code and
  \<open>@\<close> to NUL and leaves any other byte as it is, shift without control upper-cases a letter, and meta
  puts an escape in front.
\<close>
theorem ExpandSpecialKey_char:
  assumes "list_all is_modifier ms" "ms \<noteq> []"
  shows "ExpandSpecialKey (modifier_prefix ms @ [c]) =
    (if has_meta ms then esc '''' else '''') @ modified_char (has_ctrl ms) (has_shift ms) c"
  using assms
  by (simp add: ExpandSpecialKey_modified modifiableKeys_char_None expandBaseKey_char esc_def)

theorem ExpandSpecialKey_char_witness:
  "ExpandSpecialKey ''C-c'' = [CHR 0x03] \<and> ExpandSpecialKey ''m-S-x'' = esc ''X''"
proof -
  have "modified_char True False (CHR ''c'') = [CHR 0x03]" "modified_char False True (CHR ''x'') = ''X''"
    by code_simp+
  then show ?thesis
    using ExpandSpecialKey_char [of "''C''" "CHR ''c''"] ExpandSpecialKey_char [of "''mS''" "CHR ''x''"]
    by (simp add: is_modifier_def esc_def)
qed

text \<open>
  A name that no table knows comes back with its modifiers in the fixed order \<open>C-M-S-\<close> and in
  upper case, not as it was typed: the name is only returned unchanged when it is already written so.
\<close>
theorem ExpandSpecialKey_unknown:
  assumes "list_all is_modifier ms" "ms \<noteq> []" "unprefixed base" "length base \<noteq> 1"
    and "map_of specialKeys base = None"
  shows "ExpandSpecialKey (modifier_prefix ms @ base) =
    (if has_ctrl ms then ''C-'' else '''') @ (if has_meta ms then ''M-'' else '''') @
    (if has_shift ms then ''S-'' else '''') @ base"
proof -
  have "map_of modifiableKeys base = None"
    using modifiable_special [of base] assms(5) by (cases "map_of modifiableKeys base") auto
  then have "ExpandSpecialKey (modifier_prefix ms @ base) =
      expandBaseKey base (has_ctrl ms) (has_meta ms) (has_shift ms)"
    using assms(1-3) by (simp add: ExpandSpecialKey_modified)
  also have "\<dots> = rebuildKeyName (has_ctrl ms) (has_meta ms) (has_shift ms) base"
  proof (cases base)
    case (Cons c cs)
    with assms(4) obtain d ds where "cs = d # ds" by (cases cs) auto
    with Cons assms(5) show ?thesis by (simp add: expandBaseKey_def)
  qed (use assms(5) in \<open>simp add: expandBaseKey_def\<close>)
  finally show ?thesis by (simp add: rebuildKeyName_def)
qed

theorem ExpandSpecialKey_unknown_witness:
  "ExpandSpecialKey ''c-sharp'' = ''C-sharp'' \<and> ExpandSpecialKey ''S-C-S-x11'' = ''C-S-x11''"
  using ExpandSpecialKey_unknown [of "''c''" "''sharp''"] ExpandSpecialKey_unknown [of "''SCS''" "''x11''"]
  by (simp add: is_modifier_def specialKeys_def)

section \<open>The arguments of one send-keys\<close>

lemma BuildSendKeysData_loop_concat:
  "BuildSendKeysData_loop b args literal =
     b @ concat (map (if literal then (\<lambda>a. a) else ExpandSpecialKey) args)"
  by (induction b args literal rule: BuildSendKeysData_loop.induct) simp_all

lemma BuildSendKeysData_concat:
  "BuildSendKeysData args literal = concat (map (if literal then (\<lambda>a. a) else ExpandSpecialKey) args)"
  by (simp add: BuildSendKeysData_def BuildSendKeysData_loop_concat)

text \<open>
  The data of a \<open>send-keys\<close> is the concatenation of its arguments, each expanded on its own, or
  taken as it is in literal mode; so splitting the arguments over two calls sends the same bytes.
\<close>
theorem BuildSendKeysData_append:
  "BuildSendKeysData (xs @ ys) literal = BuildSendKeysData xs literal @ BuildSendKeysData ys literal \<and>
   BuildSendKeysData xs True = concat xs \<and>
   BuildSendKeysData [a] False = ExpandSpecialKey a"
  by (simp add: BuildSendKeysData_concat)

text \<open>
  Text that names no special key and does not start with a modifier prefix reaches the pane
  byte by byte, also without the literal flag.
\<close>
theorem BuildSendKeysData_text:
  assumes "\<And>a. a \<in> set args \<Longrightarrow> map_of specialKeys a = None \<and> unprefixed a"
  shows "BuildSendKeysData args False = concat args"
proof -
  have "ExpandSpecialKey a = a" if "a \<in> set args" for a
    using assms [OF that]
    by (simp add: ExpandSpecialKey_def parseModifiers_def parseModifiers_loop_base)
  then have "map ExpandSpecialKey args = args"
    by (rule map_idI)
  then show ?thesis
    by (simp add: BuildSendKeysData_concat)
qed

theorem BuildSendKeysData_text_witness:
  "BuildSendKeysData [''echo '', ''x-y''] False = ''echo x-y''"
proof -
  have "map_of specialKeys ''echo '' = None" "map_of specialKeys ''x-y'' = None"
    by code_simp+
  then have "\<And>a. a \<in> set [''echo '', ''x-y''] \<Longrightarrow> map_of specialKeys a = None \<and> unprefixed a"
    by (auto simp: is_modifier_def)
  from BuildSendKeysData_text [of "[''echo '', ''x-y'']", OF this] show ?thesis by simp
qed

end
