(* ===== verification/Json_Codec.thy ===== *)
theory Json_Codec
  imports Json
begin

text \<open>
  Escaping and unquoting are inverse: for every string, the scanner reads the escaped text of the string as
  one literal, whose value is the string with its invalid UTF-8 replaced by U+FFFD.
\<close>

section \<open>UTF-8: encoding a decoded rune gives the bytes back\<close>

lemma low_bits:
  fixes a x :: nat
  assumes "128 \<le> x" "x \<le> 191"
  shows "(a * 64 + (x - 128)) div 64 = a" "(a * 64 + (x - 128)) mod 64 = x - 128"
proof -
  obtain k where "k = x - 128" "k < 64" using assms by simp
  then show "(a * 64 + (x - 128)) div 64 = a" "(a * 64 + (x - 128)) mod 64 = x - 128"
    by auto
qed

lemma rune2_valid:
  assumes "194 \<le> b" "b < 224" "rune2 b cs = (r, w)" "\<not> (r = RuneError \<and> w = 1)"
  shows "\<exists>c1 t. cs = c1 # t \<and> w = 2 \<and> encode_rune r = [char_of b, c1] \<and>
    (\<forall>u. rune2 b (c1 # u) = (r, w))"
proof (cases "(b, cs)" rule: rune2.cases)
  case (1 b0 c1 t)
  define x where "x = (of_char c1 :: nat)"
  from 1 assms have x: "128 \<le> x" "x \<le> 191" and r: "r = (b - 192) * 64 + (x - 128)" and w: "w = 2"
    by (auto simp: byte_in_def low6_def x_def split: if_splits)
  have "r div 64 = b - 192" "r mod 64 = x - 128" using x unfolding r by (rule low_bits)+
  moreover have "128 \<le> r" "r < 2048" using assms(1,2) x unfolding r by linarith+
  ultimately have "encode_rune r = [char_of b, char_of x]"
    using assms(1,2) x by (simp add: encode_rune_def)
  moreover have "char_of x = c1" by (simp add: x_def)
  ultimately show ?thesis using 1 assms w r x by (auto simp: byte_in_def x_def low6_def)
qed (use assms in auto)

lemma rune3_valid:
  assumes "224 \<le> b" "b < 240" "rune3 b cs = (r, w)" "\<not> (r = RuneError \<and> w = 1)"
  shows "\<exists>c1 c2 t. cs = c1 # c2 # t \<and> w = 3 \<and> encode_rune r = [char_of b, c1, c2] \<and>
    (\<forall>u. rune3 b (c1 # c2 # u) = (r, w))"
proof (cases "(b, cs)" rule: rune3.cases)
  case (1 b0 c1 c2 t)
  define x where "x = (of_char c1 :: nat)"
  define y where "y = (of_char c2 :: nat)"
  from 1 assms have x: "(if b = 224 then 160 else 128) \<le> x" "x \<le> (if b = 237 then 159 else 191)"
      and y: "128 \<le> y" "y \<le> 191" and w: "w = 3"
      and r: "r = ((b - 224) * 64 + (x - 128)) * 64 + (y - 128)"
    by (auto simp: byte_in_def low6_def x_def y_def algebra_simps split: if_splits)
  have x': "128 \<le> x" "x \<le> 191" using x by (auto split: if_splits)
  have dm: "r div 64 = (b - 224) * 64 + (x - 128)" "r mod 64 = y - 128"
    using y unfolding r by (rule low_bits)+
  have "r div 4096 = r div 64 div 64" by (simp add: div_mult2_eq [symmetric])
  then have d: "r div 4096 = b - 224" "r div 64 mod 64 = x - 128"
    using x' unfolding dm(1) by (simp_all only: low_bits)
  have range: "2048 \<le> r" "r < 65536" "\<not> (55296 \<le> r \<and> r \<le> 57343)"
  proof -
    consider "b = 224" | "b = 237" | "225 \<le> b" "b \<le> 236" | "238 \<le> b" "b \<le> 239"
      using assms(1,2) by linarith
    then have "2048 \<le> r \<and> r < 65536 \<and> \<not> (55296 \<le> r \<and> r \<le> 57343)"
      by cases (use x x' y in \<open>simp add: r; linarith\<close>)+
    then show "2048 \<le> r" "r < 65536" "\<not> (55296 \<le> r \<and> r \<le> 57343)" by auto
  qed
  have "encode_rune r = [char_of b, char_of x, char_of y]"
    using range assms(1,2) x' y by (auto simp: encode_rune_def d dm(2))
  moreover have "char_of x = c1" "char_of y = c2" by (simp_all add: x_def y_def)
  ultimately show ?thesis using 1 assms(3) w by auto
qed (use assms in auto)

lemma rune4_valid:
  assumes "240 \<le> b" "b < 245" "rune4 b cs = (r, w)" "\<not> (r = RuneError \<and> w = 1)"
  shows "\<exists>c1 c2 c3 t. cs = c1 # c2 # c3 # t \<and> w = 4 \<and> encode_rune r = [char_of b, c1, c2, c3] \<and>
    (\<forall>u. rune4 b (c1 # c2 # c3 # u) = (r, w))"
proof (cases "(b, cs)" rule: rune4.cases)
  case (1 b0 c1 c2 c3 t)
  define x where "x = (of_char c1 :: nat)"
  define y where "y = (of_char c2 :: nat)"
  define z where "z = (of_char c3 :: nat)"
  from 1 assms have x: "(if b = 240 then 144 else 128) \<le> x" "x \<le> (if b = 244 then 143 else 191)"
      and yz: "128 \<le> y" "y \<le> 191" "128 \<le> z" "z \<le> 191" and w: "w = 4"
      and r: "r = (((b - 240) * 64 + (x - 128)) * 64 + (y - 128)) * 64 + (z - 128)"
    by (auto simp: byte_in_def low6_def x_def y_def z_def algebra_simps split: if_splits)
  have x': "128 \<le> x" "x \<le> 191" using x by (auto split: if_splits)
  have d1: "r div 64 = ((b - 240) * 64 + (x - 128)) * 64 + (y - 128)" "r mod 64 = z - 128"
    using yz(3,4) unfolding r by (rule low_bits)+
  have "r div 4096 = r div 64 div 64" by (simp add: div_mult2_eq [symmetric])
  then have d2: "r div 4096 = (b - 240) * 64 + (x - 128)" "r div 64 mod 64 = y - 128"
    using yz(1,2) unfolding d1(1) by (simp_all only: low_bits)
  have "r div 262144 = r div 4096 div 64" by (simp add: div_mult2_eq [symmetric])
  then have d3: "r div 262144 = b - 240" "r div 4096 mod 64 = x - 128"
    using x' unfolding d2(1) by (simp_all only: low_bits)
  have range: "65536 \<le> r" "r \<le> 1114111"
  proof -
    consider "b = 240" | "b = 244" | "241 \<le> b" "b \<le> 243"
      using assms(1,2) by linarith
    then have "65536 \<le> r \<and> r \<le> 1114111"
      by cases (use x x' yz in \<open>simp add: r; linarith\<close>)+
    then show "65536 \<le> r" "r \<le> 1114111" by auto
  qed
  have "encode_rune r = [char_of b, char_of x, char_of y, char_of z]"
    using range assms(1,2) x' yz by (auto simp: encode_rune_def d1(2) d2(2) d3)
  moreover have "char_of x = c1" "char_of y = c2" "char_of z = c3" by (simp_all add: x_def y_def z_def)
  ultimately show ?thesis using 1 assms(3) w by auto
qed (use assms in auto)

lemma decode_rune_valid:
  assumes "decode_rune s = (r, w)" "s \<noteq> []" "\<not> (r = RuneError \<and> w = 1)"
  shows "encode_rune r = take w s \<and> w \<le> length s \<and> (\<forall>u. decode_rune (take w s @ u) = (r, w))"
proof -
  obtain c0 cs where s: "s = c0 # cs" using assms(2) by (cases s) auto
  define b where "b = (of_char c0 :: nat)"
  have c0: "char_of b = c0" by (simp add: b_def)
  consider "b < 128" | "194 \<le> b" "b < 224" "rune2 b cs = (r, w)" | "224 \<le> b" "b < 240" "rune3 b cs = (r, w)"
    | "240 \<le> b" "b < 245" "rune4 b cs = (r, w)"
    using assms(1,3) by (auto simp: s Let_def b_def split: if_splits)
  then show ?thesis
  proof cases
    case 1
    then have "r = b" "w = 1" using assms(1) by (simp_all add: s Let_def b_def)
    with 1 c0 show ?thesis by (simp add: s encode_rune_ascii Let_def flip: b_def)
  next
    case 2
    from rune2_valid [OF 2 assms(3)] 2 show ?thesis by (auto simp: s Let_def b_def)
  next
    case 3
    from rune3_valid [OF 3 assms(3)] 3 show ?thesis by (auto simp: s Let_def b_def numeral_3_eq_3)
  next
    case 4
    from rune4_valid [OF 4 assms(3)] 4 show ?thesis by (auto simp: s Let_def b_def eval_nat_numeral)
  qed
qed

lemma to_valid_utf8_step:
  "s \<noteq> [] \<Longrightarrow> decode_rune s = (r, w) \<Longrightarrow>
     to_valid_utf8 s = encode_rune r @ to_valid_utf8 (drop w s)"
  by (simp add: to_valid_utf8_def runes.simps [of s])

lemma to_valid_utf8_Nil [simp]: "to_valid_utf8 [] = []"
  by (simp add: to_valid_utf8_def)

lemma to_valid_utf8_id: "valid_utf8 s \<Longrightarrow> to_valid_utf8 s = s"
proof (induction s rule: valid_utf8.induct)
  case (1 s)
  show ?case
  proof (cases "s = []")
    case False
    obtain r w where d: "decode_rune s = (r, w)" by (cases "decode_rune s")
    with 1(2) False have ok: "\<not> (r = RuneError \<and> w = 1)" "valid_utf8 (drop w s)"
      by (simp_all add: valid_utf8.simps [of s] split: if_splits)
    with 1(1) [OF False _ d [symmetric]] d have "to_valid_utf8 (drop w s) = drop w s" by auto
    with decode_rune_valid [OF d False ok(1)] to_valid_utf8_step [OF False d] show ?thesis
      by simp
  qed simp
qed

lemma valid_utf8_ascii: "list_all (\<lambda>c. of_char c < (128 :: nat)) s \<Longrightarrow> valid_utf8 s"
proof (induction s)
  case (Cons c s)
  then show ?case by (subst valid_utf8.simps) (simp add: Let_def RuneError_def)
qed (subst valid_utf8.simps, simp)

section \<open>Unquoting undoes escaping\<close>

lemma hex_value_digit: "d < 16 \<Longrightarrow> hex_value (hex_digit d) = Some d"
  by (auto simp: hex_value_def hex_digit_def of_char_digit_char Let_def)

lemma getu4_digits:
  assumes "a < 16" "b < 16" "c < 16" "d < 16"
  shows "getu4 (CHR 0x5C # CHR ''u'' # hex_digit a # hex_digit b # hex_digit c # hex_digit d # t) =
    Some (a * 4096 + b * 256 + c * 16 + d)"
  using assms by (simp add: getu4_def hex4_def hex_value_digit)

lemma unquote_u_digits:
  assumes "a < 16" "b < 16" "c < 16" "d < 16" "r = a * 4096 + b * 256 + c * 16 + d" "\<not> is_surrogate r"
  shows "unquote (CHR 0x5C # CHR ''u'' # hex_digit a # hex_digit b # hex_digit c # hex_digit d # t) =
    encode_rune r @ unquote t"
proof -
  have "unquote_u (CHR 0x5C # CHR ''u'' # hex_digit a # hex_digit b # hex_digit c # hex_digit d # t) =
      (r, 6)"
    using assms by (simp add: unquote_u_def getu4_digits)
  then show ?thesis by (subst unquote.simps) simp
qed

lemma unquote_escape:
  "e \<noteq> CHR ''u'' \<Longrightarrow> unquote (CHR 0x5C # e # t) = unescape e # unquote t"
  by (subst unquote.simps) simp

lemma unquote_plain:
  "c \<noteq> CHR 0x5C \<Longrightarrow> of_char c < (128 :: nat) \<Longrightarrow> unquote (c # t) = c # unquote t"
  by (subst unquote.simps) simp

lemma char_code_iff: "c = d \<longleftrightarrow> (of_char c :: nat) = of_char d"
  by simp

definition plain_byte :: "char \<Rightarrow> bool" where
  "plain_byte c \<longleftrightarrow> c \<noteq> CHR 0x22 \<and> c \<noteq> CHR 0x5C \<and> 32 \<le> (of_char c :: nat)"

lemma escape_ascii_cases:
  obtains (esc) e where "escape_ascii c = [CHR 0x5C, e]" "e \<in> set ''bfnrt'' \<or> e = CHR 0x5C \<or> e = CHR 0x22"
      "unescape e = c"
  | (hex) "escape_ascii c = [CHR 0x5C, CHR ''u'', CHR ''0'', CHR ''0'', hex_digit (of_char c div 16),
      hex_digit (of_char c mod 16)]"
  | (plain) "escape_ascii c = [c]" "plain_byte c"
proof -
  have "(\<exists>e. escape_ascii c = [CHR 0x5C, e] \<and> (e \<in> set ''bfnrt'' \<or> e = CHR 0x5C \<or> e = CHR 0x22) \<and> unescape e = c) \<or>
    escape_ascii c = [CHR 0x5C, CHR ''u'', CHR ''0'', CHR ''0'', hex_digit (of_char c div 16),
      hex_digit (of_char c mod 16)] \<or> escape_ascii c = [c] \<and> plain_byte c"
  proof (cases "c \<in> set [CHR 0x22, CHR 0x5C, CHR 0x08, CHR 0x0C, CHR 0x0A, CHR 0x0D, CHR 0x09]")
    case True
    then consider "c = CHR 0x22" | "c = CHR 0x5C" | "c = CHR 0x08" | "c = CHR 0x0C" | "c = CHR 0x0A"
      | "c = CHR 0x0D" | "c = CHR 0x09" by auto
    then show ?thesis by cases (simp_all add: escape_ascii_def unescape_def)
  next
    case False
    then show ?thesis by (simp add: escape_ascii_def plain_byte_def Let_def)
  qed
  with that show thesis by blast
qed

lemma unquote_escape_ascii:
  assumes "of_char c < (128 :: nat)"
  shows "unquote (escape_ascii c @ t) = c # unquote t"
proof (cases c rule: escape_ascii_cases)
  case hex
  define n :: nat where "n = of_char c"
  have "hex_digit 0 = CHR ''0''" by (simp add: hex_digit_def)
  moreover have "n div 16 < 16" "n mod 16 < 16" using assms by (simp_all add: n_def)
  moreover have "\<not> is_surrogate n" using assms by (simp add: n_def is_surrogate_def)
  ultimately have "unquote (escape_ascii c @ t) = encode_rune n @ unquote t"
    using unquote_u_digits [of 0 0 "n div 16" "n mod 16" n t] hex by (simp add: n_def)
  with assms show ?thesis by (simp add: encode_rune_ascii n_def)
next
  case esc
  then show ?thesis by (auto simp: unquote_escape)
qed (simp add: unquote_plain assms plain_byte_def)

lemma hex_digit_letters:
  "hex_digit 2 = CHR ''2''" "hex_digit 0 = CHR ''0''" "hex_digit 15 = CHR ''f''" "hex_digit 13 = CHR ''d''"
  by (code_simp+)

lemma unquote_rune:
  assumes "decode_rune s = (r, w)" "s \<noteq> []" "\<not> (r = RuneError \<and> w = 1)" "128 \<le> (of_char (hd s) :: nat)"
  shows "unquote (take w s @ t) = encode_rune r @ unquote t"
proof -
  note d = decode_rune_valid [OF assms(1-3)]
  have "1 \<le> w" using decode_rune_width [OF assms(2)] assms(1) by simp
  with assms(2) obtain cs where cs: "take w s @ t = hd s # cs" by (cases s; cases w) auto
  have "hd s \<noteq> CHR 0x5C" using assms(4) by auto
  then have "unquote (hd s # cs) = (let (r, w) = decode_rune (hd s # cs) in encode_rune r @ unquote (drop w (hd s # cs)))"
    using assms(4) by (subst unquote.simps) simp
  then show ?thesis
    using d by (simp flip: cs)
qed

text \<open>One step of escaping on a non-ASCII byte: the text written for a rune, and what it unquotes to.\<close>

definition escape_rune :: "nat \<Rightarrow> nat \<Rightarrow> string \<Rightarrow> string" where
  "escape_rune r w s =
     (if r = RuneError \<and> w = 1 then CHR 0x5C # ''ufffd''
      else if r = 8232 \<or> r = 8233 then CHR 0x5C # ''u202'' @ [hex_digit (r mod 16)]
      else take w s)"

lemma escape_json_Nil [simp]: "escape_json [] = []"
  by (simp add: escape_json.simps)

lemma escape_json_ascii: "of_char c < (128 :: nat) \<Longrightarrow> escape_json (c # s) = escape_ascii c @ escape_json s"
  by (subst escape_json.simps) simp

lemma escape_json_rune:
  "128 \<le> (of_char c :: nat) \<Longrightarrow> decode_rune (c # s) = (r, w) \<Longrightarrow>
     escape_json (c # s) = escape_rune r w (c # s) @ escape_json (drop w (c # s))"
  by (subst escape_json.simps) (simp add: escape_rune_def)

lemma unquote_escape_rune:
  assumes "decode_rune (c # s) = (r, w)" "128 \<le> (of_char c :: nat)"
  shows "unquote (escape_rune r w (c # s) @ t) = encode_rune r @ unquote t"
proof -
  consider (bad) "r = RuneError" "w = 1" | (sep) "r = 8232 \<or> r = 8233" "\<not> (r = RuneError \<and> w = 1)"
    | (ok) "\<not> (r = RuneError \<and> w = 1)" "r \<noteq> 8232" "r \<noteq> 8233" by blast
  then show ?thesis
  proof cases
    case bad
    then show ?thesis
      using unquote_u_digits [of 15 15 15 13 RuneError t]
      by (simp add: escape_rune_def hex_digit_letters RuneError_def is_surrogate_def)
  next
    case sep
    then have "r mod 16 < 16" "r = 2 * 4096 + 0 * 256 + 2 * 16 + r mod 16" "\<not> is_surrogate r"
      by (auto simp: is_surrogate_def)
    then show ?thesis
      using unquote_u_digits [of 2 0 2 "r mod 16" r t] sep
      by (auto simp: escape_rune_def hex_digit_letters RuneError_def)
  next
    case ok
    then show ?thesis using unquote_rune [OF assms(1) _ ok(1)] assms(2) by (auto simp: escape_rune_def)
  qed
qed

lemma unquote_Nil [simp]: "unquote [] = []"
  by (simp add: unquote.simps)

text \<open>The two cases of every induction along the text: an ASCII byte, or a rune of some width.\<close>

lemma rune_induct [case_names Nil Ascii Rune]:
  assumes "P []"
    and "\<And>c s. of_char c < (128 :: nat) \<Longrightarrow> P s \<Longrightarrow> P (c # s)"
    and "\<And>c s r w. 128 \<le> (of_char c :: nat) \<Longrightarrow> decode_rune (c # s) = (r, w) \<Longrightarrow>
           P (drop w (c # s)) \<Longrightarrow> P (c # s)"
  shows "P (s :: string)"
proof (induction s rule: length_induct)
  case (1 s)
  show ?case
  proof (cases s)
    case Nil
    then show ?thesis using assms(1) by simp
  next
    case (Cons c cs)
    obtain r w where d: "decode_rune (c # cs) = (r, w)" by (cases "decode_rune (c # cs)")
    moreover have "1 \<le> w" using decode_rune_width [of "c # cs"] d by simp
    ultimately show ?thesis
      using 1 Cons assms(2) [of c cs] assms(3) [of c cs r w]
      by (cases "of_char c < (128 :: nat)") (auto simp: not_less)
  qed
qed

lemma unquote_escape_json: "unquote (escape_json s) = to_valid_utf8 s"
proof (induction s rule: rune_induct)
  case (Ascii c s)
  then have "to_valid_utf8 (c # s) = c # to_valid_utf8 s"
    by (simp add: to_valid_utf8_step [of _ "of_char c" 1] Let_def encode_rune_ascii)
  with Ascii show ?case by (simp add: escape_json_ascii unquote_escape_ascii)
next
  case (Rune c s r w)
  then show ?case
    using to_valid_utf8_step [of "c # s" r w] by (simp add: escape_json_rune unquote_escape_rune)
qed simp

section \<open>Scanning an escaped string\<close>

lemma scan_plain:
  "list_all plain_byte p \<Longrightarrow>
     scan_from (stk, InString raw) (p @ t) = scan_from (stk, InString (rev p @ raw)) t"
  by (induction p arbitrary: raw) (auto simp: plain_byte_def)

lemma scan_hex:
  assumes "hex_value a \<noteq> None" "hex_value b \<noteq> None" "hex_value c \<noteq> None" "hex_value d \<noteq> None"
  shows "scan_from (stk, InString raw) (CHR 0x5C # CHR ''u'' # a # b # c # d # t) =
    scan_from (stk, InString (d # c # b # a # CHR ''u'' # CHR 0x5C # raw)) t"
proof -
  from assms obtain a' b' c' d' where "hex_value a = Some a'" "hex_value b = Some b'"
      "hex_value c = Some c'" "hex_value d = Some d'" by blast
  then show ?thesis by (simp add: numeral_3_eq_3)
qed

lemma scan_escape_ascii:
  assumes "of_char c < (128 :: nat)"
  shows "scan_from (stk, InString raw) (escape_ascii c @ t) =
    scan_from (stk, InString (rev (escape_ascii c) @ raw)) t"
proof (cases c rule: escape_ascii_cases)
  case esc
  then show ?thesis by auto
next
  case hex
  have h: "hex_value (CHR ''0'') \<noteq> None" by code_simp
  have "hex_value (hex_digit (of_char c div 16)) \<noteq> None" "hex_value (hex_digit (of_char c mod 16)) \<noteq> None"
    using assms by (simp_all add: hex_value_digit)
  from scan_hex [OF h h this, of stk raw t] show ?thesis
    unfolding hex by (simp only: append_Cons append_Nil rev.simps)
qed (simp add: scan_plain [of "[c]", simplified])

lemma decode_high_bytes:
  assumes "decode_rune (c # s) = (r, w)" "\<not> (r = RuneError \<and> w = 1)" "128 \<le> (of_char c :: nat)"
  shows "list_all (\<lambda>x. 128 \<le> (of_char x :: nat)) (take w (c # s))"
proof -
  have "encode_rune r = take w (c # s)" using decode_rune_valid [OF assms(1) _ assms(2)] by simp
  moreover have "128 \<le> r" using decode_rune_high [OF assms(3), of s] assms(1) by simp
  then have "list_all (\<lambda>x. 128 \<le> (of_char x :: nat)) (encode_rune r)"
    by (auto simp: encode_rune_def Let_def RuneError_def)
  ultimately show ?thesis by simp
qed

lemma scan_escape_rune:
  assumes "decode_rune (c # s) = (r, w)" "128 \<le> (of_char c :: nat)"
  shows "scan_from (stk, InString raw) (escape_rune r w (c # s) @ t) =
    scan_from (stk, InString (rev (escape_rune r w (c # s)) @ raw)) t"
proof -
  have hex: "hex_value (CHR ''f'') \<noteq> None" "hex_value (CHR ''d'') \<noteq> None" "hex_value (CHR ''2'') \<noteq> None"
      "hex_value (CHR ''0'') \<noteq> None" by (code_simp+)
  have mod: "hex_value (hex_digit (r mod 16)) \<noteq> None" by (simp add: hex_value_digit)
  consider (bad) "r = RuneError" "w = 1" | (sep) "r = 8232 \<or> r = 8233" "\<not> (r = RuneError \<and> w = 1)"
    | (ok) "\<not> (r = RuneError \<and> w = 1)" "r \<noteq> 8232" "r \<noteq> 8233" by blast
  then show ?thesis
  proof cases
    case bad
    then show ?thesis
      using scan_hex [OF hex(1,1,1,2), of stk raw t] by (simp add: escape_rune_def)
  next
    case sep
    then have "escape_rune r w (c # s) = CHR 0x5C # CHR ''u'' # CHR ''2'' # CHR ''0'' # CHR ''2'' # [hex_digit (r mod 16)]"
      by (auto simp: escape_rune_def)
    then show ?thesis
      using scan_hex [OF hex(3,4,3) mod, of stk raw t] by (simp only: append_Cons append_Nil rev.simps append_assoc)
  next
    case ok
    have "list_all plain_byte (take w (c # s))"
      using decode_high_bytes [OF assms(1) ok(1) assms(2)]
      by (rule list.pred_mono_strong) (auto simp: plain_byte_def)
    moreover have "escape_rune r w (c # s) = take w (c # s)" using ok by (auto simp: escape_rune_def)
    ultimately show ?thesis by (simp only: scan_plain)
  qed
qed

lemma scan_escape_json:
  "scan_from (stk, InString raw) (escape_json s @ t) = scan_from (stk, InString (rev (escape_json s) @ raw)) t"
proof (induction s arbitrary: raw rule: rune_induct)
  case (Ascii c s)
  then show ?case by (simp add: escape_json_ascii scan_escape_ascii)
next
  case (Rune c s r w)
  then show ?case by (simp add: escape_json_rune scan_escape_rune)
qed simp

text \<open>The scanner reads a quoted string as one literal with the expected value.\<close>

lemma scan_quote_json:
  "scan_from (stk, InString []) (escape_json s @ CHR 0x22 # t) =
     scan_from (complete_string stk (to_valid_utf8 s)) t"
  by (simp add: scan_escape_json unquote_escape_json)

section \<open>A text cut off inside a value\<close>

lemma scan_at_top: "pre \<noteq> [] \<Longrightarrow> scan_from (stk, AtTop v pre) s = Scanned v (pre @ s)"
  by (cases s) (simp_all add: stops_def)

lemma scan_top_number:
  "scan_from ([], InNumber ns raw) s = Scanned v rest \<Longrightarrow> \<not> is_container v"
proof (induction s arbitrary: ns raw)
  case Nil
  then show ?case by (simp add: stops_def)
next
  case (Cons c s)
  show ?case
  proof (cases "num_step ns c")
    case (Inr next_state)
    with Cons show ?thesis by (cases next_state) (auto simp: scan_at_top)
  qed (use Cons in simp)
qed

text \<open>
  When the whole text is one array or object, every proper prefix of it ends inside the value.
\<close>

lemma scan_prefix:
  assumes "scan_from cfg (p @ q) = Scanned v rest" "is_container v" "length rest < length q"
  shows "\<exists>b. scan_from cfg p = Partial b None"
  using assms(1)
proof (induction p arbitrary: cfg)
  case Nil
  obtain stk st where cfg: "cfg = (stk, st)" by (cases cfg)
  obtain c q' where q: "q = c # q'" using assms(3) by (cases q) auto
  have "\<not> (\<exists>v' pre. st = AtTop v' pre)"
    using Nil assms(3) by (auto simp: cfg q)
  moreover have "\<not> (stk = [] \<and> (\<exists>ns raw. st = InNumber ns raw))"
    using Nil scan_top_number assms(2) by (auto simp: cfg)
  ultimately have "\<not> stops cfg []" "finished cfg = None"
    by (cases st; simp add: cfg stops_def)+
  then show ?case by simp
next
  case (Cons c p)
  then show ?case
    using assms(2,3) by (auto split: jstate.splits sum.splits)
qed

lemma scan_cut:
  assumes "scan_from cfg (p @ q) = Scanned v rest" "is_container v"
  shows "(\<exists>b. scan_from cfg p = Partial b None) \<or> (\<exists>r. scan_from cfg p = Scanned v r)"
  using assms(1)
proof (induction p arbitrary: cfg)
  case Nil
  obtain stk st where cfg: "cfg = (stk, st)" by (cases cfg)
  show ?case
  proof (cases "\<exists>v' pre. st = AtTop v' pre")
    case True
    with Nil assms(2) show ?thesis by (cases q) (auto simp: cfg stops_def split: if_splits)
  next
    case False
    have "\<not> (stk = [] \<and> (\<exists>ns raw. st = InNumber ns raw))"
      using Nil scan_top_number assms(2) by (auto simp: cfg)
    with False have "\<not> stops cfg []" "finished cfg = None"
      by (cases st; simp add: cfg stops_def)+
    then show ?thesis by simp
  qed
next
  case (Cons c p)
  then show ?case
    using assms(2) by (auto split: jstate.splits sum.splits)
qed

lemma scan_open: "scan_json (CHR ''{'' # t) = scan_from ([FKey []], BeginStringOrEmpty) t"
  by (simp add: scan_json_def begin_value_def push_frame_def maxNestingDepth_def is_space_def)

end
