(* ===== verification/Protocol_Spec.thy ===== *)
theory Protocol_Spec
  imports Protocol Json_Codec
begin

text \<open>
  What the protocol promises: where the sockets are and how long their paths can get, which attempts the
  client makes, what arrives at the handler, what the client learns of it, and that a socket in use is never
  taken over.
\<close>

section \<open>Socket paths\<close>

lemma proper_pane_elem: "CHR ''/'' \<notin> set paneID \<Longrightarrow> proper_elem (''pane-'' @ paneID @ ''.sock'')"
  by (auto simp: proper_elem_def)

lemma SocketPath_abs:
  assumes "plain_dir tmp ts" "proper_elem session" "CHR ''/'' \<notin> set paneID"
  shows "SocketPath tmp session paneID = abs_path (ts @ [''shimux'', session, ''pane-'' @ paneID @ ''.sock''])"
    and "SocketDir tmp session = abs_path (ts @ [''shimux'', session])"
proof -
  have shimux: "proper_elem ''shimux''" by (simp add: proper_elem_def)
  note elems = plain_dir_proper [OF assms(1)] shimux assms(2) proper_pane_elem [OF assms(3)]
  show dir: "SocketDir tmp session = abs_path (ts @ [''shimux'', session])"
    unfolding SocketDir_def using assms(1,2) shimux by (subst Join_plain_dir) auto
  have "plain_dir (SocketDir tmp session) (ts @ [''shimux'', session])"
    unfolding dir using elems by (intro plain_dir_abs_path) simp_all
  from Join_plain_dir [OF this, of "[''pane-'' @ paneID @ ''.sock'']"] elems
  show "SocketPath tmp session paneID = abs_path (ts @ [''shimux'', session, ''pane-'' @ paneID @ ''.sock''])"
    unfolding SocketPath_def by simp
qed

lemma hashed_proper: "proper_elem (take 16 (hex_string (sha256 s)))"
proof -
  let ?h = "take 16 (hex_string (sha256 s))"
  have "length ?h = 16" by simp
  moreover have "list_all is_hex (hex_string (sha256 s))" by (rule hex_string_hex)
  then have "CHR ''/'' \<notin> set (hex_string (sha256 s))"
    by (auto simp: list_all_iff is_hex_def is_digit_def)
  then have "CHR ''/'' \<notin> set ?h" by (blast dest: in_set_takeD)
  ultimately show ?thesis unfolding proper_elem_def by fastforce
qed

text \<open>The session element of the path that is used, and the length of the directory the path starts with.\<close>

definition session_elem :: "string list \<Rightarrow> string \<Rightarrow> string \<Rightarrow> string" where
  "session_elem ts session paneID =
     (if length (abs_path ts) + length session + length paneID \<le> 85 then session
      else take 16 (hex_string (sha256 session)))"

lemma length_socket_path:
  "length (abs_path (ts @ [''shimux'', s, ''pane-'' @ paneID @ ''.sock''])) =
     length (abs_path ts) + length s + length paneID + 19"
  by simp

lemma session_elem_proper: "proper_elem session \<Longrightarrow> proper_elem (session_elem ts session paneID)"
  by (simp add: session_elem_def hashed_proper)

lemma SafeSocketPath_abs:
  assumes "plain_dir tmp ts" "proper_elem session" "CHR ''/'' \<notin> set paneID"
  shows "SafeSocketPath tmp session paneID =
    abs_path (ts @ [''shimux'', session_elem ts session paneID, ''pane-'' @ paneID @ ''.sock''])"
  using SocketPath_abs(1) [OF assms] SocketPath_abs(1) [OF assms(1) hashed_proper assms(3), of session]
  by (auto simp: SafeSocketPath_def session_elem_def maxSunPath_def Let_def)

text \<open>
  C22: Below a temporary directory without \<open>..\<close>, and for a session name that is one path element, the
  socket of a pane is \<open><tmp>/shimux/<session>/pane-<id>.sock\<close>, its directory is that of the session, and the
  session name is replaced by 16 hexadecimal digits of its SHA-256 exactly when the path would be longer
  than 104 bytes. Different panes of a session never share a socket.
\<close>
theorem SafeSocketPath_path:
  assumes "plain_dir tmp ts" "proper_elem session" "CHR ''/'' \<notin> set paneID" "CHR ''/'' \<notin> set paneID'"
  shows "SafeSocketPath tmp session paneID =
      abs_path (ts @ [''shimux'', session_elem ts session paneID, ''pane-'' @ paneID @ ''.sock'']) \<and>
    Dir (SafeSocketPath tmp session paneID) = SocketDir tmp (session_elem ts session paneID) \<and>
    (SafeSocketPath tmp session paneID = SafeSocketPath tmp session paneID' \<longleftrightarrow> paneID = paneID')"
proof -
  note path = SafeSocketPath_abs [OF assms(1,2)]
  have elems: "list_all proper_elem (ts @ [''shimux'', session_elem ts session k, ''pane-'' @ k @ ''.sock''])"
    if "CHR ''/'' \<notin> set k" for k
    using plain_dir_proper [OF assms(1)] session_elem_proper [OF assms(2)] proper_pane_elem [OF that]
    by (simp add: proper_elem_def)
  have "Dir (SafeSocketPath tmp session paneID) = SocketDir tmp (session_elem ts session paneID)"
    using Dir_abs_path [of "ts @ [''shimux'', session_elem ts session paneID]"] elems [OF assms(3)]
    unfolding path [OF assms(3)] SocketPath_abs(2) [OF assms(1) session_elem_proper [OF assms(2)] assms(3)]
    by simp
  moreover have "SafeSocketPath tmp session paneID = SafeSocketPath tmp session paneID' \<longleftrightarrow> paneID = paneID'"
    unfolding path [OF assms(3)] path [OF assms(4)] abs_path_inject [OF elems [OF assms(3)] elems [OF assms(4)]]
    by auto
  ultimately show ?thesis using path [OF assms(3)] by blast
qed

lemma tmp_plain: "plain_dir ''/tmp'' [''tmp'']"
  using plain_dir_abs_path [of "[''tmp'']"] by (simp add: proper_elem_def)

theorem SafeSocketPath_path_witness:
  "SafeSocketPath ''/tmp'' ''shimux-42'' ''3'' = ''/tmp/shimux/shimux-42/pane-3.sock'' \<and>
   SafeSocketPath ''/tmp'' ''shimux-42'' ''3'' \<noteq> SafeSocketPath ''/tmp'' ''shimux-42'' ''31''"
proof -
  have "proper_elem ''shimux-42''" by (simp add: proper_elem_def)
  note path = SafeSocketPath_path [OF tmp_plain this, of "''3''" "''31''"]
  have "abs_path ([''tmp''] @ [''shimux'', session_elem [''tmp''] ''shimux-42'' ''3'', ''pane-'' @ ''3'' @ ''.sock'']) =
      ''/tmp/shimux/shimux-42/pane-3.sock''"
    by (simp add: session_elem_def)
  then show ?thesis using path by auto
qed

text \<open>
  C23: The path fits the 104 bytes of \<open>sun_path\<close>, whatever the session, when the temporary directory and
  the pane identifier have at most 69 bytes together; beyond that, hashing the session does not help and
  a long session gives a path that is too long.
\<close>
theorem SafeSocketPath_length:
  assumes "plain_dir tmp ts" "proper_elem session" "CHR ''/'' \<notin> set paneID"
  shows "length (SafeSocketPath tmp session paneID) \<le> 104 \<longleftrightarrow>
    length (abs_path ts) + length paneID \<le> 69 \<or>
    length (abs_path ts) + length session + length paneID \<le> 85"
proof -
  note SafeSocketPath_abs [OF assms]
  moreover have "length (session_elem ts session paneID) =
      (if length (abs_path ts) + length session + length paneID \<le> 85 then length session else 16)"
    by (simp add: session_elem_def)
  ultimately show ?thesis by (simp add: length_socket_path)
qed

theorem SafeSocketPath_length_witness:
  "length (SafeSocketPath ''/tmp'' (replicate 200 (CHR ''a'')) ''12'') \<le> 104"
  using SafeSocketPath_length [OF tmp_plain, of "replicate 200 (CHR ''a'')" "''12''"]
  by (simp add: proper_elem_def numeral_eq_Suc)

section \<open>Retries\<close>

text \<open>The pause after the \<open>k\<close>-th failed attempt, and the world before attempt \<open>k\<close>.\<close>

definition backoff :: "nat \<Rightarrow> int" where
  "backoff k = min (200 * Millisecond) (10 * Millisecond * 2 ^ k)"

primrec before_attempt ::
    "('w \<Rightarrow> go_error option \<times> 'w) \<Rightarrow> (int \<Rightarrow> 'w \<Rightarrow> 'w) \<Rightarrow> 'w \<Rightarrow> nat \<Rightarrow> 'w" where
  "before_attempt attempt sleep w 0 = w"
| "before_attempt attempt sleep w (Suc k) =
     sleep (backoff k) (snd (attempt (before_attempt attempt sleep w k)))"

lemma backoff_0: "backoff 0 = retryInitInterval"
  by (simp add: backoff_def retryInitInterval_def Millisecond_def)

lemma backoff_Suc:
  "(let d = backoff k * 2 in if d > retryMaxInterval then retryMaxInterval else d) = backoff (Suc k)"
  by (simp add: backoff_def retryMaxInterval_def Millisecond_def min_def)

definition retry_error :: "go_error option \<Rightarrow> go_error" where
  "retry_error lastErr =
     (case lastErr of
        Some e \<Rightarrow> Wrapf ''send-keys failed after 10 retries: '' e ''''
      | None \<Rightarrow> Errorf ''send-keys failed after 10 retries: %!w(<nil>)'')"

lemma SendKeys_loop_0:
  "SendKeys_loop attempt sleep 0 interval lastErr w = (Some (retry_error lastErr), w)"
proof -
  have "Itoa 10 = ''10''" by code_simp
  then show ?thesis by (simp add: retry_error_def retryMaxAttempts_def split: option.split)
qed

declare SendKeys_loop.simps(1) [simp del]

lemma SendKeys_loop_conv:
  "SendKeys_loop attempt sleep n (backoff k) lastErr (before_attempt attempt sleep w k) =
     (if \<exists>j \<ge> k. j < k + n \<and> fst (attempt (before_attempt attempt sleep w j)) = None
      then attempt (before_attempt attempt sleep w
             (LEAST j. k \<le> j \<and> fst (attempt (before_attempt attempt sleep w j)) = None))
      else (Some (retry_error
               (if n = 0 then lastErr else fst (attempt (before_attempt attempt sleep w (k + n - 1))))),
             before_attempt attempt sleep w (k + n)))"
proof (induction n arbitrary: k lastErr)
  case 0
  then show ?case by (auto simp: SendKeys_loop_0)
next
  case (Suc n)
  let ?ok = "\<lambda>j. fst (attempt (before_attempt attempt sleep w j)) = None"
  show ?case
  proof (cases "?ok k")
    case True
    then have "(LEAST j. k \<le> j \<and> ?ok j) = k" by (intro Least_equality) auto
    moreover have "\<exists>j \<ge> k. j < k + Suc n \<and> ?ok j" using True by auto
    ultimately show ?thesis using True by (auto split: prod.split option.split)
  next
    case False
    then obtain e w1 where a: "attempt (before_attempt attempt sleep w k) = (Some e, w1)"
      by (cases "attempt (before_attempt attempt sleep w k)") auto
    have same: "k \<le> j \<and> ?ok j \<longleftrightarrow> Suc k \<le> j \<and> ?ok j" for j
      using False by (metis Suc_leD le_antisym not_less_eq_eq)
    have step: "SendKeys_loop attempt sleep (Suc n) (backoff k) lastErr (before_attempt attempt sleep w k) =
        SendKeys_loop attempt sleep n (backoff (Suc k)) (Some e) (before_attempt attempt sleep w (Suc k))"
      using a backoff_Suc [of k] by (simp add: Let_def)
    have ex: "(\<exists>j \<ge> k. j < k + Suc n \<and> ?ok j) \<longleftrightarrow> (\<exists>j \<ge> Suc k. j < Suc k + n \<and> ?ok j)"
      using same by auto
    have least: "(LEAST j. k \<le> j \<and> ?ok j) = (LEAST j. Suc k \<le> j \<and> ?ok j)" by (simp only: same)
    have last: "(if n = 0 then Some e else fst (attempt (before_attempt attempt sleep w (Suc k + n - 1)))) =
        (if Suc n = 0 then lastErr else fst (attempt (before_attempt attempt sleep w (k + Suc n - 1))))"
      using a by (cases n) auto
    have "Suc k + n = k + Suc n" by simp
    then show ?thesis unfolding step Suc.IH ex least last by (simp only:)
  qed
qed

definition send_attempt :: "'w os \<Rightarrow> string \<Rightarrow> string \<Rightarrow> 'w \<Rightarrow> go_error option \<times> 'w" where
  "send_attempt os path data = SendKeysWithTimeout os path data connTimeout"

definition send_world :: "'w os \<Rightarrow> string \<Rightarrow> string \<Rightarrow> 'w \<Rightarrow> nat \<Rightarrow> 'w" where
  "send_world os path data = before_attempt (send_attempt os path data) (os_Sleep os)"

text \<open>
  C24: \<open>SendKeys\<close> makes at most ten attempts. It returns the first one that succeeds; attempt \<open>k\<close> starts
  after a pause of \<open>min 200 (10 * 2 ^ (k - 1))\<close> milliseconds after the failure before it. If all ten fail it
  returns the error of the last, wrapped, and it has then paused ten times, for 1310 milliseconds in all.
\<close>
theorem SendKeys_retries:
  "SendKeys os path data w =
    (if \<exists>j < 10. fst (send_attempt os path data (send_world os path data w j)) = None
     then send_attempt os path data (send_world os path data w
            (LEAST j. fst (send_attempt os path data (send_world os path data w j)) = None))
     else (Some (Wrapf ''send-keys failed after 10 retries: ''
              (the (fst (send_attempt os path data (send_world os path data w 9)))) ''''),
           send_world os path data w 10)) \<and>
    (\<Sum>k < 10. backoff k) = 1310 * Millisecond"
proof -
  have "SendKeys os path data w = SendKeys_loop (send_attempt os path data) (os_Sleep os) 10 (backoff 0) None
      (send_world os path data w 0)"
    by (simp add: SendKeys_def send_attempt_def send_world_def backoff_0 retryMaxAttempts_def)
  moreover have "(\<Sum>k < 10. backoff k) = 1310 * Millisecond"
    by (simp add: backoff_def Millisecond_def numeral_eq_Suc)
  moreover have "retry_error e = Wrapf ''send-keys failed after 10 retries: '' (the e) ''''"
    if "e \<noteq> None" for e
    using that by (auto simp: retry_error_def)
  moreover have "fst (send_attempt os path data (send_world os path data w 9)) = None \<Longrightarrow>
      \<exists>j < 10. fst (send_attempt os path data (send_world os path data w j)) = None"
    by (intro exI [of _ 9]) simp
  ultimately show ?thesis
    unfolding send_world_def SendKeys_loop_conv by (simp del: not_None_eq) blast
qed

section \<open>Messages on the wire\<close>

lemma escape_names: "escape_json ''data'' = ''data''" "escape_json ''ok'' = ''ok''" "escape_json ''error'' = ''error''"
  by (code_simp+)

lemma valid_names: "to_valid_utf8 ''data'' = ''data''" "to_valid_utf8 ''ok'' = ''ok''" "to_valid_utf8 ''error'' = ''error''"
  by (rule to_valid_utf8_id, rule valid_utf8_ascii, simp)+

lemma same_field_names: "same_field ''data'' ''data''" "same_field ''ok'' ''ok''" "same_field ''error'' ''error''"
    "\<not> same_field ''error'' ''ok''"
proof -
  have "length (runes ''error'') \<noteq> length (runes ''ok'')" by (simp add: runes_ascii)
  then have "map fold_rune (runes ''error'') \<noteq> map fold_rune (runes ''ok'')"
    by (metis length_map)
  then show "\<not> same_field ''error'' ''ok''" by (simp add: same_field_def)
qed (simp_all add: same_field_def)

lemmas begin_simps = begin_value_def begin_string_def push_frame_def maxNestingDepth_def is_space_def

lemma scan_field:
  "scan_from (FKey ms # stk, BeginString) (quote_json k @ CHR '':'' # t) =
     scan_from (FValue (to_valid_utf8 k) ms # stk, BeginValue) t"
  "scan_from (FKey ms # stk, BeginStringOrEmpty) (quote_json k @ CHR '':'' # t) =
     scan_from (FValue (to_valid_utf8 k) ms # stk, BeginValue) t"
  using scan_quote_json [of "FKey ms # stk" k "CHR '':'' # t"]
  by (simp_all add: quote_json_def begin_simps)

lemma scan_string_value:
  "scan_from (FValue k ms # stk, BeginValue) (quote_json s @ t) =
     scan_from (FPair ((k, JString (to_valid_utf8 s)) # ms) # stk, EndValue) t"
  using scan_quote_json [of "FValue k ms # stk" s t]
  by (simp add: quote_json_def begin_simps)

lemma scan_bool_value:
  "scan_from (FValue k ms # stk, BeginValue) (''true'' @ t) =
     scan_from (FPair ((k, JBool True) # ms) # stk, EndValue) t"
  "scan_from (FValue k ms # stk, BeginValue) (''false'' @ t) =
     scan_from (FPair ((k, JBool False) # ms) # stk, EndValue) t"
  by (simp_all only: append_Cons append_Nil) (simp_all add: begin_simps)

lemma scan_close:
  "scan_from ([FPair ms], EndValue) (CHR ''}'' # t) = Scanned (JObject (rev ms)) t"
  by (cases t) (simp_all add: is_space_def stops_def)

lemma scan_comma:
  "scan_from (FPair ms # stk, EndValue) (CHR '','' # t) = scan_from (FKey ms # stk, BeginString) t"
  by (simp add: is_space_def)

lemma scan_request:
  assumes "Marshal_request req = Inr m"
  shows "scan_json (m @ rest) = Scanned (JObject [(''data'', JString (to_valid_utf8 (Data req)))]) rest"
proof -
  have "m @ rest = CHR ''{'' # quote_json ''data'' @ CHR '':'' # quote_json (Data req) @ CHR ''}'' # rest"
    using assms by (simp add: Marshal_request_def)
  then show ?thesis by (simp only: scan_open scan_field scan_string_value scan_close valid_names rev.simps append_Nil)
qed

lemma scan_response:
  "scan_json (Encode_response resp @ rest) =
     Scanned (JObject ([(''ok'', JBool (OK resp))] @
       (if Error resp = '''' then [] else [(''error'', JString (to_valid_utf8 (Error resp)))])))
       (CHR 0x0A # rest)"
proof -
  let ?tail = "(if Error resp = '''' then '''' else '','' @ quote_json ''error'' @ '':'' @ quote_json (Error resp)) @
      CHR ''}'' # CHR 0x0A # rest"
  have "Encode_response resp @ rest = CHR ''{'' # quote_json ''ok'' @ CHR '':'' #
      (if OK resp then ''true'' else ''false'') @ ?tail"
    by (simp add: Encode_response_def)
  then have "scan_json (Encode_response resp @ rest) =
      scan_from ([FPair [(''ok'', JBool (OK resp))]], EndValue) ?tail"
    by (cases "OK resp") (simp_all only: if_True if_False scan_open scan_field scan_bool_value valid_names)
  also have "\<dots> = Scanned (JObject ([(''ok'', JBool (OK resp))] @
       (if Error resp = '''' then [] else [(''error'', JString (to_valid_utf8 (Error resp)))])))
       (CHR 0x0A # rest)"
  proof (cases "Error resp = ''''")
    case True
    then show ?thesis by (simp only: scan_close simp_thms if_True append_Nil rev.simps append_Nil2)
  next
    case False
    then have "?tail = CHR '','' # quote_json ''error'' @ CHR '':'' # quote_json (Error resp) @ CHR ''}'' # CHR 0x0A # rest"
      by simp
    with False show ?thesis
      by (simp only: if_False scan_comma scan_field scan_string_value scan_close valid_names rev.simps append_Nil append_Cons)
  qed
  finally show ?thesis .
qed

lemma Decode_response_encode:
  "Decode_response (Encode_response resp @ rest, end_err) =
     Inr \<lparr>OK = OK resp, Error = to_valid_utf8 (Error resp)\<rparr>"
  by (auto simp: Decode_response_def scan_response same_field_names or_error_def)

lemma Decode_request_marshal:
  "Marshal_request req = Inr m \<Longrightarrow>
     Decode_request (m @ rest, end_err) = Inr \<lparr>Data = to_valid_utf8 (Data req)\<rparr>"
  by (simp add: Decode_request_def scan_request same_field_names or_error_def)

text \<open>
  What one side encodes the other decodes, whatever follows on the stream and however the stream
  ends: a request arrives with its data, a response with its verdict and its error text, in both
  cases with invalid UTF-8 replaced, so unchanged when the text is valid UTF-8.
\<close>
theorem messages_roundtrip:
  "(\<exists>m. Marshal_request \<lparr>Data = d\<rparr> = Inr m \<and>
     Decode_request (m @ rest, end_err) = Inr \<lparr>Data = to_valid_utf8 d\<rparr>) \<and>
   Decode_response (Encode_response \<lparr>OK = b, Error = msg\<rparr> @ rest, end_err) =
     Inr \<lparr>OK = b, Error = to_valid_utf8 msg\<rparr>"
proof -
  obtain m where "Marshal_request \<lparr>Data = d\<rparr> = Inr m" by (simp add: Marshal_request_def)
  then show ?thesis
    using Decode_request_marshal [of "\<lparr>Data = d\<rparr>"] Decode_response_encode [of "\<lparr>OK = b, Error = msg\<rparr>"]
    by fastforce
qed

section \<open>One exchange\<close>

text \<open>
  A request that does not fit the limit of the reader: the text is cut off inside the object.
\<close>

lemma request_too_large:
  assumes m: "Marshal_request req = Inr m" and big: "int (length m) > maxRequestSize + 1"
  shows "handleConn handler ahead (m @ rest, end_err) w =
    (Encode_response \<lparr>OK = False, Error = ''request too large''\<rparr>, w)"
proof -
  let ?n = "nat (maxRequestSize + 1)"
  have n: "?n < length m" "int ?n = maxRequestSize + 1" using big by (auto simp: maxRequestSize_def)
  have "int (length (m @ rest)) > maxRequestSize" using big by simp
  then have lim: "limit_stream (m @ rest, end_err) = (take ?n m, None)"
    using n(1) by (simp add: limit_stream_def)
  have "scan_from ([], BeginValue) (take ?n m @ drop ?n m) =
      Scanned (JObject [(''data'', JString (to_valid_utf8 (Data req)))]) []"
    using scan_request [OF m, of "[]"] by (simp add: scan_json_def)
  then obtain b where p: "scan_json (take ?n m) = Partial b None"
    using scan_prefix [of "([], BeginValue)" "take ?n m" "drop ?n m"] n(1) by (auto simp: scan_json_def)
  then have "\<exists>e. Decode_request (take ?n m, None) = Inl e"
    by (simp add: Decode_request_def)
  moreover have "lr_N ahead (take ?n m) = 0"
    using n by (simp add: lr_N_def p)
  ultimately show ?thesis unfolding handleConn_def lim Let_def by auto
qed

lemma handleConn_request:
  assumes m: "Marshal_request req = Inr m" and small: "int (length m) \<le> maxRequestSize + 1"
  shows "handleConn handler ahead (m @ rest, end_err) w =
    (case handler (to_valid_utf8 (Data req)) w of
       (Some err, w') \<Rightarrow> (Encode_response \<lparr>OK = False, Error = error_string err\<rparr>, w')
     | (None, w') \<Rightarrow> (Encode_response \<lparr>OK = True, Error = ''''\<rparr>, w'))"
proof -
  have "\<exists>rest' e. limit_stream (m @ rest, end_err) = (m @ rest', e)"
    using small by (auto simp: limit_stream_def maxRequestSize_def)
  then obtain rest' e where "limit_stream (m @ rest, end_err) = (m @ rest', e)" by blast
  then show ?thesis using Decode_request_marshal [OF m, of rest' e] by (simp add: handleConn_def)
qed

text \<open>
  A connection between a client and the server, with any of the faults a connection can have: the dial or the write
  of the client fails, only the first bytes of the request arrive (\<open>None\<close> for all) and then the stream ends or a
  read fails, as when the deadline passes, and the same for the answer. The server serves what has arrived, once,
  when the client reads the answer or closes the connection. It handles the connection also when the client has
  given up.
\<close>

definition cut :: "nat option \<Rightarrow> string \<Rightarrow> string" where
  "cut n s = (case n of None \<Rightarrow> s | Some k \<Rightarrow> take k s)"

lemma cut_cases: obtains rest where "s = cut n s @ rest"
  by (cases n) (auto simp: cut_def intro: that append_take_drop_id [symmetric])

record link_faults =
  lf_Dial :: "go_error option"
  lf_Write :: "go_error option"
  lf_request :: "nat option"
  lf_request_end :: "go_error option"
  lf_answer :: "nat option"
  lf_answer_end :: "go_error option"

definition no_faults :: link_faults where
  "no_faults = \<lparr>lf_Dial = None, lf_Write = None, lf_request = None, lf_request_end = None, lf_answer = None,
     lf_answer_end = None\<rparr>"

definition link_serve ::
    "(string \<Rightarrow> 'v \<Rightarrow> go_error option \<times> 'v) \<Rightarrow> int \<Rightarrow> link_faults \<Rightarrow> 'v \<times> string \<Rightarrow> stream \<times> 'v \<times> string" where
  "link_serve handler ahead f w =
     (if snd w = '''' then (('''', lf_answer_end f), w)
      else let (resp, v) = handleConn handler ahead (cut (lf_request f) (snd w), lf_request_end f) (fst w)
           in ((cut (lf_answer f) resp, lf_answer_end f), (v, '''')))"

definition link :: "(string \<Rightarrow> 'v \<Rightarrow> go_error option \<times> 'v) \<Rightarrow> int \<Rightarrow> link_faults \<Rightarrow> ('v \<times> string) os" where
  "link handler ahead f =
     \<lparr>os_Stat = (\<lambda>p w. (None, w)), os_Remove = (\<lambda>p w. (None, w)), os_MkdirAll = (\<lambda>p m w. (None, w)),
      os_Umask = (\<lambda>m w. (0, w)), os_Listen = (\<lambda>p w. (None, w)),
      os_Dial = (\<lambda>p t (v, out). (lf_Dial f, (v, ''''))),
      os_SetDeadline = (\<lambda>t w. w),
      os_Write = (\<lambda>s (v, out). (lf_Write f, (v, out @ s))),
      os_CloseWrite = (\<lambda>w. w),
      os_ReadAll = (\<lambda>w. link_serve handler ahead f w),
      os_CloseConn = (\<lambda>w. snd (link_serve handler ahead f w)), os_Sleep = (\<lambda>t w. w)\<rparr>"

definition loopback :: "(string \<Rightarrow> 'v \<Rightarrow> go_error option \<times> 'v) \<Rightarrow> int \<Rightarrow> ('v \<times> string) os" where
  "loopback handler ahead = link handler ahead no_faults"

text \<open>The data whose request the reader of the server accepts: at most 1048577 bytes of JSON.\<close>

definition fits :: "string \<Rightarrow> bool" where
  "fits d \<longleftrightarrow> length (escape_json d) \<le> 2 ^ 20 - 10"

lemma request_text:
  obtains m where "Marshal_request \<lparr>Data = d\<rparr> = Inr m" "m \<noteq> ''''" "int (length m) > maxRequestSize + 1 \<longleftrightarrow> \<not> fits d"
proof -
  obtain m where m: "Marshal_request \<lparr>Data = d\<rparr> = Inr m" by (simp add: Marshal_request_def)
  have "length m = length (escape_json d) + 11"
    using m by (auto simp: Marshal_request_def quote_json_def escape_names)
  then have "int (length m) > maxRequestSize + 1 \<longleftrightarrow> \<not> fits d" "m \<noteq> ''''"
    by (auto simp: maxRequestSize_def fits_def)
  with m show thesis by (intro that)
qed

lemma Decode_request_cut:
  assumes "Marshal_request req = Inr (p @ q)" "q \<noteq> ''''"
  shows "\<exists>e. Decode_request (p, end_err) = Inl e"
proof -
  have "scan_from ([], BeginValue) (p @ q) = Scanned (JObject [(''data'', JString (to_valid_utf8 (Data req)))]) []"
    using scan_request [OF assms(1), of "[]"] by (simp add: scan_json_def)
  from scan_prefix [OF this] assms(2) obtain b where "scan_json p = Partial b None" by (auto simp: scan_json_def)
  then show ?thesis by (cases end_err) (simp_all add: Decode_request_def)
qed

lemma Decode_response_cut:
  assumes "Decode_response (cut n (Encode_response resp), end_err) = Inr r"
  shows "r = \<lparr>OK = OK resp, Error = to_valid_utf8 (Error resp)\<rparr>"
proof -
  obtain rest where "Encode_response resp = cut n (Encode_response resp) @ rest" by (rule cut_cases)
  then obtain v where v: "is_container v" "scan_json (cut n (Encode_response resp) @ rest) = Scanned v [CHR 0x0A]"
    using scan_response [of resp "[]"] by fastforce
  with scan_cut [of "([], BeginValue)" "cut n (Encode_response resp)" rest v]
  consider b where "scan_json (cut n (Encode_response resp)) = Partial b None"
    | x where "scan_json (cut n (Encode_response resp)) = Scanned v x" by (auto simp: scan_json_def)
  then show ?thesis
  proof cases
    case 1
    with assms show ?thesis by (cases end_err) (simp_all add: Decode_response_def)
  next
    case 2
    have "Decode_value (Encode_response resp, None) = Inr v"
      using v(2) \<open>Encode_response resp = _\<close> by (metis Decode_value.simps scan_result.simps(10))
    with 2 have "Decode_response (cut n (Encode_response resp), end_err) = Decode_response (Encode_response resp, None)"
      by (simp add: Decode_response_def)
    with assms Decode_response_encode [of resp "[]" None] show ?thesis by simp
  qed
qed

lemma link_serve_request:
  assumes "Marshal_request \<lparr>Data = d\<rparr> = Inr m" "link_serve handler ahead f (v, m) = (answer, w)"
  obtains resp v' where "w = (v', '''')" "answer = (cut (lf_answer f) (Encode_response resp), lf_answer_end f)"
    "v' = v \<and> \<not> OK resp \<or> fits d \<and> handler (to_valid_utf8 d) v = (None, v') \<and> OK resp \<or>
      (\<exists>e. fits d \<and> handler (to_valid_utf8 d) v = (Some e, v') \<and> \<not> OK resp)"
proof -
  obtain m' where "Marshal_request \<lparr>Data = d\<rparr> = Inr m'" "m' \<noteq> ''''" "int (length m') > maxRequestSize + 1 \<longleftrightarrow> \<not> fits d"
    by (rule request_text)
  with assms(1) have m: "m \<noteq> ''''" "int (length m) > maxRequestSize + 1 \<longleftrightarrow> \<not> fits d" by simp_all
  obtain rest where rest: "m = cut (lf_request f) m @ rest" by (rule cut_cases)
  obtain body v' where h: "handleConn handler ahead (cut (lf_request f) m, lf_request_end f) v = (body, v')"
    by (metis prod.exhaust)
  have "\<exists>resp. body = Encode_response resp \<and> (v' = v \<and> \<not> OK resp \<or>
      fits d \<and> handler (to_valid_utf8 d) v = (None, v') \<and> OK resp \<or>
      (\<exists>e. fits d \<and> handler (to_valid_utf8 d) v = (Some e, v') \<and> \<not> OK resp))"
  proof (cases "rest = ''''")
    case True
    then have whole: "cut (lf_request f) m = m" using rest by simp
    show ?thesis
    proof (cases "fits d")
      case True
      then have "int (length m) \<le> maxRequestSize + 1" using m(2) by simp
      from handleConn_request [OF assms(1) this, of handler ahead "[]" "lf_request_end f" v] h whole True show ?thesis
        by (cases "handler (to_valid_utf8 d) v"; cases "fst (handler (to_valid_utf8 d) v)") auto
    next
      case False
      with request_too_large [OF assms(1), of handler ahead "[]" "lf_request_end f" v] h whole m(2) show ?thesis by auto
    qed
  next
    case False
    let ?lr = "limit_stream (cut (lf_request f) m, lf_request_end f)"
    have "\<exists>k. fst ?lr = take k (cut (lf_request f) m)" by (auto simp: limit_stream_def) (metis order_refl take_all)
    then obtain k where "m = fst ?lr @ (drop k (cut (lf_request f) m) @ rest)"
      using rest by (metis append.assoc append_take_drop_id)
    with Decode_request_cut [of "\<lparr>Data = d\<rparr>" "fst ?lr" "drop k (cut (lf_request f) m) @ rest" "snd ?lr"] False assms(1)
    obtain e where "Decode_request ?lr = Inl e" by auto
    with h show ?thesis by (auto simp: handleConn_def Let_def)
  qed
  with h m(1) assms(2) show thesis by (auto simp: link_serve_def intro: that)
qed

lemma exchange_conv:
  "SendKeysWithTimeout (loopback handler ahead) path d timeout (v, out) =
    (if fits d then
       (case handler (to_valid_utf8 d) v of
          (None, v') \<Rightarrow> (None, (v', ''''))
        | (Some err, v') \<Rightarrow>
            (Some (Errorf (''server error: '' @ to_valid_utf8 (error_string err))), (v', '''')))
     else (Some (Errorf ''server error: request too large''), (v, '''')))"
proof -
  obtain m where m: "Marshal_request \<lparr>Data = d\<rparr> = Inr m" "m \<noteq> ''''" "int (length m) > maxRequestSize + 1 \<longleftrightarrow> \<not> fits d"
    by (rule request_text)
  have too_large: "to_valid_utf8 ''request too large'' = ''request too large''"
    by (rule to_valid_utf8_id, rule valid_utf8_ascii) simp
  have resp: "Decode_response (Encode_response resp, None) = Inr \<lparr>OK = OK resp, Error = to_valid_utf8 (Error resp)\<rparr>"
    for resp using Decode_response_encode [of resp "[]" None] by simp
  note defs = SendKeysWithTimeout_def loopback_def link_def link_serve_def no_faults_def cut_def
  show ?thesis
  proof (cases "fits d")
    case True
    then have "handleConn handler ahead (m, None) v =
        (case handler (to_valid_utf8 d) v of
           (Some err, w') \<Rightarrow> (Encode_response \<lparr>OK = False, Error = error_string err\<rparr>, w')
         | (None, w') \<Rightarrow> (Encode_response \<lparr>OK = True, Error = ''''\<rparr>, w'))"
      using handleConn_request [OF m(1), of handler ahead "[]" None v] m(3) by simp
    with True m(1,2) show ?thesis
      by (cases "handler (to_valid_utf8 d) v"; cases "fst (handler (to_valid_utf8 d) v)") (simp_all add: defs resp)
  next
    case False
    then have "handleConn handler ahead (m, None) v =
        (Encode_response \<lparr>OK = False, Error = ''request too large''\<rparr>, v)"
      using request_too_large [OF m(1), of handler ahead "[]" None v] m(3) by simp
    with False m(1,2) show ?thesis by (simp add: defs resp too_large)
  qed
qed

text \<open>
  C4: One exchange between client and server over a connection with any faults. The handler is called at most once,
  with the data in which invalid UTF-8 is replaced by U+FFFD, and not at all when the request is larger than
  1048577 bytes. Success of the client means that the handler was called and has succeeded. Without faults the
  client reports exactly what the handler has said: success, or the text of its error, or that the request was
  too large. (With faults a failure of the client says nothing: the handler may have succeeded.)
\<close>
theorem exchange:
  assumes "SendKeysWithTimeout (link handler ahead f) path d timeout (v, out) = (err, (v', out'))"
  shows "(v' = v \<or> fits d \<and> v' = snd (handler (to_valid_utf8 d) v)) \<and>
    (err = None \<longrightarrow> fits d \<and> handler (to_valid_utf8 d) v = (None, v')) \<and>
    (f = no_faults \<longrightarrow>
       (if fits d then v' = snd (handler (to_valid_utf8 d) v) \<and>
          err = map_option (\<lambda>e. Errorf (''server error: '' @ to_valid_utf8 (error_string e)))
            (fst (handler (to_valid_utf8 d) v))
        else v' = v \<and> err = Some (Errorf ''server error: request too large'')))"
proof -
  obtain m where m: "Marshal_request \<lparr>Data = d\<rparr> = Inr m" "m \<noteq> ''''" by (rule request_text)
  obtain answer w where s: "link_serve handler ahead f (v, m) = (answer, w)" by (metis prod.exhaust)
  obtain resp v1 where r: "w = (v1, '''')" "answer = (cut (lf_answer f) (Encode_response resp), lf_answer_end f)"
      "v1 = v \<and> \<not> OK resp \<or> fits d \<and> handler (to_valid_utf8 d) v = (None, v1) \<and> OK resp \<or>
      (\<exists>e. fits d \<and> handler (to_valid_utf8 d) v = (Some e, v1) \<and> \<not> OK resp)"
    by (rule link_serve_request [OF m(1) s])
  have served: "snd (link_serve handler ahead f (v1, '''')) = (v1, '''')" by (simp add: link_serve_def)
  have "(v' = v \<or> fits d \<and> v' = snd (handler (to_valid_utf8 d) v)) \<and>
      (err = None \<longrightarrow> fits d \<and> handler (to_valid_utf8 d) v = (None, v'))"
  proof (cases "lf_Dial f = None \<and> lf_Write f = None")
    case True
    then have "SendKeysWithTimeout (link handler ahead f) path d timeout (v, out) =
        (case Decode_response answer of
           Inl e \<Rightarrow> (Some (Wrapf ''read response: '' e ''''), (v1, ''''))
         | Inr x \<Rightarrow> (if \<not> OK x then Some (Errorf (''server error: '' @ Error x)) else None, (v1, '''')))"
      using m(1) s r(1) served by (simp add: SendKeysWithTimeout_def link_def Let_def split: sum.split)
    with assms r(3) Decode_response_cut [of "lf_answer f" resp "lf_answer_end f", folded r(2)] show ?thesis
      by (auto split: sum.splits if_splits)
  next
    case False
    then have "err \<noteq> None \<and> (v' = v \<or> v' = v1)"
      using assms m(1) s r(1) by (auto simp: SendKeysWithTimeout_def link_def split: option.splits)
    with r(3) show ?thesis by auto
  qed
  moreover have ?thesis if "f = no_faults" using calculation assms exchange_conv [of handler ahead path d timeout v out]
    unfolding that loopback_def by (cases "handler (to_valid_utf8 d) v") (auto split: option.splits if_splits)
  ultimately show ?thesis by blast
qed

theorem exchange_witness:
  "\<exists>err out'. SendKeysWithTimeout (link (\<lambda>s v. (None, v @ [s])) 0 no_faults) ''/s'' ''ls'' 0 ([], '''') =
     (err, ([''ls''], out')) \<and> err = None"
proof -
  have "escape_json ''ls'' = ''ls''" by code_simp
  then have small: "fits ''ls''" by (simp add: fits_def)
  have valid: "to_valid_utf8 ''ls'' = ''ls''" by (rule to_valid_utf8_id, rule valid_utf8_ascii) simp
  let ?x = "SendKeysWithTimeout (link (\<lambda>s v. (None, v @ [s])) 0 no_faults) ''/s'' ''ls'' 0 ([], '''')"
  obtain err v' out' where r: "?x = (err, (v', out'))" by (metis prod.exhaust)
  from exchange [OF r, THEN conjunct2, THEN conjunct2, rule_format, OF refl]
  have "v' = [''ls'']" "err = None" by (simp_all only: small valid if_True snd_conv fst_conv append_Nil option.map)
  with r show ?thesis by blast
qed

text \<open>
  The retries of the client know nothing of this: when the answers are lost, the data is delivered at every one of
  the ten attempts.
\<close>

lemma exchange_lost:
  assumes "fits d" "lf_Dial f = None" "lf_Write f = None" "lf_request f = None" "lf_answer f = Some 0"
  shows "\<exists>e. SendKeysWithTimeout (link handler ahead f) path d timeout (v, out) =
    (Some e, (snd (handler (to_valid_utf8 d) v), ''''))"
proof -
  obtain m where m: "Marshal_request \<lparr>Data = d\<rparr> = Inr m" "m \<noteq> ''''" "int (length m) > maxRequestSize + 1 \<longleftrightarrow> \<not> fits d"
    by (rule request_text)
  have "scan_json '''' = Partial False None" by (simp add: scan_json_def stops_def)
  then obtain e where "Decode_response ('''', lf_answer_end f) = Inl e"
    by (cases "lf_answer_end f") (auto simp: Decode_response_def)
  moreover have "snd (handleConn handler ahead (m, lf_request_end f) v) = snd (handler (to_valid_utf8 d) v)"
    using handleConn_request [OF m(1), of handler ahead "[]" "lf_request_end f" v] m(3) assms(1)
    by (cases "handler (to_valid_utf8 d) v"; cases "fst (handler (to_valid_utf8 d) v)") simp_all
  ultimately show ?thesis using assms(2-5) m(1,2)
    by (simp add: SendKeysWithTimeout_def link_def link_serve_def cut_def split_beta Let_def)
qed

lemma SendKeys_loop_lost:
  assumes "\<And>w. \<exists>e. attempt w = (Some e, g w)"
  shows "snd (SendKeys_loop attempt (\<lambda>t w. w) n i err w) = (g ^^ n) w"
proof (induction n arbitrary: i err w)
  case (Suc n)
  obtain e where "attempt w = (Some e, g w)" using assms by blast
  with Suc show ?case by (simp add: Let_def funpow_swap1)
qed (simp add: SendKeys_loop_0)

lemma SendKeys_repeats:
  assumes "fits d" "lf_Dial f = None" "lf_Write f = None" "lf_request f = None" "lf_answer f = Some 0"
  shows "snd (SendKeys (link (\<lambda>s v. (None, v @ [s])) ahead f) path d (v, '''')) = (v @ replicate 10 (to_valid_utf8 d), '''')"
proof -
  let ?os = "link (\<lambda>s v. (None, v @ [s])) ahead f"
  have sleep: "os_Sleep ?os = (\<lambda>t w. w)" by (simp add: link_def)
  let ?g = "\<lambda>w :: string list \<times> string. (fst w @ [to_valid_utf8 d], '''' :: string)"
  have sent: "\<exists>e. SendKeysWithTimeout ?os path d connTimeout w = (Some e, ?g w)" for w
    using exchange_lost [OF assms, of "\<lambda>s v. (None, v @ [s])" ahead path connTimeout "fst w" "snd w"] by simp
  have "snd (SendKeys ?os path d (v, '''')) = (?g ^^ 10) (v, '''')"
    unfolding SendKeys_def sleep retryMaxAttempts_def by (rule SendKeys_loop_lost [where g = ?g]) (rule sent)
  moreover have "(?g ^^ n) (v, '''') = (v @ replicate n (to_valid_utf8 d), '''')" for n
    by (induction n) (simp_all add: replicate_append_same)
  ultimately show ?thesis by simp
qed

section \<open>Taking over a socket path\<close>

text \<open>
  The documented behaviour of the operating system that the set-up of the agent relies on. \<open>socks\<close> reads the
  sockets of the file system: whether a process accepts connections on it, and its permission bits; \<open>cmask\<close>
  reads the file mode creation mask. A dial that succeeds has reached a process that listens; a dial may fail for
  any reason, also when a process listens, as on a time-out, a full backlog or a missing permission. The laws
  speak of one process: no other one changes the path between two calls of this one.
\<close>

datatype sock = Live int | Dead int

unbundle bit_operations_syntax

definition host_laws :: "'w os \<Rightarrow> ('w \<Rightarrow> string \<Rightarrow> sock option) \<Rightarrow> ('w \<Rightarrow> int) \<Rightarrow> bool" where
  "host_laws os socks cmask \<longleftrightarrow>
     (\<forall>p w. socks (snd (os_Stat os p w)) = socks w \<and> cmask (snd (os_Stat os p w)) = cmask w \<and>
        (IsNotExist (fst (os_Stat os p w)) \<longrightarrow> socks w p = None)) \<and>
     (\<forall>p t w. socks (snd (os_Dial os p t w)) = socks w \<and> cmask (snd (os_Dial os p t w)) = cmask w \<and>
        (fst (os_Dial os p t w) = None \<longrightarrow> (\<exists>m. socks w p = Some (Live m)))) \<and>
     (\<forall>w. socks (os_CloseConn os w) = socks w \<and> cmask (os_CloseConn os w) = cmask w) \<and>
     (\<forall>p w. cmask (snd (os_Remove os p w)) = cmask w \<and>
        socks (snd (os_Remove os p w)) =
          (if fst (os_Remove os p w) = None then (socks w)(p := None) else socks w) \<and>
        (IsNotExist (fst (os_Remove os p w)) \<longrightarrow> socks w p = None)) \<and>
     (\<forall>p m w. socks (snd (os_MkdirAll os p m w)) = socks w \<and> cmask (snd (os_MkdirAll os p m w)) = cmask w) \<and>
     (\<forall>m w. fst (os_Umask os m w) = cmask w \<and> cmask (snd (os_Umask os m w)) = m \<and>
        socks (snd (os_Umask os m w)) = socks w) \<and>
     (\<forall>p w. cmask (snd (os_Listen os p w)) = cmask w \<and>
        (fst (os_Listen os p w) = None \<longrightarrow> socks w p = None \<and>
           socks (snd (os_Listen os p w)) = (socks w)(p := Some (Live (511 AND NOT (cmask w))))) \<and>
        (fst (os_Listen os p w) \<noteq> None \<longrightarrow> socks (snd (os_Listen os p w)) = socks w))"

text \<open>What the dial of \<open>CleanStaleSocket\<close> says.\<close>

definition stale_dial :: "'w os \<Rightarrow> string \<Rightarrow> 'w \<Rightarrow> go_error option" where
  "stale_dial os p w = fst (os_Dial os p staleDialTimeout (snd (os_Stat os p w)))"

lemma CleanStaleSocket_view:
  assumes "host_laws os socks cmask" and "CleanStaleSocket os p w = (err, w')"
  shows "cmask w' = cmask w \<and> socks w' = (if err = None then (socks w)(p := None) else socks w) \<and>
    (err = Some ErrSocketInUse \<longrightarrow> stale_dial os p w = None \<and> (\<exists>m. socks w p = Some (Live m))) \<and>
    (socks w p \<noteq> None \<and> err \<noteq> Some ErrSocketInUse \<longrightarrow> stale_dial os p w \<noteq> None)"
proof -
  obtain e1 w1 where stat: "os_Stat os p w = (e1, w1)" by (cases "os_Stat os p w")
  obtain e2 w2 where dial: "os_Dial os p staleDialTimeout w1 = (e2, w2)"
    by (cases "os_Dial os p staleDialTimeout w1")
  obtain e3 w3 where remove: "os_Remove os p w2 = (e3, w3)" by (cases "os_Remove os p w2")
  have s1: "socks w1 = socks w" "cmask w1 = cmask w" "IsNotExist e1 \<Longrightarrow> socks w p = None"
    using assms(1) stat unfolding host_laws_def by (metis fst_conv snd_conv)+
  have s2: "socks w2 = socks w1" "cmask w2 = cmask w1" "e2 = None \<Longrightarrow> \<exists>m. socks w1 p = Some (Live m)"
    using assms(1) dial unfolding host_laws_def by (metis fst_conv snd_conv)+
  have s3: "cmask w3 = cmask w2" "socks w3 = (if e3 = None then (socks w2)(p := None) else socks w2)"
      "IsNotExist e3 \<Longrightarrow> socks w2 p = None"
    using assms(1) remove unfolding host_laws_def by (metis fst_conv snd_conv)+
  have s4: "socks (os_CloseConn os w2) = socks w2" "cmask (os_CloseConn os w2) = cmask w2"
    using assms(1) unfolding host_laws_def by blast+
  have said: "stale_dial os p w = e2" by (simp add: stale_dial_def stat dial)
  have absent: "(socks w)(p := None) = socks w" if "socks w p = None" using that by (rule fun_upd_idem)
  consider "IsNotExist e1" | "\<not> IsNotExist e1" "e2 = None" | e where "\<not> IsNotExist e1" "e2 = Some e" by blast
  then show ?thesis
  proof cases
    case 1
    with assms(2) s1 absent show ?thesis by (simp add: CleanStaleSocket_def stat)
  next
    case 2
    with assms(2) s1 s2 s4 said show ?thesis by (auto simp: CleanStaleSocket_def stat dial)
  next
    case (3 e)
    with assms(2) s1 s2 s3 said absent show ?thesis
      by (cases e3) (auto simp: CleanStaleSocket_def stat dial remove split: if_splits)
  qed
qed

lemma ListenAndServe_view:
  assumes "host_laws os socks cmask" and "ListenAndServe os p w = (err, w')"
  shows "cmask w' = cmask w \<and>
    socks w' = (if err = None then (socks w)(p := Some (Live 448)) else socks w) \<and>
    (err = None \<longrightarrow> socks w p = None)"
proof -
  obtain e1 w1 where mkdir: "os_MkdirAll os (Dir p) 448 w = (e1, w1)" by (cases "os_MkdirAll os (Dir p) 448 w")
  obtain old w2 where umask: "os_Umask os 63 w1 = (old, w2)" by (cases "os_Umask os 63 w1")
  obtain e3 w3 where listen: "os_Listen os p w2 = (e3, w3)" by (cases "os_Listen os p w2")
  obtain o4 w4 where umask2: "os_Umask os old w3 = (o4, w4)" by (cases "os_Umask os old w3")
  have s1: "socks w1 = socks w" "cmask w1 = cmask w"
    using assms(1) mkdir unfolding host_laws_def by (metis snd_conv)+
  have s2: "old = cmask w1" "cmask w2 = 63" "socks w2 = socks w1"
    using assms(1) umask unfolding host_laws_def by (metis fst_conv snd_conv)+
  have s3: "e3 = None \<Longrightarrow> socks w2 p = None \<and> socks w3 = (socks w2)(p := Some (Live (511 AND NOT (cmask w2))))"
      "e3 \<noteq> None \<Longrightarrow> socks w3 = socks w2"
    using assms(1) listen unfolding host_laws_def by (metis fst_conv snd_conv)+
  have s4: "cmask w4 = old" "socks w4 = socks w3"
    using assms(1) umask2 unfolding host_laws_def by (metis snd_conv)+
  have "(511 :: int) AND NOT 63 = 448" by code_simp
  moreover have "(\<exists>e. e1 = Some e) \<and> err \<noteq> None \<and> w' = w1 \<or> e1 = None \<and> (err = None \<longleftrightarrow> e3 = None) \<and> w' = w4"
    using assms(2) by (cases e1; cases e3) (auto simp: ListenAndServe_def mkdir umask listen umask2)
  ultimately show ?thesis using s1 s2 s3 s4 by auto
qed

text \<open>
  C25: When an agent takes a socket path over, as long as no other process acts on the path. Cleaning fails with
  \<open>ErrSocketInUse\<close> only when its dial has reached a process that listens, and then nothing has changed. A socket is
  removed only after its dial has failed, so one on which nobody listens is removed or an error says it could not
  be; but a failed dial is all the code asks for: a process that listens and does not take the connection in time
  loses its path. After a successful cleaning the path is free, and a server that starts then leaves exactly one
  new socket, with mode 0700. The umask of the process is as it was, also when the server does not start.
\<close>
theorem CleanStaleSocket_ListenAndServe:
  assumes "host_laws os socks cmask"
    and "CleanStaleSocket os p w = (err, w1)" and "ListenAndServe os p w1 = (err2, w2)"
  shows "(err = Some ErrSocketInUse \<longrightarrow> stale_dial os p w = None \<and> (\<exists>m. socks w p = Some (Live m))) \<and>
    (stale_dial os p w = None \<and> socks w p \<noteq> None \<longrightarrow> err = Some ErrSocketInUse) \<and>
    (err = None \<longrightarrow> socks w1 = (socks w)(p := None) \<and> (socks w p \<noteq> None \<longrightarrow> stale_dial os p w \<noteq> None)) \<and>
    (err \<noteq> None \<longrightarrow> socks w1 = socks w) \<and>
    (err2 = None \<longrightarrow> socks w1 p = None \<and> socks w2 = (socks w1)(p := Some (Live 448))) \<and>
    (err2 \<noteq> None \<longrightarrow> socks w2 = socks w1) \<and> cmask w2 = cmask w"
  using CleanStaleSocket_view [OF assms(1,2)] ListenAndServe_view [OF assms(1,3)] by auto

text \<open>A file system of sockets that satisfies the laws.\<close>

type_synonym host = "(string \<Rightarrow> sock option) \<times> int"

definition ref_host :: "host os" where
  "ref_host =
     \<lparr>os_Stat = (\<lambda>p (s, m). (if s p = None then Some (OsError ENOENT ''no such file or directory'') else None, (s, m))),
      os_Remove = (\<lambda>p (s, m). (if s p = None then Some (OsError ENOENT ''no such file or directory'') else None,
                               (s(p := None), m))),
      os_MkdirAll = (\<lambda>p mode w. (None, w)),
      os_Umask = (\<lambda>new (s, m). (m, (s, new))),
      os_Listen = (\<lambda>p (s, m). if s p = None then (None, (s(p := Some (Live (511 AND NOT m))), m))
                              else (Some (OsError EOTHER ''address already in use''), (s, m))),
      os_Dial = (\<lambda>p t (s, m). (case s p of Some (Live _) \<Rightarrow> None
                              | _ \<Rightarrow> Some (OsError EOTHER ''connection refused''), (s, m))),
      os_SetDeadline = (\<lambda>t w. w), os_Write = (\<lambda>d w. (None, w)), os_CloseWrite = (\<lambda>w. w),
      os_ReadAll = (\<lambda>w. (('''', None), w)), os_CloseConn = (\<lambda>w. w), os_Sleep = (\<lambda>t w. w)\<rparr>"

lemma ref_host_laws: "host_laws ref_host fst snd"
  by (auto simp: host_laws_def ref_host_def split: option.split sock.split)

text \<open>The same system with a process that is too busy to take connections: its socket is taken over.\<close>

lemma busy_socket_taken_over:
  defines "busy \<equiv> ref_host\<lparr>os_Dial := \<lambda>p t w. (Some (OsError EOTHER ''i/o timeout''), w)\<rparr>"
  shows "host_laws busy fst snd \<and>
    CleanStaleSocket busy ''a'' (Map.empty(''a'' \<mapsto> Live 448), 18) = (None, (Map.empty, 18))"
  unfolding busy_def
  by (auto simp: host_laws_def ref_host_def CleanStaleSocket_def split: option.split sock.split)

theorem CleanStaleSocket_ListenAndServe_witness:
  "(let w = ((\<lambda>p. None)(''a'' := Some (Dead 448)), 18);
        (err, w1) = CleanStaleSocket ref_host ''a'' w;
        (err2, w2) = ListenAndServe ref_host ''a'' w1
    in err = None \<and> err2 = None \<and> fst w2 ''a'' = Some (Live 448) \<and> snd w2 = 18)"
proof -
  let ?w = "((\<lambda>p. None)(''a'' := Some (Dead 448)), 18) :: host"
  obtain err w1 where c: "CleanStaleSocket ref_host ''a'' ?w = (err, w1)"
    by (cases "CleanStaleSocket ref_host ''a'' ?w")
  obtain err2 w2 where l: "ListenAndServe ref_host ''a'' w1 = (err2, w2)"
    by (cases "ListenAndServe ref_host ''a'' w1")
  have "err = None" "err2 = None"
    using c l by (auto simp: CleanStaleSocket_def ListenAndServe_def ref_host_def Let_def)
  with CleanStaleSocket_ListenAndServe [OF ref_host_laws c l] c l show ?thesis by simp
qed

end
