(* ===== verification/Commands_Spec.thy ===== *)
theory Commands_Spec
  imports Commands Keys_Spec Protocol_Spec
begin

text \<open>
  What the tmux commands promise: exit codes, their effect on the panes, the identifiers they print and
  accept, the output of \<open>list-panes\<close>, where \<open>send-keys\<close> writes, and what they make the terminal do. The
  facts about panes come from the interpretation \<open>panes\<close> of \<open>pane_registry\<close>, those about the terminal from the
  interpretation \<open>keysim\<close> of \<open>controller\<close>.
\<close>

section \<open>Pane identifiers in targets\<close>

lemma extractPaneID_loop_takeWhile:
  "extractPaneID_loop b rs = b @ map char_of (takeWhile (\<lambda>r. 48 \<le> r \<and> r \<le> (57 :: nat)) rs)"
  by (induction rs arbitrary: b) (simp_all add: encode_rune_ascii)

lemma digits_of_runes:
  "map char_of (takeWhile (\<lambda>r. 48 \<le> r \<and> r \<le> (57 :: nat)) (runes s)) = takeWhile is_digit s"
proof (induction s)
  case (Cons c s)
  show ?case
  proof (cases "(128 :: nat) \<le> of_char c")
    case True
    from runes_high_Cons [OF this, of s] obtain r w where "128 \<le> r" "runes (c # s) = r # runes (drop w (c # s))"
      by blast
    with True show ?thesis by (simp add: is_digit_def)
  next
    case False
    with Cons show ?thesis by (simp add: runes_ascii_Cons is_digit_def)
  qed
qed simp

lemma extractPaneID_conv:
  "extractPaneID target =
     (case str_last_index target ''%'' of
        None \<Rightarrow> '''' | Some idx \<Rightarrow> takeWhile is_digit (drop (idx + 1) target))"
  by (auto simp: extractPaneID_def extractPaneID_loop_takeWhile digits_of_runes Let_def split: option.split)

lemma extractPaneID_last:
  "CHR ''%'' \<notin> set s \<Longrightarrow> extractPaneID (p @ CHR ''%'' # s) = takeWhile is_digit s"
  by (simp add: extractPaneID_conv str_last_index_char_append)

lemma last_percent:
  "CHR ''%'' \<in> set s \<Longrightarrow> \<exists>p t. s = p @ CHR ''%'' # t \<and> CHR ''%'' \<notin> set t"
  by (metis split_list_last)

lemma extractPaneID_id: "list_all is_digit d \<Longrightarrow> extractPaneID (CHR ''%'' # d) = d"
proof -
  assume d: "list_all is_digit d"
  then have "CHR ''%'' \<notin> set d" by (auto simp: list_all_iff)
  with extractPaneID_last [of d "[]"] d show ?thesis by (simp add: list_all_iff)
qed

text \<open>
  The identifier a target names is the run of decimal digits right after its last \<open>%\<close>; a target
  without \<open>%\<close>, or without a digit there, names none. So \<open>%N\<close> and \<open>session:window.%N\<close> both name \<open>N\<close>.
\<close>
theorem extractPaneID_iff:
  "extractPaneID target = d \<and> d \<noteq> '''' \<longleftrightarrow>
     d \<noteq> '''' \<and> list_all is_digit d \<and>
     (\<exists>p rest. target = p @ ''%'' @ d @ rest \<and> CHR ''%'' \<notin> set rest \<and>
        (rest = '''' \<or> \<not> is_digit (hd rest)))"
  (is "?l \<longleftrightarrow> ?r")
proof
  assume l: ?l
  then have "str_last_index target ''%'' \<noteq> None"
    by (auto simp: extractPaneID_conv split: option.splits)
  then obtain p t where t: "target = p @ CHR ''%'' # t" "CHR ''%'' \<notin> set t"
    using last_percent [of target] by (auto simp: str_last_index_char_None)
  with l have d: "d = takeWhile is_digit t" by (simp add: extractPaneID_last)
  let ?rest = "dropWhile is_digit t"
  have "target = p @ ''%'' @ d @ ?rest" using t d by simp
  moreover have "CHR ''%'' \<notin> set ?rest" using t(2) set_dropWhileD by metis
  moreover have "?rest = '''' \<or> \<not> is_digit (hd ?rest)" using hd_dropWhile by blast
  moreover have "list_all is_digit d" unfolding d by (auto simp: list_all_iff dest: set_takeWhileD)
  ultimately show ?r using l by blast
next
  assume ?r
  then obtain p rest where d: "d \<noteq> ''''" "list_all is_digit d" and t: "target = p @ CHR ''%'' # d @ rest"
      and rest: "CHR ''%'' \<notin> set rest" "rest = '''' \<or> \<not> is_digit (hd rest)" by auto
  from d(2) have "CHR ''%'' \<notin> set d" by (auto simp: list_all_iff)
  moreover have "takeWhile is_digit rest = ''''" using rest(2) by (cases rest) auto
  ultimately show ?l
    using d rest(1) by (simp add: t extractPaneID_last list_all_iff)
qed

theorem extractPaneID_iff_witness:
  "extractPaneID ''work:0.%12x'' = ''12''"
proof -
  have "list_all is_digit ''12''" and x: "\<not> is_digit (CHR ''x'')" by (simp_all add: is_digit_def)
  moreover have "\<exists>p rest. ''work:0.%12x'' = p @ ''%'' @ ''12'' @ rest \<and> CHR ''%'' \<notin> set rest \<and>
      (rest = '''' \<or> \<not> is_digit (hd rest))"
    using x by (intro exI [of _ "''work:0.''"] exI [of _ "''x''"]) simp
  ultimately show ?thesis
    using extractPaneID_iff [of "''work:0.%12x''" "''12''"] by blast
qed

section \<open>Every command\<close>

lemma with_options_cases:
  assumes "with_options parsed handler st = res"
  obtains e where "parsed = Inl e" "res = ((1, Some e), st)"
  | opts where "parsed = Inr opts" "handler opts st = res"
  using assms by (cases parsed) (auto simp: with_options_def)

definition tmux_commands :: "string list" where
  "tmux_commands =
     [''has-session'', ''switch-client'', ''new-session'', ''show-options'', ''split-window'', ''send-keys'',
      ''select-pane'', ''kill-pane'', ''list-panes'', ''display-message'']"

lemma Execute_cases:
  assumes "Execute ctx r st = res"
  obtains (has_session) "Command r = ''has-session''" "with_options (ParseHasSession (Args r)) (handleHasSession ctx) st = res"
  | (switch_client) "Command r = ''switch-client''" "handleSwitchClient ctx st = res"
  | (new_session) "Command r = ''new-session''" "handleNewSession ctx st = res"
  | (show_options) "Command r = ''show-options''" "with_options (ParseShowOptions (Args r)) (handleShowOptions ctx) st = res"
  | (split_window) "Command r = ''split-window''" "with_options (ParseSplitWindow (Args r)) (handleSplitWindow ctx) st = res"
  | (send_keys) "Command r = ''send-keys''" "with_options (ParseSendKeys (Args r)) (handleSendKeys ctx) st = res"
  | (select_pane) "Command r = ''select-pane''" "with_options (ParseSelectPane (Args r)) (handleSelectPane ctx) st = res"
  | (kill_pane) "Command r = ''kill-pane''" "with_options (ParseKillPane (Args r)) (handleKillPane ctx) st = res"
  | (list_panes) "Command r = ''list-panes''" "with_options (ParseListPanes (Args r)) (handleListPanes ctx) st = res"
  | (display_message) "Command r = ''display-message''"
      "with_options (ParseDisplayMessage (Args r)) (handleDisplayMessage ctx) st = res"
  | (unsupported) "Command r \<notin> set tmux_commands" "handleUnsupported ctx (Command r) st = res"
  using assms unfolding Execute_def Let_def tmux_commands_def
  by (auto split: if_splits)

lemmas handler_defs =
  handleHasSession_def handleSwitchClient_def handleNewSession_def handleShowOptions_def
  handleSelectPane_def handleListPanes_def handleDisplayMessage_def handleUnsupported_def

lemma print_panes_fields [simp]:
  "PaneManager (print_panes ctx f ps st) = PaneManager st" "Stderr (print_panes ctx f ps st) = Stderr st"
  "World (print_panes ctx f ps st) = World st"
  by (induction ps arbitrary: st) (simp_all add: Fprintln_out_def Let_def)

lemma Fprintln_out_fields [simp]:
  "PaneManager (Fprintln_out s st) = PaneManager st" "Stderr (Fprintln_out s st) = Stderr st"
  "World (Fprintln_out s st) = World st" "Stdout (Fprintln_out s st) = Stdout st @ s @ newline"
  by (simp_all add: Fprintln_out_def)

lemma handleSendKeys_fields:
  "handleSendKeys ctx opts st = ((code, err), st') \<Longrightarrow>
     PaneManager st' = PaneManager st \<and> Stderr st' = Stderr st \<and> Stdout st' = Stdout st \<and>
     (code = 0 \<and> err = None \<or> code = 1 \<and> err \<noteq> None)"
  by (auto simp: handleSendKeys_def Let_def split: if_splits prod.splits option.splits)

lemma Register_result: "\<exists>p. fst (Register tty m) = Inr p"
  by (simp add: Register_def split_beta Let_def)

lemma handleSplitWindow_cases:
  assumes "handleSplitWindow ctx opts st = ((code, err), st')"
  obtains (failed) e w where
    "NewSplit (ctx_Controller ctx) (split_direction (sw_Direction opts)) (World st) = (Some e, w)"
    "code = 1" "err = Some (Wrapf ''split-window: '' e '''')" "st' = st\<lparr>World := w\<rparr>"
  | (split) w p m where
    "NewSplit (ctx_Controller ctx) (split_direction (sw_Direction opts)) (World st) = (None, w)"
    "Register '''' (PaneManager st) = (Inr p, m)" "code = 0" "err = None"
    "World st' = w" "PaneManager st' = m" "Stderr st' = Stderr st"
    "Stdout st' = Stdout st @
       (if sw_PrintAfter opts then
          ExpandFormat (if sw_Format opts = '''' then ''#{pane_id}'' else sw_Format opts)
            (buildFormatContext ctx m p) @ newline
        else '''')"
proof -
  obtain e w where ns: "NewSplit (ctx_Controller ctx) (split_direction (sw_Direction opts)) (World st) = (e, w)"
    by (cases "NewSplit (ctx_Controller ctx) (split_direction (sw_Direction opts)) (World st)")
  obtain p m where reg: "Register '''' (PaneManager st) = (Inr p, m)"
    using Register_result [of "''''" "PaneManager st"] by (metis prod.collapse)
  show thesis
  proof (cases e)
    case None
    with assms ns reg show ?thesis
      by (intro that(2) [of w p m]) (auto simp: handleSplitWindow_def Let_def split: if_splits)
  next
    case (Some e')
    with assms ns show ?thesis by (intro that(1) [of e' w]) (auto simp: handleSplitWindow_def)
  qed
qed

lemma handleKillPane_cases:
  assumes "handleKillPane ctx opts st = ((code, err), st')"
  obtains (failed) e w where "CloseSurface (ctx_Controller ctx) (World st) = (Some e, w)" "code = 1"
    "err = Some (Wrapf ''kill-pane: '' e '''')" "st' = st\<lparr>World := w\<rparr>"
  | (no_target) w where "CloseSurface (ctx_Controller ctx) (World st) = (None, w)"
    "extractPaneID (kp_Target opts) = ''''" "code = 0" "err = None" "st' = st\<lparr>World := w\<rparr>"
  | (target) w e m where "CloseSurface (ctx_Controller ctx) (World st) = (None, w)"
    "extractPaneID (kp_Target opts) \<noteq> ''''"
    "Unregister (extractPaneID (kp_Target opts)) (PaneManager st) = (e, m)"
    "err = map_option (\<lambda>e. Wrapf ''kill-pane: unregister: '' e '''') e" "code = (if e = None then 0 else 1)"
    "st' = st\<lparr>World := w, PaneManager := m\<rparr>"
proof -
  obtain e w where cs: "CloseSurface (ctx_Controller ctx) (World st) = (e, w)"
    by (cases "CloseSurface (ctx_Controller ctx) (World st)")
  obtain e2 m where un: "Unregister (extractPaneID (kp_Target opts)) (PaneManager st) = (e2, m)"
    by (cases "Unregister (extractPaneID (kp_Target opts)) (PaneManager st)")
  show thesis
  proof (cases e)
    case None
    with assms cs un show ?thesis
      by (cases "extractPaneID (kp_Target opts) = ''''"; cases e2)
         (auto simp: handleKillPane_def Let_def intro: that(2,3))
  next
    case (Some e')
    with assms cs show ?thesis by (intro that(1) [of e' w]) (auto simp: handleKillPane_def)
  qed
qed

text \<open>
  A terminal and an operating system for examples: the controller of \<open>Ghostty\<close> over a recording executor,
  and connections that log what is written and always confirm.
\<close>

definition sample_os :: "string list os" where
  "sample_os =
     \<lparr>os_Stat = (\<lambda>p w. (None, w)), os_Remove = (\<lambda>p w. (None, w)), os_MkdirAll = (\<lambda>p m w. (None, w)),
      os_Umask = (\<lambda>m w. (0, w)), os_Listen = (\<lambda>p w. (None, w)), os_Dial = (\<lambda>p t w. (None, w @ [p])),
      os_SetDeadline = (\<lambda>t w. w), os_Write = (\<lambda>s w. (None, w @ [s])), os_CloseWrite = (\<lambda>w. w),
      os_ReadAll = (\<lambda>w. ((Encode_response \<lparr>OK = True, Error = ''''\<rparr>, None), w)),
      os_CloseConn = (\<lambda>w. w), os_Sleep = (\<lambda>t w. w)\<rparr>"

definition sample_ctx :: "string list CommandContext" where
  "sample_ctx =
     \<lparr>ctx_Controller = NewWithExecutor (recording (\<lambda>log. None)), ctx_Session = ''work'', ctx_os = sample_os,
      ctx_TempDir = ''/tmp'', ctx_order = rev\<rparr>"

definition sample_state :: "string list State" where
  "sample_state = \<lparr>PaneManager = two_panes, Stdout = '''', Stderr = '''', World = []\<rparr>"

definition command_line :: "string \<Rightarrow> string list \<Rightarrow> ParseResult" where
  "command_line cmd args = \<lparr>Global = no_globals, Command = cmd, Args = args\<rparr>"

lemma Execute_status:
  assumes "Execute ctx r st = ((code, err), st')"
  shows "(code = 0 \<or> code = 1) \<and> (err \<noteq> None \<longrightarrow> code = 1) \<and>
    (code = 1 \<and> err = None \<longrightarrow> Command r = ''has-session'' \<and> st' = st) \<and>
    (if Command r \<in> set tmux_commands then Stderr st' = Stderr st
     else code = 0 \<and> st' = st\<lparr>Stderr := Stderr st @ ''shimux: unsupported tmux command: '' @ Command r @ newline\<rparr>)"
  using assms
proof (cases rule: Execute_cases)
  case split_window
  from split_window(2) show ?thesis
  proof (cases rule: with_options_cases)
    case (2 opts)
    from 2(2) show ?thesis using split_window(1) by (cases rule: handleSplitWindow_cases) (auto simp: tmux_commands_def)
  qed (use split_window in \<open>simp add: tmux_commands_def\<close>)
next
  case kill_pane
  from kill_pane(2) show ?thesis
  proof (cases rule: with_options_cases)
    case (2 opts)
    from 2(2) show ?thesis using kill_pane(1) by (cases rule: handleKillPane_cases) (auto simp: tmux_commands_def)
  qed (use kill_pane in \<open>simp add: tmux_commands_def\<close>)
next
  case send_keys
  from send_keys(2) show ?thesis
  proof (cases rule: with_options_cases)
    case (2 opts)
    from handleSendKeys_fields [OF 2(2)] show ?thesis using send_keys(1) by (auto simp: tmux_commands_def)
  qed (use send_keys in \<open>simp add: tmux_commands_def\<close>)
qed (auto simp: handler_defs tmux_commands_def Let_def split: if_splits elim!: with_options_cases)

text \<open>
  C34: A command exits with 0 or 1. It reports an error only with exit code 1, and exit code 1 without an
  error is the answer of \<open>has-session\<close> for another session. A command outside the ten that are
  implemented, \<open>new-window\<close> among them, exits with 0, warns on the error stream and does nothing else; only
  such a command writes to the error stream.
\<close>
theorem Execute_exit:
  assumes "Execute ctx r st = ((code, err), st')"
  shows "(code = 0 \<or> code = 1) \<and> (err \<noteq> None \<longrightarrow> code = 1) \<and>
    (code = 1 \<and> err = None \<longrightarrow> Command r = ''has-session'' \<and> st' = st) \<and>
    (if Command r \<in> set tmux_commands then Stderr st' = Stderr st
     else code = 0 \<and> st' = st\<lparr>Stderr := Stderr st @ ''shimux: unsupported tmux command: '' @ Command r @ newline\<rparr>)"
  by (rule Execute_status [OF assms])

theorem Execute_exit_witness:
  "Stderr (snd (Execute sample_ctx (command_line ''new-window'' []) sample_state)) =
     ''shimux: unsupported tmux command: new-window'' @ newline"
proof -
  obtain code err st' where e: "Execute sample_ctx (command_line ''new-window'' []) sample_state = ((code, err), st')"
    by (metis prod.exhaust)
  from Execute_exit [OF e] show ?thesis
    by (simp add: e) (simp add: command_line_def tmux_commands_def sample_state_def)
qed

section \<open>Effect on the panes\<close>

lemma Unregister_error_state: "Unregister k m = (Some e, m') \<Longrightarrow> m' = m"
  by (auto simp: Unregister_def split: option.splits)





section \<open>What is printed\<close>

lemma ExpandFormat_pane_id: "ExpandFormat ''#{pane_id}'' fctx = PaneID fctx"
  using ExpandFormat_var [of "''''" "''pane_id''" "''''" fctx]
  by (simp add: ExpandFormat_tail open_tail_def lookupVar_def sublist_def)

lemma split_window_flags:
  "ParseSplitWindow [''-P''] = Inr \<lparr>sw_Horizontal = False, sw_Direction = ''down'', sw_Target = '''',
     sw_Size = '''', sw_PrintAfter = True, sw_Format = ''''\<rparr>"
  by (simp add: ParseSplitWindow_def ParseSplitWindow_loop.simps(2) sw_init_def)

lemma kill_pane_target: "ParseKillPane [''-t'', t] = Inr \<lparr>kp_Target = t\<rparr>"
  by (simp add: ParseKillPane_def ParseKillPane_loop.simps(2) kp_init_def)

text \<open>
  C2: What \<open>split-window -P\<close> prints names the pane it created: the line is \<open>%\<close> and the identifier of the pane
  that was appended, and \<open>kill-pane -t\<close> with that text removes that pane and no other, so the list of
  panes is what it was before.
\<close>
theorem split_window_kill_pane:
  assumes "mgr_inv (PaneManager st)" "mgr_room (PaneManager st)"
    and "Execute ctx (command_line ''split-window'' [''-P'']) st = ((0, err), st1)"
    and "Stdout st1 = Stdout st @ target @ newline"
    and "Execute ctx (command_line ''kill-pane'' [''-t'', target]) st1 = ((code, err2), st2)"
    and "fst (CloseSurface (ctx_Controller ctx) (World st1)) = None"
  shows "(\<exists>p. List (PaneManager st1) = List (PaneManager st) @ [p] \<and> target = CHR ''%'' # p_ID p) \<and>
    code = 0 \<and> err2 = None \<and> List (PaneManager st2) = List (PaneManager st)"
proof -
  from assms(3) have "handleSplitWindow ctx \<lparr>sw_Horizontal = False, sw_Direction = ''down'', sw_Target = '''',
      sw_Size = '''', sw_PrintAfter = True, sw_Format = ''''\<rparr> st = ((0, err), st1)"
    by (simp add: Execute_def command_line_def split_window_flags with_options_def)
  then obtain p m where reg: "Register '''' (PaneManager st) = (Inr p, m)" and m: "PaneManager st1 = m"
      and out: "Stdout st1 = Stdout st @ (CHR ''%'' # p_ID p) @ newline"
    by (cases rule: handleSplitWindow_cases) (auto simp: ExpandFormat_pane_id buildFormatContext_def Let_def)
  have inv: "mgr_inv m" using Register_inv [OF assms(1,2), of "''''"] reg by simp
  have list: "List m = List (PaneManager st) @ [p]"
    using panes.register_panes [OF assms(1,2) reg] by auto
  have digits: "list_all is_digit (p_ID p)" "p_ID p \<noteq> ''''"
    using panes.ids_numeric [OF inv, of p] list by auto
  have target: "target = CHR ''%'' # p_ID p" using out assms(4) by simp
  from assms(5) have "handleKillPane ctx \<lparr>kp_Target = target\<rparr> st1 = ((code, err2), st2)"
    by (simp add: Execute_def command_line_def kill_pane_target with_options_def)
  then have "code = 0 \<and> err2 = None \<and> List (PaneManager st2) = List (PaneManager st)"
    using panes.register_unregister [OF assms(1,2) reg] digits assms(6) m target
    by (cases rule: handleKillPane_cases) (auto simp: extractPaneID_id)
  then show ?thesis using m list target by auto
qed

theorem split_window_kill_pane_witness:
  "\<exists>st1 st2. Stdout st1 = ''%2'' @ newline \<and>
     Execute sample_ctx (command_line ''kill-pane'' [''-t'', ''%2'']) st1 = ((0, None), st2) \<and>
     List (PaneManager st2) = List two_panes"
proof -
  obtain code err st1 where s: "Execute sample_ctx (command_line ''split-window'' [''-P'']) sample_state = ((code, err), st1)"
    by (metis prod.exhaust)
  obtain code2 err2 st2 where k: "Execute sample_ctx (command_line ''kill-pane'' [''-t'', ''%2'']) st1 = ((code2, err2), st2)"
    by (metis prod.exhaust)
  have inv: "mgr_inv (PaneManager sample_state)" "mgr_room (PaneManager sample_state)"
    by (simp_all add: sample_state_def two_panes_inv two_panes_room)
  have "code = 0 \<and> Stdout st1 = ''%2'' @ newline"
    using s by (auto simp: Execute_def command_line_def split_window_flags with_options_def handleSplitWindow_def
        sample_ctx_def sample_state_def NewWithExecutor_def keysim_NewSplit_def split_direction_def keySplit_def
        recording_def Register_def nextID_def two_panes_eval ExpandFormat_pane_id buildFormatContext_def
        new_pane_def Let_def Fprintln_out_def)
  moreover have "fst (CloseSurface (ctx_Controller sample_ctx) (World st1)) = None"
    by (simp add: sample_ctx_def NewWithExecutor_def recording_def)
  ultimately show ?thesis
    using split_window_kill_pane [OF inv, of sample_ctx err st1 "''%2''" code2 err2 st2] s k
    by (auto simp: sample_state_def)
qed

lemma print_panes_stdout:
  "Stdout (print_panes ctx format ps st) =
     Stdout st @ concat (map (\<lambda>p. ExpandFormat format (buildFormatContext ctx (PaneManager st) p) @ newline) ps)"
  by (induction ps arbitrary: st) (simp_all add: Let_def)

lemma list_panes_flags:
  "ParseListPanes [] = Inr \<lparr>lp_Format = '''', lp_Target = ''''\<rparr>"
  "ParseListPanes [''-F'', f] = Inr \<lparr>lp_Format = f, lp_Target = ''''\<rparr>"
  by (simp_all add: ParseListPanes_def ParseListPanes_loop.simps(2) lp_init_def)

text \<open>
  C33: Whatever its arguments, when they parse, \<open>list-panes\<close> writes one line for each pane, in the order of
  registration, and nothing else: the line of pane \<open>i\<close> is the format expanded for it, and there \<open>#{pane_index}\<close> is \<open>i\<close>
  and \<open>#{pane_id}\<close> is \<open>%\<close> and its identifier, which is also what the line is without a format, as when there are no
  arguments at all.
\<close>
theorem list_panes_output:
  assumes "mgr_inv (PaneManager st)" "Command r = ''list-panes''" "ParseListPanes (Args r) = Inr opts"
  shows "Execute ctx r st = ((0, None), st\<lparr>Stdout := Stdout st @
      concat (map (\<lambda>i. ExpandFormat (if lp_Format opts = '''' then ''#{pane_id}'' else lp_Format opts)
          (buildFormatContext ctx (PaneManager st) (List (PaneManager st) ! i)) @ newline)
        [0..<length (List (PaneManager st))])\<rparr>) \<and>
    (\<forall>i < length (List (PaneManager st)).
       (let fctx = buildFormatContext ctx (PaneManager st) (List (PaneManager st) ! i) in
        ExpandFormat ''#{pane_index}'' fctx = Itoa (int i) \<and>
        ExpandFormat ''#{pane_id}'' fctx = CHR ''%'' # p_ID (List (PaneManager st) ! i))) \<and>
    (Args r = [] \<longrightarrow> lp_Format opts = '''')"
proof -
  let ?m = "PaneManager st"
  have pane_index: "ExpandFormat ''#{pane_index}'' fctx = PaneIndex fctx" for fctx
    using ExpandFormat_var [of "''''" "''pane_index''" "''''" fctx]
    by (simp add: ExpandFormat_tail open_tail_def lookupVar_def sublist_def)
  have "(\<lambda>i. ExpandFormat g (buildFormatContext ctx ?m (List ?m ! i)) @ newline) =
      (\<lambda>p. ExpandFormat g (buildFormatContext ctx ?m p) @ newline) \<circ> (!) (List ?m)" for g by auto
  then have lines: "map (\<lambda>i. ExpandFormat g (buildFormatContext ctx ?m (List ?m ! i)) @ newline) [0..<length (List ?m)] =
      map (\<lambda>p. ExpandFormat g (buildFormatContext ctx ?m p) @ newline) (List ?m)" for g
    by (simp only: map_map [symmetric] map_nth)
  have "st' = st\<lparr>Stdout := Stdout st'\<rparr>" if "PaneManager st' = ?m" "Stderr st' = Stderr st" "World st' = World st"
    for st' using that by (cases st'; cases st) simp
  then have "print_panes ctx g (List ?m) st = st\<lparr>Stdout := Stdout (print_panes ctx g (List ?m) st)\<rparr>" for g
    by simp
  then have "Execute ctx r st = ((0, None), st\<lparr>Stdout := Stdout st @
      concat (map (\<lambda>p. ExpandFormat (if lp_Format opts = '''' then ''#{pane_id}'' else lp_Format opts)
        (buildFormatContext ctx ?m p) @ newline) (List ?m))\<rparr>)"
    using assms(2,3)
    by (simp add: Execute_def with_options_def handleListPanes_def Let_def print_panes_stdout [symmetric])
  moreover have "Args r = [] \<longrightarrow> lp_Format opts = ''''" using assms(3) by (auto simp: list_panes_flags)
  ultimately show ?thesis
    using panes.index_of_nth [OF assms(1)]
    by (simp only: lines) (simp add: pane_index ExpandFormat_pane_id buildFormatContext_def Let_def)
qed

theorem list_panes_output_witness:
  "Stdout (snd (Execute sample_ctx (command_line ''list-panes'' []) sample_state)) =
     ''%0'' @ newline @ ''%1'' @ newline"
proof -
  have inv: "mgr_inv (PaneManager sample_state)" by (simp add: sample_state_def two_panes_inv)
  have "Command (command_line ''list-panes'' []) = ''list-panes''"
      "ParseListPanes (Args (command_line ''list-panes'' [])) = Inr \<lparr>lp_Format = '''', lp_Target = ''''\<rparr>"
    by (simp_all add: command_line_def list_panes_flags)
  from list_panes_output [OF inv this, of sample_ctx] show ?thesis
    by (simp add: ExpandFormat_pane_id buildFormatContext_def Let_def sample_state_def two_panes_eval List_def
        new_pane_def upt_rec)
qed

section \<open>send-keys\<close>

lemma send_keys_args:
  "ParseSendKeys ([''-t'', t, ''--''] @ keys) = Inr \<lparr>sk_Target = t, sk_Literal = False, sk_Keys = keys\<rparr>"
  by (simp add: ParseSendKeys_def ParseSendKeys_loop.simps(2) sk_init_def)

text \<open>An operating system on which one agent listens, at a path, and handles connections with \<open>handleConn\<close>.\<close>

definition agent_at :: "string \<Rightarrow> (string \<Rightarrow> 'v \<Rightarrow> go_error option \<times> 'v) \<Rightarrow> int \<Rightarrow> ('v \<times> string) os" where
  "agent_at path handler ahead =
     (loopback handler ahead)
       \<lparr>os_Dial := (\<lambda>p t (v, out). if p = path then (None, (v, ''''))
                                  else (Some (OsError ENOENT ''no such file or directory''), (v, out)))\<rparr>"

lemma agent_at_loopback:
  "SendKeysWithTimeout (agent_at path handler ahead) path d timeout w =
     SendKeysWithTimeout (loopback handler ahead) path d timeout w"
proof -
  have "os_Dial (agent_at path handler ahead) path t w = os_Dial (loopback handler ahead) path t w" for t
    by (cases w) (simp add: agent_at_def loopback_def link_def no_faults_def)
  moreover have "os_SetDeadline (agent_at path handler ahead) = os_SetDeadline (loopback handler ahead)"
      "os_Write (agent_at path handler ahead) = os_Write (loopback handler ahead)"
      "os_CloseWrite (agent_at path handler ahead) = os_CloseWrite (loopback handler ahead)"
      "os_ReadAll (agent_at path handler ahead) = os_ReadAll (loopback handler ahead)"
      "os_CloseConn (agent_at path handler ahead) = os_CloseConn (loopback handler ahead)"
    by (simp_all add: agent_at_def)
  ultimately show ?thesis unfolding SendKeysWithTimeout_def by (simp only:)
qed

lemma SendKeys_success:
  "SendKeysWithTimeout os path d connTimeout w = (None, w') \<Longrightarrow> SendKeys os path d w = (None, w')"
  by (simp add: SendKeys_def retryMaxAttempts_def numeral_eq_Suc)

lemma send_keys_to_agent:
  assumes "plain_dir (ctx_TempDir ctx) ts" "proper_elem (ctx_Session ctx)"
    and "list_all is_digit N" "N \<noteq> ''''"
    and "ctx_os ctx = agent_at (abs_path (ts @ [''shimux'', session_elem ts (ctx_Session ctx) N,
           ''pane-'' @ N @ ''.sock''])) handler ahead"
    and "d = concat (map ExpandSpecialKey keys)" "d \<noteq> ''''" "fits d"
    and "handler (to_valid_utf8 d) v = (None, v')" "World st = (v, out)"
  shows "Execute ctx (command_line ''send-keys'' ([''-t'', CHR ''%'' # N, ''--''] @ keys)) st =
    ((0, None), st\<lparr>World := (v', '''')\<rparr>)"
proof -
  have N: "CHR ''/'' \<notin> set N" using assms(3) by (auto simp: list_all_iff is_digit_def)
  define path where
    "path = abs_path (ts @ [''shimux'', session_elem ts (ctx_Session ctx) N, ''pane-'' @ N @ ''.sock''])"
  have path: "SafeSocketPath (ctx_TempDir ctx) (ctx_Session ctx) N = path"
    using SafeSocketPath_abs [OF assms(1,2) N] by (simp add: path_def)
  have "SendKeysWithTimeout (agent_at path handler ahead) path d connTimeout (v, out) = (None, (v', ''''))"
    unfolding agent_at_loopback exchange_conv using assms(8,9) by simp
  from SendKeys_success [OF this] have sent: "SendKeys (ctx_os ctx) path d (World st) = (None, (v', ''''))"
    unfolding assms(5,10) by (simp add: path_def)
  have data: "BuildSendKeysData keys False = d" by (simp add: BuildSendKeysData_concat assms(6))
  have "handleSendKeys ctx \<lparr>sk_Target = CHR ''%'' # N, sk_Literal = False, sk_Keys = keys\<rparr> st =
      ((0, None), st\<lparr>World := (v', '''')\<rparr>)"
    using assms(4,7) by (simp add: handleSendKeys_def data extractPaneID_id [OF assms(3)] path sent Let_def)
  then show ?thesis
    using send_keys_args [of "CHR ''%'' # N" keys] by (simp add: Execute_def command_line_def with_options_def)
qed

text \<open>
  From the command line to the handler of the agent: \<open>send-keys -t %N -- keys\<close> connects to the socket of
  pane \<open>N\<close> of the session and hands it the expansion of the keys, in one piece and once; it then exits with 0
  and has changed nothing else. (For valid UTF-8 the data is handed over unchanged.)
\<close>
theorem send_keys_delivers:
  assumes "plain_dir (ctx_TempDir ctx) ts" "proper_elem (ctx_Session ctx)"
    and "list_all is_digit N" "N \<noteq> ''''"
    and "ctx_os ctx = agent_at (abs_path (ts @ [''shimux'', session_elem ts (ctx_Session ctx) N,
           ''pane-'' @ N @ ''.sock''])) handler ahead"
    and "d = concat (map ExpandSpecialKey keys)" "d \<noteq> ''''" "fits d"
    and "handler (to_valid_utf8 d) v = (None, v')" "World st = (v, out)"
  shows "Execute ctx (command_line ''send-keys'' ([''-t'', CHR ''%'' # N, ''--''] @ keys)) st =
    ((0, None), st\<lparr>World := (v', '''')\<rparr>)"
  by (rule send_keys_to_agent [OF assms])

text \<open>A pane whose agent appends what it gets to a list.\<close>

definition pane_ctx :: "(string list \<times> string) CommandContext" where
  "pane_ctx =
     \<lparr>ctx_Controller = NewWithExecutor (\<lambda>s w. (None, w)), ctx_Session = ''work'',
      ctx_os = agent_at ''/tmp/shimux/work/pane-1.sock'' (\<lambda>s v. (None, v @ [s])) 0,
      ctx_TempDir = ''/tmp'', ctx_order = rev\<rparr>"

definition pane_state :: "(string list \<times> string) State" where
  "pane_state = \<lparr>PaneManager = two_panes, Stdout = '''', Stderr = '''', World = ([], '''')\<rparr>"

theorem send_keys_delivers_witness:
  "World (snd (Execute pane_ctx (command_line ''send-keys'' [''-t'', ''%1'', ''--'', ''ls'', ''Enter'']) pane_state)) =
     ([''ls'' @ [CHR 0x0D]], '''')"
proof -
  have keys: "ExpandSpecialKey ''ls'' = ''ls''" "ExpandSpecialKey ''Enter'' = [CHR 0x0D]" by (code_simp+)
  have esc: "escape_json (''ls'' @ [CHR 0x0D]) = ''ls'' @ [CHR 0x5C, CHR ''r'']" by code_simp
  have valid: "to_valid_utf8 (''ls'' @ [CHR 0x0D]) = ''ls'' @ [CHR 0x0D]"
    by (rule to_valid_utf8_id, rule valid_utf8_ascii) simp
  have "proper_elem ''work''" by (simp add: proper_elem_def)
  moreover have "list_all is_digit ''1''" by (simp add: is_digit_def)
  ultimately show ?thesis
    using send_keys_delivers [of pane_ctx "[''tmp'']" "''1''" "\<lambda>s v. (None, v @ [s])" 0 "''ls'' @ [CHR 0x0D]"
        "[''ls'', ''Enter'']" "[]" "[''ls'' @ [CHR 0x0D]]" pane_state "''''"]
      esc valid tmp_plain
    by (simp add: keys pane_ctx_def pane_state_def session_elem_def fits_def)
qed

text \<open>
  Without an identifier in its target \<open>send-keys\<close> writes to the pane that is active in the list, whatever
  order the map is visited in; when there is none it fails and contacts nobody. Without any data it does
  nothing and succeeds.
\<close>
theorem send_keys_default_pane:
  assumes "mgr_inv (PaneManager st)" "is_map_order (ctx_order ctx)"
    and "ParseSendKeys (Args r) = Inr opts" "Command r = ''send-keys''" "extractPaneID (sk_Target opts) = ''''"
  shows "Execute ctx r st =
    (let d = BuildSendKeysData (sk_Keys opts) (sk_Literal opts) in
     if d = '''' then ((0, None), st)
     else case find p_Active (List (PaneManager st)) of
         None \<Rightarrow> ((1, Some (Errorf ''send-keys: no target pane specified'')), st)
       | Some p \<Rightarrow>
           (let (err, w) = SendKeys (ctx_os ctx) (SafeSocketPath (ctx_TempDir ctx) (ctx_Session ctx) (p_ID p)) d (World st)
            in ((if err = None then 0 else 1, map_option (\<lambda>e. Wrapf ''send-keys: '' e '''') err), st\<lparr>World := w\<rparr>)))"
proof -
  have active: "GetActive (ctx_order ctx) (PaneManager st) = find p_Active (List (PaneManager st))"
    using assms(1,2) by (rule panes.active_find)
  have "p_ID p \<noteq> ''''" if "find p_Active (List (PaneManager st)) = Some p" for p
    using panes.ids_numeric [OF assms(1), of p] that by (auto simp: find_Some_iff)
  then show ?thesis
    using assms(3-5)
    by (auto simp: Execute_def with_options_def handleSendKeys_def Let_def active
        split: option.split prod.split)
qed

theorem send_keys_default_pane_witness:
  "\<exists>w. Execute sample_ctx (command_line ''send-keys'' [''a'']) sample_state = ((0, None), sample_state\<lparr>World := w\<rparr>) \<and>
     hd w = ''/tmp/shimux/work/pane-0.sock''"
proof -
  have p: "ParseSendKeys (Args (command_line ''send-keys'' [''a''])) = Inr \<lparr>sk_Target = '''', sk_Literal = False, sk_Keys = [''a'']\<rparr>"
    by (simp add: command_line_def ParseSendKeys_def ParseSendKeys_loop.simps(2) sk_init_def)
  have m: "mgr_inv (PaneManager sample_state)" "is_map_order (ctx_order sample_ctx)"
    by (simp_all add: sample_state_def sample_ctx_def two_panes_inv is_map_order_rev)
  have "ExpandSpecialKey ''a'' = ''a''" by code_simp
  then have d: "BuildSendKeysData [''a''] False = ''a''" by (simp add: BuildSendKeysData_concat)
  have path: "SafeSocketPath ''/tmp'' ''work'' ''0'' = ''/tmp/shimux/work/pane-0.sock''"
    using SafeSocketPath_abs [OF tmp_plain, of "''work''" "''0''"] by (simp add: proper_elem_def session_elem_def)
  have "\<exists>w. SendKeysWithTimeout sample_os p ''a'' connTimeout [] = (None, p # w)" for p
    using Decode_response_encode [of "\<lparr>OK = True, Error = ''''\<rparr>" "[]" None]
    by (simp add: SendKeysWithTimeout_def sample_os_def Marshal_request_def)
  then obtain w where "SendKeysWithTimeout sample_os ''/tmp/shimux/work/pane-0.sock'' ''a'' connTimeout [] =
      (None, ''/tmp/shimux/work/pane-0.sock'' # w)" by blast
  note sent = SendKeys_success [OF this]
  have "extractPaneID '''' = ''''" by (simp add: extractPaneID_def)
  then show ?thesis
    using send_keys_default_pane [OF m p] sent
    by (simp add: command_line_def d sample_state_def sample_ctx_def two_panes_eval List_def new_pane_def path)
qed

section \<open>What the terminal is told\<close>

text \<open>
  With the key-stroke controller a command runs at most one script, and only a script of the fixed set;
  \<open>kill-pane\<close> always runs one, even when its target then turns out to be unknown, and apart from it and
  \<open>split-window\<close> no command but \<open>send-keys\<close>, which talks to the agent, touches the world at all.
\<close>
theorem Execute_scripts:
  assumes "Execute (ctx\<lparr>ctx_Controller := NewWithExecutor (recording answer)\<rparr>) r st = ((code, err), st')"
    and "Command r \<noteq> ''send-keys''"
  shows "\<exists>ss. World st' = World st @ ss \<and> set ss \<subseteq> set keysim_scripts \<and> length ss \<le> 1 \<and>
    (ss \<noteq> [] \<longrightarrow> Command r = ''split-window'' \<or> Command r = ''kill-pane'')"
  using assms(1)
proof (cases rule: Execute_cases)
  case split_window
  from split_window(2) show ?thesis
  proof (cases rule: with_options_cases)
    case (2 opts)
    from 2(2) keysim.split_history [of answer "split_direction (sw_Direction opts)" "World st"] show ?thesis
      by (cases rule: handleSplitWindow_cases) (use split_window(1) in auto)
  qed simp
next
  case kill_pane
  from kill_pane(2) show ?thesis
  proof (cases rule: with_options_cases)
    case (2 opts)
    from 2(2) keysim.close_history [of answer "World st"] show ?thesis
      by (cases rule: handleKillPane_cases) (use kill_pane(1) in auto)
  qed simp
qed (use assms(2) in \<open>auto simp: handler_defs Let_def split: if_splits elim!: with_options_cases\<close>)

theorem Execute_scripts_witness:
  "length (World (snd (Execute sample_ctx (command_line ''split-window'' [''--left'']) sample_state))) \<le> 1"
proof -
  obtain code err st' where e: "Execute sample_ctx (command_line ''split-window'' [''--left'']) sample_state = ((code, err), st')"
    by (metis prod.exhaust)
  have "sample_ctx = sample_ctx\<lparr>ctx_Controller := NewWithExecutor (recording (\<lambda>log. None))\<rparr>"
    by (simp add: sample_ctx_def)
  with e Execute_scripts [of "\<lambda>log. None" sample_ctx "command_line ''split-window'' [''--left'']" sample_state code err st']
  show ?thesis by (auto simp: command_line_def sample_state_def)
qed

end
