(* ===== verification/Server.thy ===== *)
theory Server
  imports Protocol "HOL-Library.Multiset"
begin

text \<open>
  The concurrency of the socket server of \<open>internal/agent/protocol.go\<close>: the accept loop, which takes a
  semaphore slot before it starts a goroutine for a connection, the goroutines, which give the slot back
  and then leave the wait group, and \<open>Close\<close>, which closes the listener once and waits for the group. Every
  interleaving of their steps is a run of \<open>server_step\<close>. What a goroutine does with its connection is
  \<open>handleConn\<close> of \<open>Protocol\<close>.
\<close>

section \<open>State\<close>

text \<open>A connection is named by a number.\<close>

datatype accept_loop = Accepting | Acquiring nat | Spawning nat | Exited

datatype goroutine = Handling nat | Releasing nat | Leaving nat

text \<open>
  \<open>s_sem\<close> is the number of elements in the channel \<open>sem\<close> and \<open>s_wg\<close> the counter of the wait group. \<open>s_waiting\<close> and
  \<open>s_returned\<close> count the calls of \<open>Close\<close> that wait for the group and that have returned; \<open>s_accepted\<close> and
  \<open>s_served\<close> record connections and only serve to state properties.
\<close>

record Server =
  s_closed :: bool
  s_sem :: nat
  s_wg :: nat
  s_loop :: accept_loop
  s_handlers :: "goroutine list"
  s_waiting :: nat
  s_returned :: nat
  s_accepted :: "nat multiset"
  s_served :: "nat multiset"

text \<open>The server \<open>ListenAndServe\<close> returns: the wait group already counts the accept loop.\<close>

definition new_server :: Server where
  "new_server =
     \<lparr>s_closed = False, s_sem = 0, s_wg = 1, s_loop = Accepting, s_handlers = [], s_waiting = 0,
      s_returned = 0, s_accepted = {#}, s_served = {#}\<rparr>"

section \<open>Steps\<close>

datatype event =
    Accept nat | AcceptError | Acquire | Spawn | Handled nat | Release nat | Leave nat
  | CloseCall | CloseReturn

inductive server_step :: "Server \<Rightarrow> event \<Rightarrow> Server \<Rightarrow> bool" where
  accept: "s_loop s = Accepting \<Longrightarrow> \<not> s_closed s \<Longrightarrow>
     server_step s (Accept c) (s\<lparr>s_loop := Acquiring c, s_accepted := s_accepted s + {#c#}\<rparr>)"
| accept_error: "s_loop s = Accepting \<Longrightarrow>
     server_step s AcceptError (s\<lparr>s_loop := Exited, s_wg := s_wg s - 1\<rparr>)"
| acquire: "s_loop s = Acquiring c \<Longrightarrow> s_sem s < maxConcurrent \<Longrightarrow>
     server_step s Acquire (s\<lparr>s_loop := Spawning c, s_sem := s_sem s + 1\<rparr>)"
| spawn: "s_loop s = Spawning c \<Longrightarrow>
     server_step s Spawn
       (s\<lparr>s_loop := Accepting, s_wg := s_wg s + 1, s_handlers := s_handlers s @ [Handling c]\<rparr>)"
| handled: "s_handlers s = gs @ Handling c # hs \<Longrightarrow>
     server_step s (Handled c)
       (s\<lparr>s_handlers := gs @ Releasing c # hs, s_served := s_served s + {#c#}\<rparr>)"
| release: "s_handlers s = gs @ Releasing c # hs \<Longrightarrow> s_sem s > 0 \<Longrightarrow>
     server_step s (Release c) (s\<lparr>s_handlers := gs @ Leaving c # hs, s_sem := s_sem s - 1\<rparr>)"
| leave: "s_handlers s = gs @ Leaving c # hs \<Longrightarrow>
     server_step s (Leave c) (s\<lparr>s_handlers := gs @ hs, s_wg := s_wg s - 1\<rparr>)"
| close_call:
    "server_step s CloseCall (s\<lparr>s_closed := True, s_waiting := s_waiting s + 1\<rparr>)"
| close_return: "s_waiting s > 0 \<Longrightarrow> s_wg s = 0 \<Longrightarrow>
     server_step s CloseReturn (s\<lparr>s_waiting := s_waiting s - 1, s_returned := s_returned s + 1\<rparr>)"

inductive server_run :: "Server \<Rightarrow> bool" where
  run_start: "server_run new_server"
| run_step: "server_run s \<Longrightarrow> server_step s e s' \<Longrightarrow> server_run s'"

section \<open>Invariant\<close>

definition has_slot :: "goroutine \<Rightarrow> bool" where
  "has_slot g \<longleftrightarrow> (case g of Leaving c \<Rightarrow> False | _ \<Rightarrow> True)"

definition loop_slots :: "accept_loop \<Rightarrow> nat" where
  "loop_slots l = (case l of Spawning c \<Rightarrow> 1 | _ \<Rightarrow> 0)"

definition unserved :: "Server \<Rightarrow> nat multiset" where
  "unserved s =
     (case s_loop s of Acquiring c \<Rightarrow> {#c#} | Spawning c \<Rightarrow> {#c#} | _ \<Rightarrow> {#}) +
     mset (List.map_filter (\<lambda>g. case g of Handling c \<Rightarrow> Some c | _ \<Rightarrow> None) (s_handlers s))"

definition server_inv :: "Server \<Rightarrow> bool" where
  "server_inv s \<longleftrightarrow>
     s_sem s = loop_slots (s_loop s) + length (filter has_slot (s_handlers s)) \<and>
     s_sem s \<le> maxConcurrent \<and>
     s_wg s = (if s_loop s = Exited then 0 else 1) + length (s_handlers s) \<and>
     s_accepted s = s_served s + unserved s \<and>
     (s_waiting s + s_returned s > 0 \<longrightarrow> s_closed s) \<and>
     (s_returned s > 0 \<longrightarrow> s_wg s = 0)"

lemmas inv_simps = server_inv_def loop_slots_def has_slot_def unserved_def map_filter_simps

lemma map_filter_append: "List.map_filter f (xs @ ys) = List.map_filter f xs @ List.map_filter f ys"
  by (simp add: List.map_filter_def)

lemma server_inv_new: "server_inv new_server"
  by (simp add: inv_simps new_server_def)

lemma server_inv_step:
  assumes "server_step s e s'" "server_inv s"
  shows "server_inv s'"
  using assms
proof cases
  case (release gs c hs)
  with assms(2) show ?thesis by (auto simp: inv_simps map_filter_append)
qed (auto simp: inv_simps map_filter_append split: accept_loop.splits)

lemma server_run_inv: "server_run s \<Longrightarrow> server_inv s"
  by (induction rule: server_run.induct) (auto intro: server_inv_new server_inv_step)

text \<open>A complete run with one connection, whose goroutine is still busy when \<open>Close\<close> is called.\<close>

definition served_server :: Server where
  "served_server =
     \<lparr>s_closed = True, s_sem = 1, s_wg = 1, s_loop = Exited, s_handlers = [Handling 7], s_waiting = 1,
      s_returned = 0, s_accepted = {#7#}, s_served = {#}\<rparr>"

lemma served_run: "server_run served_server"
proof -
  note n = new_server_def maxConcurrent_def served_server_def
  have 1: "server_run (new_server\<lparr>s_loop := Acquiring 7, s_accepted := {#7#}\<rparr>)"
    using run_step [OF run_start server_step.accept [of new_server 7]] by (simp add: n)
  have 2: "server_run (new_server\<lparr>s_loop := Spawning 7, s_accepted := {#7#}, s_sem := 1\<rparr>)"
    using run_step [OF 1 server_step.acquire [of _ 7]] by (simp add: n)
  have 3: "server_run (new_server\<lparr>s_accepted := {#7#}, s_sem := 1, s_wg := 2, s_handlers := [Handling 7]\<rparr>)"
    using run_step [OF 2 server_step.spawn [of _ 7]] by (simp add: n numeral_2_eq_2)
  have 4: "server_run (new_server\<lparr>s_accepted := {#7#}, s_sem := 1, s_wg := 2, s_handlers := [Handling 7],
      s_closed := True, s_waiting := 1\<rparr>)"
    using run_step [OF 3 server_step.close_call] by (simp add: n numeral_2_eq_2)
  show ?thesis
    using run_step [OF 4 server_step.accept_error] by (simp add: n numeral_2_eq_2)
qed

lemma closed_run:
  "server_run (served_server\<lparr>s_sem := 0, s_wg := 0, s_handlers := [], s_waiting := 0, s_returned := 1,
     s_served := {#7#}\<rparr>)"
proof -
  note n = served_server_def
  have 1: "server_run (served_server\<lparr>s_handlers := [Releasing 7], s_served := {#7#}\<rparr>)"
    using run_step [OF served_run server_step.handled [of _ "[]" 7 "[]"]] by (simp add: n)
  have 2: "server_run (served_server\<lparr>s_handlers := [Leaving 7], s_served := {#7#}, s_sem := 0\<rparr>)"
    using run_step [OF 1 server_step.release [of _ "[]" 7 "[]"]] by (simp add: n)
  have 3: "server_run (served_server\<lparr>s_handlers := [], s_served := {#7#}, s_sem := 0, s_wg := 0\<rparr>)"
    using run_step [OF 2 server_step.leave [of _ "[]" 7 "[]"]] by (simp add: n)
  show ?thesis
    using run_step [OF 3 server_step.close_return] by (simp add: n)
qed

section \<open>Properties\<close>

text \<open>
  C11: At no time do more than 16 goroutines handle a connection, whatever the interleaving, and the wait
  group counts exactly the accept loop and the goroutines that have not left. No accepted connection is
  lost or refused: each has been handled, is being handled, or is the one the accept loop holds while it waits for
  a slot, as it does with the seventeenth. Those after it stay with the operating system until they are accepted.
\<close>
theorem server_concurrency_bound:
  assumes "server_run s"
  shows "length (filter has_slot (s_handlers s)) \<le> 16 \<and>
    s_wg s = (if s_loop s = Exited then 0 else 1) + length (s_handlers s) \<and>
    s_accepted s = s_served s + unserved s"
  using server_run_inv [OF assms] by (simp add: server_inv_def maxConcurrent_def)

theorem server_concurrency_bound_witness:
  "length (filter has_slot (s_handlers served_server)) \<le> 16 \<and> s_wg served_server = 1"
  using server_concurrency_bound [OF served_run] by (simp add: served_server_def)

text \<open>
  C12: When a call of \<open>Close\<close> has returned, the accept loop has ended, no goroutine is left, every accepted
  connection has been handled, and the server can do nothing any more but answer further calls of \<open>Close\<close>.
\<close>
theorem Close_waits:
  assumes "server_run s" "s_returned s > 0"
  shows "s_closed s \<and> s_loop s = Exited \<and> s_handlers s = [] \<and> s_accepted s = s_served s \<and>
    (\<forall>e s'. server_step s e s' \<longrightarrow> e = CloseCall \<or> e = CloseReturn)"
proof -
  have inv: "server_inv s" using server_run_inv [OF assms(1)] .
  with assms(2) have s: "s_closed s" "s_loop s = Exited" "s_handlers s = []"
    by (auto simp: server_inv_def split: if_splits)
  moreover have "s_accepted s = s_served s"
    using inv s by (simp add: server_inv_def unserved_def map_filter_simps)
  moreover have "e = CloseCall \<or> e = CloseReturn" if "server_step s e s'" for e s'
    using that s by cases auto
  ultimately show ?thesis by blast
qed

theorem Close_waits_witness:
  "\<exists>s. server_run s \<and> s_returned s = 1 \<and> s_served s = {#7#} \<and> s_handlers s = []"
  using Close_waits [OF closed_run] closed_run
  by (intro exI [of _ "served_server\<lparr>s_sem := 0, s_wg := 0, s_handlers := [], s_waiting := 0,
    s_returned := 1, s_served := {#7#}\<rparr>"]) simp

text \<open>The work left after the listener is closed.\<close>

fun goroutine_work :: "goroutine \<Rightarrow> nat" where
  "goroutine_work (Handling c) = 3"
| "goroutine_work (Releasing c) = 2"
| "goroutine_work (Leaving c) = 1"

fun loop_work :: "accept_loop \<Rightarrow> nat" where
  "loop_work Exited = 0"
| "loop_work Accepting = 1"
| "loop_work (Spawning c) = 5"
| "loop_work (Acquiring c) = 6"

definition server_work :: "Server \<Rightarrow> nat" where
  "server_work s = loop_work (s_loop s) + sum_list (map goroutine_work (s_handlers s)) + s_waiting s"

lemma server_work_decreases:
  assumes "server_step s e s'" "s_closed s" "e \<noteq> CloseCall"
  shows "server_work s' < server_work s \<and> s_closed s'"
  using assms by cases (auto simp: server_work_def)

lemma server_progress:
  assumes "server_inv s" "s_waiting s > 0"
  shows "\<exists>e s'. server_step s e s' \<and> e \<noteq> CloseCall"
proof (cases "s_handlers s")
  case (Cons g gs)
  show ?thesis
  proof (cases g)
    case (Handling c)
    with Cons server_step.handled [of s "[]" c gs] show ?thesis by force
  next
    case (Releasing c)
    then have "s_sem s > 0" using assms(1) Cons by (simp add: server_inv_def has_slot_def)
    with Cons Releasing server_step.release [of s "[]" c gs] show ?thesis by force
  next
    case (Leaving c)
    with Cons server_step.leave [of s "[]" c gs] show ?thesis by force
  qed
next
  case Nil
  show ?thesis
  proof (cases "s_loop s")
    case Accepting
    then show ?thesis using server_step.accept_error by blast
  next
    case (Acquiring c)
    then have "s_sem s < maxConcurrent"
      using assms(1) Nil by (simp add: server_inv_def loop_slots_def maxConcurrent_def)
    with Acquiring show ?thesis using server_step.acquire by blast
  next
    case (Spawning c)
    then show ?thesis using server_step.spawn by blast
  next
    case Exited
    then have "s_wg s = 0" using assms(1) Nil by (simp add: server_inv_def)
    with assms(2) show ?thesis using server_step.close_return by blast
  qed
qed

text \<open>
  C13: \<open>Close\<close> returns, provided the handlers do: once the listener is closed, every step but a further
  call of \<open>Close\<close> uses up a bounded amount of work, so there is no endless run, and while a call of \<open>Close\<close>
  waits some step is possible; in particular the semaphore cannot deadlock the accept loop.
\<close>
theorem Close_terminates:
  assumes "server_run s" "s_closed s"
  shows "(\<forall>e s'. server_step s e s' \<and> e \<noteq> CloseCall \<longrightarrow> server_work s' < server_work s \<and> s_closed s') \<and>
    (s_waiting s > 0 \<longrightarrow> (\<exists>e s'. server_step s e s' \<and> e \<noteq> CloseCall)) \<and>
    (\<exists>s'. server_run s' \<and> s_waiting s' = 0 \<and> s_returned s' \<ge> s_waiting s)"
proof -
  have "\<exists>s'. server_run s' \<and> s_waiting s' = 0 \<and> s_returned s' \<ge> s_returned s + s_waiting s"
    using assms
  proof (induction s rule: measure_induct_rule [of server_work])
    case (less s)
    show ?case
    proof (cases "s_waiting s = 0")
      case False
      then obtain e s' where step: "server_step s e s'" "e \<noteq> CloseCall"
        using server_progress [OF server_run_inv [OF less.prems(1)]] by blast
      have "s_returned s' + s_waiting s' \<ge> s_returned s + s_waiting s"
        using step(1) by cases auto
      moreover have "server_run s'" using less.prems(1) step(1) by (rule run_step)
      ultimately show ?thesis
        using less.IH [of s'] server_work_decreases [OF step(1) less.prems(2) step(2)] by force
    qed (use less.prems in auto)
  qed
  then show ?thesis
    using server_work_decreases [OF _ assms(2)] server_progress [OF server_run_inv [OF assms(1)]]
    by (fastforce dest: le_trans [OF le_add2])
qed

theorem Close_terminates_witness:
  "\<exists>s'. server_run s' \<and> s_waiting s' = 0 \<and> s_returned s' \<ge> 1"
  using Close_terminates [OF served_run] by (simp add: served_server_def)

end
