(* ===== verification/Json_Indent.thy ===== *)
theory Json_Indent
  imports Json_Codec
begin

text \<open>
  \<open>json.MarshalIndent\<close> with the indentation the program uses, two spaces, and \<open>json.Unmarshal\<close> of a whole text.
  What the first writes the second reads back, up to invalid UTF-8.
\<close>

section \<open>Writing\<close>

definition indent :: "nat \<Rightarrow> string" where
  "indent d = CHR 0x0A # replicate (2 * d) (CHR '' '')"

fun join_with :: "string \<Rightarrow> string list \<Rightarrow> string" where
  "join_with sep [] = ''''"
| "join_with sep [x] = x"
| "join_with sep (x # y # ys) = x @ sep @ join_with sep (y # ys)"

fun marshal_indent :: "nat \<Rightarrow> json \<Rightarrow> string" where
  "marshal_indent d JNull = ''null''"
| "marshal_indent d (JBool b) = (if b then ''true'' else ''false'')"
| "marshal_indent d (JNumber n) = n"
| "marshal_indent d (JString s) = quote_json s"
| "marshal_indent d (JArray vs) =
     (if vs = [] then ''[]''
      else ''['' @ indent (d + 1) @ join_with ('','' @ indent (d + 1)) (map (marshal_indent (d + 1)) vs) @
           indent d @ '']'')"
| "marshal_indent d (JObject ms) =
     (if ms = [] then ''{}''
      else ''{'' @ indent (d + 1) @
           join_with ('','' @ indent (d + 1))
             (map (\<lambda>m. quote_json (fst m) @ '': '' @ marshal_indent (d + 1) (snd m)) ms) @
           indent d @ ''}'')"

section \<open>Reading a whole text\<close>

definition Unmarshal_value :: "string \<Rightarrow> json result" where
  "Unmarshal_value s =
     (case scan_json s of
        Scanned v rest \<Rightarrow>
          (case dropWhile is_space rest of
             [] \<Rightarrow> Inr v
           | c # _ \<Rightarrow> Inl (Errorf (''invalid character '' @ quoteChar c @ '' after top-level value'')))
      | Partial seen (Some v) \<Rightarrow> Inr v
      | Partial seen None \<Rightarrow> Inl (Errorf ''unexpected end of JSON input'')
      | Invalid c what \<Rightarrow> Inl (Errorf (''invalid character '' @ quoteChar c @ '' '' @ what)))"

section \<open>Reading back what was written\<close>

fun json_valid :: "json \<Rightarrow> json" where
  "json_valid (JString s) = JString (to_valid_utf8 s)"
| "json_valid (JArray vs) = JArray (map json_valid vs)"
| "json_valid (JObject ms) = JObject (map (\<lambda>m. (to_valid_utf8 (fst m), json_valid (snd m))) ms)"
| "json_valid v = v"

fun json_depth :: "json \<Rightarrow> nat" where
  "json_depth (JArray vs) = Suc (foldr max (map json_depth vs) 0)"
| "json_depth (JObject ms) = Suc (foldr max (map (\<lambda>m. json_depth (snd m)) ms) 0)"
| "json_depth v = 0"

text \<open>All numbers are integers in the form \<open>Itoa\<close> writes.\<close>

fun int_numbers :: "json \<Rightarrow> bool" where
  "int_numbers (JNumber n) \<longleftrightarrow> (\<exists>i. n = Itoa i)"
| "int_numbers (JArray vs) \<longleftrightarrow> list_all int_numbers vs"
| "int_numbers (JObject ms) \<longleftrightarrow> list_all (\<lambda>m. int_numbers (snd m)) ms"
| "int_numbers v \<longleftrightarrow> True"

lemma foldr_max_le: "x \<in> set xs \<Longrightarrow> x \<le> foldr max xs (0 :: nat)"
  by (induction xs) auto

lemma scan_spaces:
  assumes "st = BeginValue \<or> st = BeginValueOrEmpty \<or> st = BeginString \<or> st = BeginStringOrEmpty \<or>
    st = EndValue \<and> (\<exists>f stk'. stk = f # stk' \<and> (\<forall>ms. f \<noteq> FKey ms) \<and> (\<forall>k ms. f \<noteq> FValue k ms))"
  shows "scan_from (stk, st) (indent d @ t) = scan_from (stk, st) t"
proof -
  have step: "scan_from (stk, st) (c # u) = scan_from (stk, st) u" if "is_space c" for c u
    using assms that
  proof (elim disjE conjE exE)
    fix f stk'
    assume "st = EndValue" "stk = f # stk'" "\<forall>ms. f \<noteq> FKey ms" "\<forall>k ms. f \<noteq> FValue k ms"
    with that show ?thesis by (cases f) auto
  qed auto
  have "scan_from (stk, st) (replicate n (CHR '' '') @ t) = scan_from (stk, st) t" for n
    by (induction n) (simp_all add: step is_space_def del: scan_from.simps)
  then show ?thesis by (simp add: indent_def step is_space_def del: scan_from.simps)
qed

section \<open>Numbers\<close>

lemma nat_digits_head: "0 < n \<Longrightarrow> hd (nat_digits n) \<noteq> CHR ''0''"
proof (induction n rule: nat_digits.induct)
  case (1 n)
  show ?case
  proof (cases "n < 10")
    case True
    have "digit_char n \<noteq> CHR ''0''"
    proof
      assume "digit_char n = CHR ''0''"
      then have "(of_char (digit_char n) :: nat) = 48" by simp
      with True 1(2) show False by (simp add: of_char_digit_char)
    qed
    with True show ?thesis by (simp add: nat_digits.simps [of n])
  next
    case False
    then have "hd (nat_digits n) = hd (nat_digits (n div 10))"
      by (subst nat_digits.simps) simp
    with 1(1) False show ?thesis by simp
  qed
qed

definition value_frame :: "frame list \<Rightarrow> bool" where
  "value_frame stk \<longleftrightarrow> (\<exists>stk' vs k ms. stk = FArray vs # stk' \<or> stk = FValue k ms # stk')"

definition ends_number :: "char \<Rightarrow> bool" where
  "ends_number c \<longleftrightarrow> c = CHR '','' \<or> c = CHR 0x0A"

lemma scan_number_end:
  assumes "value_frame stk" "ends_number c" "ns = NZero \<or> ns = NInt"
  shows "scan_from (stk, InNumber ns raw) (c # t) = scan_from (complete stk (JNumber (rev raw))) (c # t)"
proof -
  have "\<not> is_digit c" "c \<noteq> CHR ''.''" "c \<noteq> CHR ''e''" "c \<noteq> CHR ''E''"
    using assms(2) by (auto simp: ends_number_def is_digit_def)
  then have "num_step ns c = Inr None" using assms(3) by (auto simp: num_step_def)
  with assms(1) show ?thesis by (auto simp: value_frame_def)
qed

lemma scan_digits:
  "list_all is_digit ds \<Longrightarrow> scan_from (stk, InNumber NInt raw) (ds @ t) = scan_from (stk, InNumber NInt (rev ds @ raw)) t"
  by (induction ds arbitrary: raw) (simp_all add: num_step_def)

lemma digit_not_special:
  assumes "is_digit c"
  shows "c \<noteq> CHR ''{''" "c \<noteq> CHR ''[''" "c \<noteq> CHR 0x22" "c \<noteq> CHR ''-''" "c \<noteq> CHR ''t''" "c \<noteq> CHR ''f''"
    "c \<noteq> CHR ''n''" "\<not> is_space c" "c \<noteq> CHR '']''"
  using assms by (auto simp: is_digit_def is_space_def)

lemma scan_nat_digits:
  assumes "value_frame stk" "ends_number c"
  shows "scan_from (stk, BeginValue) (nat_digits n @ c # t) =
      scan_from (complete stk (JNumber (nat_digits n))) (c # t)"
    and "scan_from (stk, InNumber NNeg [CHR ''-'']) (nat_digits n @ c # t) =
      scan_from (complete stk (JNumber (CHR ''-'' # nat_digits n))) (c # t)"
proof -
  obtain d ds where nd: "nat_digits n = d # ds" by (cases "nat_digits n") auto
  have digits: "is_digit d" "list_all is_digit ds" using nat_digits_digits [of n] nd by auto
  have zero: "ds = [] \<and> n = 0" if "d = CHR ''0''"
  proof -
    have "n = 0" using nat_digits_head [of n] nd that by auto
    then show ?thesis using nd by (simp add: nat_digits.simps)
  qed
  show "scan_from (stk, BeginValue) (nat_digits n @ c # t) =
      scan_from (complete stk (JNumber (nat_digits n))) (c # t)"
  proof (cases "d = CHR ''0''")
    case True
    with zero nd show ?thesis
      using scan_number_end [OF assms, of NZero "[CHR ''0'']" t] by (simp add: begin_value_def is_space_def)
  next
    case False
    have "scan_from (stk, BeginValue) (d # ds @ c # t) = scan_from (stk, InNumber NInt [d]) (ds @ c # t)"
      using False digits(1) digit_not_special [OF digits(1)] by (simp add: begin_value_def)
    then show ?thesis
      using scan_number_end [OF assms, of NInt "rev ds @ [d]" t] digits(2) by (simp add: nd scan_digits)
  qed
  show "scan_from (stk, InNumber NNeg [CHR ''-'']) (nat_digits n @ c # t) =
      scan_from (complete stk (JNumber (CHR ''-'' # nat_digits n))) (c # t)"
  proof (cases "d = CHR ''0''")
    case True
    with zero nd show ?thesis
      using scan_number_end [OF assms, of NZero "[CHR ''0'', CHR ''-'']" t] by (simp add: num_step_def)
  next
    case False
    have "scan_from (stk, InNumber NNeg [CHR ''-'']) (d # ds @ c # t) =
        scan_from (stk, InNumber NInt [d, CHR ''-'']) (ds @ c # t)"
      using False digits(1) by (simp add: num_step_def)
    then show ?thesis
      using scan_number_end [OF assms, of NInt "rev ds @ [d, CHR ''-'']" t] digits(2) by (simp add: nd scan_digits)
  qed
qed

lemma scan_Itoa:
  assumes "value_frame stk" "ends_number c"
  shows "scan_from (stk, BeginValue) (Itoa i @ c # t) = scan_from (complete stk (JNumber (Itoa i))) (c # t)"
  using scan_nat_digits [OF assms] by (simp add: Itoa_def begin_value_def is_space_def)

section \<open>The round trip\<close>

lemma scan_container:
  "value_frame stk \<Longrightarrow> int (length stk) + 1 \<le> maxNestingDepth \<Longrightarrow>
     scan_from (stk, BeginValue) (CHR ''{'' # t) = scan_from (FKey [] # stk, BeginStringOrEmpty) t"
  "value_frame stk \<Longrightarrow> int (length stk) + 1 \<le> maxNestingDepth \<Longrightarrow>
     scan_from (stk, BeginValue) (CHR ''['' # t) = scan_from (FArray [] # stk, BeginValueOrEmpty) t"
  by (simp_all add: begin_value_def is_space_def push_frame_def)

lemma scan_quoted:
  "scan_from (stk, BeginString) (quote_json s @ t) = scan_from (complete_string stk (to_valid_utf8 s)) t"
  "scan_from (stk, BeginStringOrEmpty) (quote_json s @ t) = scan_from (complete_string stk (to_valid_utf8 s)) t"
  "scan_from (stk, BeginValue) (quote_json s @ t) = scan_from (complete_string stk (to_valid_utf8 s)) t"
  using scan_quote_json [of stk s t]
  by (simp_all add: quote_json_def begin_string_def begin_value_def is_space_def)

lemma value_frame_complete_string: "value_frame stk \<Longrightarrow> complete_string stk s = complete stk (JString s)"
  by (auto simp: value_frame_def)

text \<open>The first byte of a value starts a value also where an array may end.\<close>

lemma quote_json_head: "\<exists>s'. quote_json s = CHR 0x22 # s'"
  by (simp add: quote_json_def)

lemma marshal_head:
  assumes "int_numbers v"
  shows "\<exists>c s. marshal_indent d v = c # s \<and> \<not> is_space c \<and> c \<noteq> CHR '']''"
proof (cases v)
  case (JNumber n)
  then obtain i where n: "n = Itoa i" using assms by auto
  obtain c s where c: "nat_digits (nat i) = c # s" by (cases "nat_digits (nat i)") auto
  then have "is_digit c" using nat_digits_digits [of "nat i"] by simp
  with c show ?thesis using digit_not_special [of c] by (auto simp: JNumber n Itoa_def is_space_def)
next
  case (JString s)
  then show ?thesis using quote_json_head [of s] by (auto simp: is_space_def)
qed (auto simp: is_space_def)

lemma scan_value_or_empty:
  "\<not> is_space c \<Longrightarrow> c \<noteq> CHR '']'' \<Longrightarrow>
     scan_from (stk, BeginValueOrEmpty) (c # s) = scan_from (stk, BeginValue) (c # s)"
  by simp

text \<open>What the induction says of a value: scanned in front of a byte that ends a number, it goes to its container.\<close>

definition scans :: "nat \<Rightarrow> json \<Rightarrow> frame list \<Rightarrow> bool" where
  "scans d v stk \<longleftrightarrow>
     (\<forall>c t. ends_number c \<longrightarrow>
        scan_from (stk, BeginValue) (marshal_indent d v @ c # t) = scan_from (complete stk (json_valid v)) (c # t))"

lemma ends_number_chars: "ends_number (CHR '','')" "ends_number (CHR 0x0A)"
  by (simp_all add: ends_number_def)

lemma indent_Cons: "indent d @ t = CHR 0x0A # replicate (2 * d) (CHR '' '') @ t"
  by (simp add: indent_def)

lemma scan_elements:
  assumes "\<And>v ws. v \<in> set vs \<Longrightarrow> scans (d + 1) v (FArray ws # stk)" "vs \<noteq> []"
  shows "scan_from (FArray ws # stk, BeginValue)
      (join_with ('','' @ indent (d + 1)) (map (marshal_indent (d + 1)) vs) @ indent d @ '']'' @ t) =
    scan_from (complete stk (JArray (rev ws @ map json_valid vs))) t"
  using assms
proof (induction vs arbitrary: ws)
  case (Cons v vs)
  have v: "scan_from (FArray ws # stk, BeginValue) (marshal_indent (d + 1) v @ c # u) =
      scan_from (FArray (json_valid v # ws) # stk, EndValue) (c # u)" if "ends_number c" for c u
    using Cons.prems(1) [of v ws] that by (simp add: scans_def)
  show ?case
  proof (cases vs)
    case Nil
    have "scan_from (FArray (json_valid v # ws) # stk, EndValue) (indent d @ '']'' @ t) =
        scan_from (complete stk (JArray (rev ws @ [json_valid v]))) t"
      by (subst scan_spaces) (auto simp: is_space_def)
    then show ?thesis
      using v [OF ends_number_chars(2), of "replicate (2 * d) (CHR '' '') @ '']'' @ t"] Nil
      by (simp only: indent_Cons [symmetric] append_assoc) (simp del: scan_from.simps)
  next
    case (Cons v2 vs2)
    let ?rest = "join_with ('','' @ indent (d + 1)) (map (marshal_indent (d + 1)) vs) @ indent d @ '']'' @ t"
    have "scan_from (FArray (json_valid v # ws) # stk, EndValue) (CHR '','' # indent (d + 1) @ ?rest) =
        scan_from (FArray (json_valid v # ws) # stk, BeginValue) (indent (d + 1) @ ?rest)"
      by (simp add: is_space_def)
    also have "\<dots> = scan_from (FArray (json_valid v # ws) # stk, BeginValue) ?rest"
      by (rule scan_spaces) simp
    also have "\<dots> = scan_from (complete stk (JArray (rev (json_valid v # ws) @ map json_valid vs))) t"
      using Cons.IH [of "json_valid v # ws"] Cons.prems(1) Cons by simp
    finally have "scan_from (FArray (json_valid v # ws) # stk, EndValue) (CHR '','' # indent (d + 1) @ ?rest) =
        scan_from (complete stk (JArray (rev ws @ json_valid v # map json_valid vs))) t" by simp
    then show ?thesis
      using v [OF ends_number_chars(1), of "indent (d + 1) @ ?rest"] Cons by (simp del: scan_from.simps)
  qed
qed simp

definition member_text :: "nat \<Rightarrow> string \<times> json \<Rightarrow> string" where
  "member_text d m = quote_json (fst m) @ '': '' @ marshal_indent d (snd m)"

definition member_valid :: "string \<times> json \<Rightarrow> string \<times> json" where
  "member_valid m = (to_valid_utf8 (fst m), json_valid (snd m))"

lemma scan_member:
  assumes "scans d (snd m) (FValue (to_valid_utf8 (fst m)) ws # stk)" "ends_number c"
    and "st = BeginString \<or> st = BeginStringOrEmpty"
  shows "scan_from (FKey ws # stk, st) (member_text d m @ c # t) =
    scan_from (FPair (member_valid m # ws) # stk, EndValue) (c # t)"
proof -
  let ?k = "to_valid_utf8 (fst m)"
  have "scan_from (FKey ws # stk, st) (member_text d m @ c # t) =
      scan_from (FColon ?k ws # stk, EndValue) ('': '' @ marshal_indent d (snd m) @ c # t)"
    using assms(3) by (auto simp: member_text_def scan_quoted simp del: scan_from.simps)
  also have "\<dots> = scan_from (FValue ?k ws # stk, BeginValue) (marshal_indent d (snd m) @ c # t)"
    by (simp add: is_space_def)
  finally show ?thesis
    using assms(1,2) by (simp add: scans_def member_valid_def del: scan_from.simps)
qed

lemma scan_members:
  assumes "\<And>m ws. m \<in> set ms \<Longrightarrow> scans (d + 1) (snd m) (FValue (to_valid_utf8 (fst m)) ws # stk)"
    and "ms \<noteq> []" "st = BeginString \<or> st = BeginStringOrEmpty"
  shows "scan_from (FKey ws # stk, st)
      (join_with ('','' @ indent (d + 1)) (map (member_text (d + 1)) ms) @ indent d @ ''}'' @ t) =
    scan_from (complete stk (JObject (rev ws @ map member_valid ms))) t"
  using assms
proof (induction ms arbitrary: ws st)
  case (Cons m ms)
  have m: "scan_from (FKey ws # stk, st) (member_text (d + 1) m @ c # u) =
      scan_from (FPair (member_valid m # ws) # stk, EndValue) (c # u)" if "ends_number c" for c u
    using scan_member [OF Cons.prems(1) that Cons.prems(3)] by simp
  show ?case
  proof (cases ms)
    case Nil
    have "scan_from (FPair (member_valid m # ws) # stk, EndValue) (indent d @ ''}'' @ t) =
        scan_from (complete stk (JObject (rev ws @ [member_valid m]))) t"
      by (subst scan_spaces) (auto simp: is_space_def)
    then show ?thesis
      using m [OF ends_number_chars(2), of "replicate (2 * d) (CHR '' '') @ ''}'' @ t"] Nil
      by (simp only: indent_Cons [symmetric] append_assoc) (simp del: scan_from.simps)
  next
    case (Cons m2 ms2)
    let ?rest = "join_with ('','' @ indent (d + 1)) (map (member_text (d + 1)) ms) @ indent d @ ''}'' @ t"
    have "scan_from (FPair (member_valid m # ws) # stk, EndValue) (CHR '','' # indent (d + 1) @ ?rest) =
        scan_from (FKey (member_valid m # ws) # stk, BeginString) (indent (d + 1) @ ?rest)"
      by (simp add: is_space_def)
    also have "\<dots> = scan_from (FKey (member_valid m # ws) # stk, BeginString) ?rest"
      by (rule scan_spaces) simp
    also have "\<dots> = scan_from (complete stk (JObject (rev (member_valid m # ws) @ map member_valid ms))) t"
      using Cons.IH [where ws = "member_valid m # ws" and st = BeginString] Cons.prems(1) Cons by simp
    finally have "scan_from (FPair (member_valid m # ws) # stk, EndValue) (CHR '','' # indent (d + 1) @ ?rest) =
        scan_from (complete stk (JObject (rev ws @ member_valid m # map member_valid ms))) t" by simp
    then show ?thesis
      using m [OF ends_number_chars(1), of "indent (d + 1) @ ?rest"] Cons by (simp del: scan_from.simps)
  qed
qed simp

lemma value_frame_simps [simp]: "value_frame (FArray ws # stk)" "value_frame (FValue k ms # stk)"
  by (auto simp: value_frame_def)

lemma marshal_object:
  "ms \<noteq> [] \<Longrightarrow> marshal_indent d (JObject ms) =
     ''{'' @ indent (d + 1) @ join_with ('','' @ indent (d + 1)) (map (member_text (d + 1)) ms) @ indent d @ ''}''"
  by (simp add: member_text_def [abs_def])

lemma scan_array_text:
  assumes "\<And>v ws. v \<in> set vs \<Longrightarrow> scans (d + 1) v (FArray ws # stk)" "list_all int_numbers vs"
  shows "scan_from (FArray [] # stk, BeginValueOrEmpty) (tl (marshal_indent d (JArray vs)) @ t) =
    scan_from (complete stk (json_valid (JArray vs))) t"
proof (cases vs)
  case Nil
  then show ?thesis by (simp add: is_space_def)
next
  case (Cons v vs')
  let ?body = "join_with ('','' @ indent (d + 1)) (map (marshal_indent (d + 1)) vs) @ indent d @ '']'' @ t"
  have "int_numbers v" using assms(2) Cons by simp
  from marshal_head [OF this, of "d + 1"] obtain c s where
    head: "marshal_indent (d + 1) v = c # s" "\<not> is_space c" "c \<noteq> CHR '']''" by blast
  have "\<exists>u. ?body = c # u" using head(1) Cons by (cases vs') auto
  then obtain u where body: "?body = c # u" by blast
  have "scan_from (FArray [] # stk, BeginValueOrEmpty) (tl (marshal_indent d (JArray vs)) @ t) =
      scan_from (FArray [] # stk, BeginValueOrEmpty) (indent (d + 1) @ ?body)"
    using Cons by (simp del: scan_from.simps)
  also have "\<dots> = scan_from (FArray [] # stk, BeginValueOrEmpty) ?body"
    by (rule scan_spaces) simp
  also have "\<dots> = scan_from (FArray [] # stk, BeginValue) ?body"
    unfolding body by (rule scan_value_or_empty [OF head(2,3)])
  also have "\<dots> = scan_from (complete stk (JArray (rev [] @ map json_valid vs))) t"
    by (rule scan_elements [OF assms(1)]) (simp_all add: Cons)
  finally show ?thesis by simp
qed

lemma scan_object_text:
  assumes "\<And>m ws. m \<in> set ms \<Longrightarrow> scans (d + 1) (snd m) (FValue (to_valid_utf8 (fst m)) ws # stk)"
  shows "scan_from (FKey [] # stk, BeginStringOrEmpty) (tl (marshal_indent d (JObject ms)) @ t) =
    scan_from (complete stk (json_valid (JObject ms))) t"
proof (cases "ms = []")
  case True
  then show ?thesis by (simp add: is_space_def)
next
  case False
  let ?body = "join_with ('','' @ indent (d + 1)) (map (member_text (d + 1)) ms) @ indent d @ ''}'' @ t"
  have "scan_from (FKey [] # stk, BeginStringOrEmpty) (tl (marshal_indent d (JObject ms)) @ t) =
      scan_from (FKey [] # stk, BeginStringOrEmpty) (indent (d + 1) @ ?body)"
    unfolding marshal_object [OF False] by (simp del: scan_from.simps)
  also have "\<dots> = scan_from (FKey [] # stk, BeginStringOrEmpty) ?body"
    by (rule scan_spaces) simp
  also have "\<dots> = scan_from (complete stk (JObject (rev [] @ map member_valid ms))) t"
    by (rule scan_members [OF assms False]) (assumption | simp)+
  finally show ?thesis by (simp add: member_valid_def [abs_def])
qed

lemma marshal_hd: "marshal_indent d (JArray vs) = CHR ''['' # tl (marshal_indent d (JArray vs))"
  "marshal_indent d (JObject ms) = CHR ''{'' # tl (marshal_indent d (JObject ms))"
  by simp_all

lemma scans_value:
  assumes "int_numbers v" "value_frame stk" "int (length stk + json_depth v) \<le> maxNestingDepth"
  shows "scans d v stk"
  using assms
proof (induction v arbitrary: d stk)
  case (JNumber n)
  then show ?case using scan_Itoa [OF JNumber(2)] by (auto simp: scans_def)
next
  case (JString s)
  then show ?case
    by (auto simp: scans_def scan_quoted value_frame_complete_string simp del: scan_from.simps)
next
  case (JArray vs)
  have "scans (d + 1) v (FArray ws # stk)" if "v \<in> set vs" for v ws
    using JArray.prems foldr_max_le [of "json_depth v" "map json_depth vs"] that
    by (intro JArray.IH) (auto simp: list_all_iff)
  moreover have "list_all int_numbers vs" using JArray.prems(1) by simp
  ultimately show ?case
    using JArray.prems(2,3) scan_array_text [of vs d stk]
    unfolding scans_def
    by (subst marshal_hd) (simp add: scan_container del: scan_from.simps marshal_indent.simps json_valid.simps)
next
  case (JObject ms)
  have "scans (d + 1) (snd m) (FValue (to_valid_utf8 (fst m)) ws # stk)" if "m \<in> set ms" for m ws
    using JObject.prems foldr_max_le [of "json_depth (snd m)" "map (\<lambda>m. json_depth (snd m)) ms"] that
    by (intro JObject.IH [of m]) (auto simp: list_all_iff snds.simps)
  then show ?case
    using JObject.prems(2,3) scan_object_text [of ms d stk]
    unfolding scans_def
    by (subst marshal_hd) (simp add: scan_container del: scan_from.simps marshal_indent.simps json_valid.simps)
next
  case (JBool b)
  then show ?case by (cases b) (simp_all add: scans_def begin_value_def is_space_def)
qed (auto simp: scans_def begin_value_def is_space_def)

lemma Unmarshal_marshal:
  assumes "int_numbers (JObject ms)" "int (json_depth (JObject ms)) \<le> maxNestingDepth"
  shows "Unmarshal_value (marshal_indent 0 (JObject ms)) = Inr (json_valid (JObject ms))"
proof -
  have "scans 1 (snd m) (FValue (to_valid_utf8 (fst m)) ws # [])" if "m \<in> set ms" for m ws
    using assms foldr_max_le [of "json_depth (snd m)" "map (\<lambda>m. json_depth (snd m)) ms"] that
    by (intro scans_value) (auto simp: list_all_iff)
  then have "scan_from ([FKey []], BeginStringOrEmpty) (tl (marshal_indent 0 (JObject ms)) @ []) =
      scan_from (complete [] (json_valid (JObject ms))) []"
    by (intro scan_object_text) simp
  moreover have "scan_json (marshal_indent 0 (JObject ms)) =
      scan_from ([FKey []], BeginStringOrEmpty) (tl (marshal_indent 0 (JObject ms)))"
    by (subst marshal_hd) (simp add: scan_open del: marshal_indent.simps)
  ultimately show ?thesis
    by (simp add: Unmarshal_value_def stops_def del: marshal_indent.simps)
qed

end
