(* ===== verification/Pane_Store.thy ===== *)
theory Pane_Store
  imports Pane_Spec Json_Indent Path Protocol
begin

text \<open>
  The state file of \<open>internal/pane/manager.go\<close>: where it is, its text, and \<open>Save\<close> and \<open>Load\<close>. The file operations
  are the fields of a record over a world \<open>'w\<close>.
\<close>

section \<open>The state directory\<close>

text \<open>\<open>os.UserHomeDir\<close> is the variable \<open>HOME\<close>.\<close>

definition UserHomeDir :: "(string \<Rightarrow> string) \<Rightarrow> string result" where
  "UserHomeDir env =
     (if env ''HOME'' \<noteq> '''' then Inr (env ''HOME'') else Inl (Errorf ([CHR ''$''] @ ''HOME is not defined'')))"

definition DefaultStateDir :: "(string \<Rightarrow> string) \<Rightarrow> string" where
  "DefaultStateDir env =
     (let home = (case UserHomeDir env of Inl err \<Rightarrow> TempDir env | Inr home \<Rightarrow> home)
      in Join [home, ''.local'', ''state'', ''shimux''])"

definition NewWithDir :: "string \<Rightarrow> Manager" where
  "NewWithDir stateDir = NewManager (Join [stateDir, ''panes.json''])"

section \<open>The state and its text\<close>

record managerState =
  ms_Panes :: "Pane list"
  ms_NextID :: int64

definition json_int :: "int64 \<Rightarrow> json" where
  "json_int i = JNumber (Itoa (sint i))"

definition json_pane :: "Pane \<Rightarrow> json" where
  "json_pane p =
     JObject
       ([(''id'', JString (p_ID p)), (''tty'', JString (p_TTY p)), (''active'', JBool (p_Active p)),
         (''width'', json_int (p_Width p)), (''height'', json_int (p_Height p))] @
        (if p_PID p = 0 then [] else [(''pid'', json_int (p_PID p))]) @
        (if p_CurrentPath p = '''' then [] else [(''current_path'', JString (p_CurrentPath p))]))"

definition json_state :: "managerState \<Rightarrow> json" where
  "json_state s =
     JObject [(''panes'', JArray (map json_pane (ms_Panes s))), (''next_id'', json_int (ms_NextID s))]"

definition MarshalIndent_state :: "managerState \<Rightarrow> string result" where
  "MarshalIndent_state s = Inr (marshal_indent 0 (json_state s))"

section \<open>Reading the text\<close>

text \<open>\<open>strconv.ParseInt\<close> in base 10, 64 bits, on a JSON number.\<close>

definition ParseInt :: "string \<Rightarrow> int64 option" where
  "ParseInt s =
     (let neg = (s \<noteq> '''' \<and> hd s = CHR ''-''); ds = (if neg then tl s else s);
          n = (if neg then - int (digits_value ds) else int (digits_value ds))
      in if ds \<noteq> '''' \<and> list_all is_digit ds \<and> - (2 ^ 63) \<le> n \<and> n < 2 ^ 63 then Some (word_of_int n) else None)"

fun read_int :: "string \<Rightarrow> json \<Rightarrow> int64 \<times> go_error option \<Rightarrow> int64 \<times> go_error option" where
  "read_int field (JNumber n) (old, err) =
     (case ParseInt n of
        Some i \<Rightarrow> (i, err)
      | None \<Rightarrow> (old, save_error err (Errorf (''json: cannot unmarshal number '' @ n @
          '' into Go struct field '' @ field @ '' of type int''))))"
| "read_int field JNull (old, err) = (old, err)"
| "read_int field v (old, err) = (old, save_error err (field_error v field ''int''))"

definition read_pane_field :: "string \<Rightarrow> json \<Rightarrow> Pane \<times> go_error option \<Rightarrow> Pane \<times> go_error option" where
  "read_pane_field k v pe =
     (let (p, err) = pe in
      if same_field k ''id'' then
        (let (x, e) = read_string ''Pane.panes.id'' v (p_ID p, err) in (p\<lparr>p_ID := x\<rparr>, e))
      else if same_field k ''tty'' then
        (let (x, e) = read_string ''Pane.panes.tty'' v (p_TTY p, err) in (p\<lparr>p_TTY := x\<rparr>, e))
      else if same_field k ''active'' then
        (let (x, e) = read_bool ''Pane.panes.active'' v (p_Active p, err) in (p\<lparr>p_Active := x\<rparr>, e))
      else if same_field k ''width'' then
        (let (x, e) = read_int ''Pane.panes.width'' v (p_Width p, err) in (p\<lparr>p_Width := x\<rparr>, e))
      else if same_field k ''height'' then
        (let (x, e) = read_int ''Pane.panes.height'' v (p_Height p, err) in (p\<lparr>p_Height := x\<rparr>, e))
      else if same_field k ''pid'' then
        (let (x, e) = read_int ''Pane.panes.pid'' v (p_PID p, err) in (p\<lparr>p_PID := x\<rparr>, e))
      else if same_field k ''current_path'' then
        (let (x, e) = read_string ''Pane.panes.current_path'' v (p_CurrentPath p, err) in (p\<lparr>p_CurrentPath := x\<rparr>, e))
      else (p, err))"

fun read_pane :: "(string \<times> json) list \<Rightarrow> Pane \<times> go_error option \<Rightarrow> Pane \<times> go_error option" where
  "read_pane [] pe = pe"
| "read_pane ((k, v) # ms) pe = read_pane ms (read_pane_field k v pe)"

text \<open>
  An element of the array is a pointer: \<open>null\<close> makes it \<open>nil\<close>, a pane that is already there is read into, and a
  \<open>nil\<close> pointer gets a new pane first.
\<close>

definition zero_pane :: Pane where
  "zero_pane = new_pane '''' '''' False"

fun read_element :: "json \<Rightarrow> Pane option \<times> go_error option \<Rightarrow> Pane option \<times> go_error option" where
  "read_element JNull (old, err) = (None, err)"
| "read_element (JObject ms) (old, err) =
     (let (p, err') = read_pane ms (case old of None \<Rightarrow> zero_pane | Some p \<Rightarrow> p, err) in (Some p, err'))"
| "read_element v (old, err) =
     (Some (case old of None \<Rightarrow> zero_pane | Some p \<Rightarrow> p),
      save_error err (field_error v ''managerState.panes'' ''pane.Pane''))"

text \<open>
  A slice is read into the array it has: the elements up to its capacity keep what an earlier member \<open>panes\<close> of
  the same text left there. The slice is its backing array and its length.
\<close>

type_synonym pane_slice = "Pane option list \<times> nat"

fun read_elements :: "json list \<Rightarrow> Pane option list \<Rightarrow> go_error option \<Rightarrow> Pane option list \<times> go_error option" where
  "read_elements [] old err = (old, err)"
| "read_elements (v # vs) old err =
     (let (p, err1) = read_element v (if old = [] then None else hd old, err);
          (ps, err2) = read_elements vs (tl old) err1
      in (p # ps, err2))"

fun read_panes :: "json \<Rightarrow> pane_slice \<times> go_error option \<Rightarrow> pane_slice \<times> go_error option" where
  "read_panes JNull (s, err) = (([], 0), err)"
| "read_panes (JArray vs) ((old, n), err) =
     (if vs = [] then (([], 0), err)
      else let (ps, err') = read_elements vs old err in ((ps, length vs), err'))"
| "read_panes v (s, err) = (s, save_error err (field_error v ''managerState.panes'' ''[]*pane.Pane''))"

fun read_state :: "(string \<times> json) list \<Rightarrow> pane_slice \<times> int64 \<Rightarrow> go_error option \<Rightarrow>
    (pane_slice \<times> int64) \<times> go_error option" where
  "read_state [] st err = (st, err)"
| "read_state ((k, v) # ms) (ps, n) err =
     (if same_field k ''panes'' then
        (let (ps', err') = read_panes v (ps, err) in read_state ms (ps', n) err')
      else if same_field k ''next_id'' then
        (let (n', err') = read_int ''managerState.next_id'' v (n, err) in read_state ms (ps, n') err')
      else read_state ms (ps, n) err)"

text \<open>The panes and the next identifier a text stands for.\<close>

definition Unmarshal_state :: "string \<Rightarrow> (Pane option list \<times> int64) result" where
  "Unmarshal_state s =
     (case Unmarshal_value s of
        Inl e \<Rightarrow> Inl e
      | Inr JNull \<Rightarrow> Inr ([], 0)
      | Inr (JObject ms) \<Rightarrow>
          (case read_state ms (([], 0), 0) None of
             (((ps, n), i), None) \<Rightarrow> Inr (take n ps, i)
           | (_, Some e) \<Rightarrow> Inl e)
      | Inr v \<Rightarrow> Inl (type_error v ''pane.managerState''))"

section \<open>Save\<close>

record 'w store_os =
  so_CreateTemp :: "string \<Rightarrow> string \<Rightarrow> 'w \<Rightarrow> string result \<times> 'w"
  so_Write :: "string \<Rightarrow> string \<Rightarrow> 'w \<Rightarrow> go_error option \<times> 'w"
  so_Close :: "string \<Rightarrow> 'w \<Rightarrow> go_error option \<times> 'w"
  so_Remove :: "string \<Rightarrow> 'w \<Rightarrow> go_error option \<times> 'w"
  so_Rename :: "string \<Rightarrow> string \<Rightarrow> 'w \<Rightarrow> go_error option \<times> 'w"
  so_ReadFile :: "string \<Rightarrow> 'w \<Rightarrow> string result \<times> 'w"

text \<open>The panes are copied under the lock; the file is written without it.\<close>

definition save_state :: "Manager \<Rightarrow> managerState" where
  "save_state m = \<lparr>ms_Panes = List_loop (m_panes m) (m_order m), ms_NextID = m_nextPaneID m\<rparr>"

definition Save :: "'w store_os \<Rightarrow> Manager \<Rightarrow> 'w \<Rightarrow> go_error option \<times> 'w" where
  "Save so m w0 =
     (case MarshalIndent_state (save_state m) of
        Inl err \<Rightarrow> (Some (Wrapf ''marshal state: '' err ''''), w0)
      | Inr data \<Rightarrow>
          (case so_CreateTemp so (Dir (m_stateFile m)) ''panes-*.json.tmp'' w0 of
             (Inl err, w1) \<Rightarrow> (Some (Wrapf ''create temp file: '' err ''''), w1)
           | (Inr tmpName, w1) \<Rightarrow>
               (case so_Write so tmpName data w1 of
                  (Some err, w2) \<Rightarrow>
                    (Some (Wrapf ''write temp file: '' err ''''),
                     snd (so_Remove so tmpName (snd (so_Close so tmpName w2))))
                | (None, w2) \<Rightarrow>
                    (case so_Close so tmpName w2 of
                       (Some err, w3) \<Rightarrow>
                         (Some (Wrapf ''close temp file: '' err ''''), snd (so_Remove so tmpName w3))
                     | (None, w3) \<Rightarrow>
                         (case so_Rename so tmpName (m_stateFile m) w3 of
                            (Some err, w4) \<Rightarrow>
                              (Some (Wrapf ''rename temp file: '' err ''''), snd (so_Remove so tmpName w4))
                          | (None, w4) \<Rightarrow> (None, w4))))))"

section \<open>Load\<close>

text \<open>
  \<open>p.ID\<close> of a \<open>nil\<close> pointer panics. The lock is released and the manager keeps what was read before.
\<close>

datatype load_outcome = Returned "go_error option" | Panicked

fun Load_loop :: "Pane option list \<Rightarrow> Manager \<Rightarrow> bool \<times> Manager" where
  "Load_loop [] m = (True, m)"
| "Load_loop (None # ps) m = (False, m)"
| "Load_loop (Some p # ps) m =
     Load_loop ps (m\<lparr>m_panes := AList.update (p_ID p) p (m_panes m), m_order := m_order m @ [p_ID p]\<rparr>)"

definition Load :: "'w store_os \<Rightarrow> Manager \<Rightarrow> 'w \<Rightarrow> (load_outcome \<times> Manager) \<times> 'w" where
  "Load so m w0 =
     (case so_ReadFile so (m_stateFile m) w0 of
        (Inl err, w1) \<Rightarrow> ((Returned (Some (Wrapf ''read state file: '' err '''')), m), w1)
      | (Inr data, w1) \<Rightarrow>
          (case Unmarshal_state data of
             Inl err \<Rightarrow> ((Returned (Some (Wrapf ''unmarshal state: '' err '''')), m), w1)
           | Inr (ps, next) \<Rightarrow>
               (case Load_loop ps (m\<lparr>m_panes := [], m_order := []\<rparr>) of
                  (False, m') \<Rightarrow> ((Panicked, m'), w1)
                | (True, m') \<Rightarrow> ((Returned None, m'\<lparr>m_nextPaneID := next\<rparr>), w1))))"

end
