(* ===== verification/Pane_Store_Spec.thy ===== *)
theory Pane_Store_Spec
  imports Pane_Store
begin

text \<open>
  What the state file promises: \<open>Save\<close> replaces it as a whole or not at all, \<open>Load\<close> gives back what \<open>Save\<close> wrote,
  and what a manager still guarantees after it has read a file of any content.
\<close>

section \<open>The text and its reading\<close>

definition name_char :: "char \<Rightarrow> bool" where
  "name_char c \<longleftrightarrow> c = CHR ''_'' \<or> (97 \<le> (of_char c :: nat) \<and> of_char c \<le> (122 :: nat))"

lemma name_char_code: "name_char c \<Longrightarrow> of_char c = (95 :: nat) \<or> (97 \<le> (of_char c :: nat) \<and> of_char c \<le> (122 :: nat))"
  by (auto simp: name_char_def)

lemma fold_rune_inj:
  assumes "name_char a" "name_char b" "fold_rune (of_char a) = fold_rune (of_char b)"
  shows "a = b"
proof -
  define i j :: nat where "i = of_char a" and "j = of_char b"
  have "i = 95 \<or> (97 \<le> i \<and> i \<le> 122)" "j = 95 \<or> (97 \<le> j \<and> j \<le> 122)"
    using name_char_code [OF assms(1)] name_char_code [OF assms(2)] by (simp_all add: i_def j_def)
  moreover have "fold_rune i = fold_rune j" using assms(3) by (simp add: i_def j_def)
  ultimately have "i = j" unfolding fold_rune_def by (auto split: if_splits)
  then show ?thesis by (simp add: i_def j_def)
qed

lemma runes_name: "list_all name_char s \<Longrightarrow> runes s = map of_char s"
  by (rule runes_ascii) (auto simp: list_all_iff dest!: name_char_code)

lemma same_field_iff: "list_all name_char k \<Longrightarrow> list_all name_char n \<Longrightarrow> same_field k n \<longleftrightarrow> k = n"
proof (unfold same_field_def, simp only: runes_name map_map, induction k arbitrary: n)
  case (Cons c k)
  then show ?case by (cases n) (auto dest: fold_rune_inj)
qed auto

definition field_names :: "string list" where
  "field_names = [''id'', ''tty'', ''active'', ''width'', ''height'', ''pid'', ''current_path'', ''panes'', ''next_id'']"

lemma field_names_char: "k \<in> set field_names \<Longrightarrow> list_all name_char k"
  by (auto simp: field_names_def name_char_def)

lemma same_state_field: "k \<in> set field_names \<Longrightarrow> n \<in> set field_names \<Longrightarrow> same_field k n \<longleftrightarrow> k = n"
  by (simp add: same_field_iff field_names_char)

lemma ParseInt_Itoa [simp]: "ParseInt (Itoa (sint i)) = Some i"
proof (cases "sint i < 0")
  case True
  then show ?thesis
    using sint_greater_eq [of i] nat_digits_digits [of "nat (- sint i)"]
    by (simp add: Itoa_def ParseInt_def Let_def)
next
  case False
  then have "hd (nat_digits (nat (sint i))) \<noteq> CHR ''-''"
    using nat_digits_no_minus [of "nat (sint i)" "tl (nat_digits (nat (sint i)))"] nat_digits_not_Nil
    by (metis list.collapse)
  with False show ?thesis
    using sint_less [of i] nat_digits_digits [of "nat (sint i)"]
    by (simp add: Itoa_def ParseInt_def Let_def)
qed

lemma to_valid_names: "k \<in> set field_names \<Longrightarrow> to_valid_utf8 k = k"
  by (rule to_valid_utf8_id, rule valid_utf8_ascii)
    (fastforce dest!: field_names_char dest: name_char_code simp: list_all_iff)

definition pane_valid :: "Pane \<Rightarrow> Pane" where
  "pane_valid p = p\<lparr>p_ID := to_valid_utf8 (p_ID p), p_TTY := to_valid_utf8 (p_TTY p),
     p_CurrentPath := to_valid_utf8 (p_CurrentPath p)\<rparr>"

lemma read_pane_append: "read_pane (xs @ ys) pe = read_pane ys (read_pane xs pe)"
  by (induction xs pe rule: read_pane.induct) simp_all

lemma read_pane_field_simps:
  "read_pane_field ''id'' (JString s) (p, err) = (p\<lparr>p_ID := s\<rparr>, err)"
  "read_pane_field ''tty'' (JString s) (p, err) = (p\<lparr>p_TTY := s\<rparr>, err)"
  "read_pane_field ''active'' (JBool b) (p, err) = (p\<lparr>p_Active := b\<rparr>, err)"
  "read_pane_field ''width'' (json_int i) (p, err) = (p\<lparr>p_Width := i\<rparr>, err)"
  "read_pane_field ''height'' (json_int i) (p, err) = (p\<lparr>p_Height := i\<rparr>, err)"
  "read_pane_field ''pid'' (json_int i) (p, err) = (p\<lparr>p_PID := i\<rparr>, err)"
  "read_pane_field ''current_path'' (JString s) (p, err) = (p\<lparr>p_CurrentPath := s\<rparr>, err)"
  by (simp_all add: read_pane_field_def same_state_field field_names_def json_int_def)

lemma json_valid_int [simp]: "json_valid (json_int i) = json_int i"
  by (simp add: json_int_def)

lemma read_pane_json:
  "\<exists>ms. json_valid (json_pane p) = JObject ms \<and> read_pane ms (zero_pane, None) = (pane_valid p, None)"
  by (cases p)
    (simp add: json_pane_def to_valid_names field_names_def read_pane_append read_pane_field_simps zero_pane_def
      new_pane_def pane_valid_def)

lemma read_elements_json:
  "read_elements (map (\<lambda>p. json_valid (json_pane p)) ps) [] None = (map (Some \<circ> pane_valid) ps, None)"
proof (induction ps)
  case (Cons p ps)
  obtain ms where "json_valid (json_pane p) = JObject ms" "read_pane ms (zero_pane, None) = (pane_valid p, None)"
    using read_pane_json by blast
  with Cons show ?case by simp
qed simp

lemma json_pane_depth: "json_depth (json_pane p) = 1" "int_numbers (json_pane p)"
  by (auto simp: json_pane_def json_int_def)

lemma json_state_depth: "json_depth (json_state s) \<le> 3" "int_numbers (json_state s)"
proof -
  have "foldr max (map (json_depth \<circ> json_pane) ps) 0 \<le> 1" for ps
    by (induction ps) (auto simp: json_pane_depth)
  then show "json_depth (json_state s) \<le> 3" by (simp add: json_state_def json_int_def)
  show "int_numbers (json_state s)"
    by (auto simp: json_state_def json_int_def json_pane_depth list_all_iff)
qed

lemma Unmarshal_state_text:
  assumes "MarshalIndent_state s = Inr text"
  shows "Unmarshal_state text = Inr (map (Some \<circ> pane_valid) (ms_Panes s), ms_NextID s)"
proof -
  obtain ms where ms: "json_state s = JObject ms" by (simp add: json_state_def)
  have "Unmarshal_value text = Inr (json_valid (json_state s))"
    using assms json_state_depth [of s] Unmarshal_marshal [of ms] ms
    by (simp add: MarshalIndent_state_def maxNestingDepth_def)
  then show ?thesis
    using read_elements_json [of "ms_Panes s"]
    by (simp add: Unmarshal_state_def json_state_def to_valid_names same_state_field field_names_def json_int_def
      comp_def)
qed

section \<open>Loading what was saved\<close>

lemma Load_loop_distinct:
  "distinct (map fst ps0 @ map p_ID ps) \<Longrightarrow> m_panes m = ps0 \<Longrightarrow>
     Load_loop (map Some ps) m =
       (True, m\<lparr>m_panes := ps0 @ map (\<lambda>p. (p_ID p, p)) ps, m_order := m_order m @ map p_ID ps\<rparr>)"
proof (induction ps arbitrary: m ps0)
  case (Cons p ps)
  have new: "AList.update (p_ID p) p ps0 = ps0 @ [(p_ID p, p)]"
    using Cons.prems(1) by (intro AList_update_new) auto
  show ?case
    using Cons.IH [of "ps0 @ [(p_ID p, p)]"] Cons.prems by (simp add: new)
qed simp

lemma List_loop_self: "distinct (map f ps) \<Longrightarrow> set qs \<subseteq> set ps \<Longrightarrow>
    List_loop (map (\<lambda>p. (f p, p)) ps) (map f qs) = qs"
proof (induction qs)
  case (Cons q qs)
  have "map_of (map (\<lambda>p. (f p, p)) ps) (f q) = Some q"
    using Cons.prems by (intro map_of_is_SomeI) (auto simp: comp_def image_iff)
  with Cons show ?case by simp
qed simp

definition loaded :: "Manager \<Rightarrow> Pane list \<Rightarrow> int64 \<Rightarrow> Manager" where
  "loaded m ps next =
     m\<lparr>m_panes := map (\<lambda>p. (p_ID p, p)) ps, m_order := map p_ID ps, m_nextPaneID := next\<rparr>"

lemma List_loaded: "distinct (map p_ID ps) \<Longrightarrow> List (loaded m ps next) = ps"
  by (simp add: List_def loaded_def List_loop_self)

lemma Load_text:
  assumes "so_ReadFile so (m_stateFile m) w = (Inr text, w')"
    and "Unmarshal_state text = Inr (map Some ps, next)" "distinct (map p_ID ps)"
  shows "Load so m w = ((Returned None, loaded m ps next), w')"
  using assms Load_loop_distinct [of "[]" ps "m\<lparr>m_panes := [], m_order := []\<rparr>"]
  by (simp add: Load_def loaded_def)

lemma digits_valid: "list_all is_digit s \<Longrightarrow> to_valid_utf8 s = s"
  by (rule to_valid_utf8_id, rule valid_utf8_ascii) (auto simp: list_all_iff is_digit_def)

lemma pane_valid_ID: "mgr_inv m \<Longrightarrow> p \<in> set (List m) \<Longrightarrow> p_ID (pane_valid p) = p_ID p"
proof -
  assume m: "mgr_inv m" "p \<in> set (List m)"
  then have "p_ID p \<in> set (m_order m)" using List_set by blast
  then obtain n where "0 \<le> n" "p_ID p = Itoa n" using mgr_invD(7) [OF m(1)] by blast
  then show ?thesis by (simp add: pane_valid_def digits_valid Itoa_digits)
qed

lemma map_pane_valid_ID: "mgr_inv m \<Longrightarrow> map p_ID (map pane_valid (List m)) = m_order m"
  by (simp add: List_IDs [symmetric] pane_valid_ID)

lemma loaded_inv:
  assumes "mgr_inv m"
  shows "mgr_inv (loaded m0 (map pane_valid (List m)) (m_nextPaneID m))"
proof -
  let ?ps = "map pane_valid (List m)"
  have ids: "map p_ID ?ps = m_order m" by (rule map_pane_valid_ID [OF assms])
  have "filter p_Active ?ps = map pane_valid (filter p_Active (List m))"
    by (simp add: filter_map comp_def pane_valid_def)
  moreover have "size (filter_mset p_Active (mset (List m))) \<le> 1"
    using mgr_invD(5) [OF assms] List_mset [OF assms] by (metis mset_filter size_mset)
  ultimately have "length (filter p_Active ?ps) \<le> 1" by (metis length_map mset_filter size_mset)
  moreover have "map fst (map (\<lambda>p. (p_ID p, p)) ?ps) = m_order m" using ids by (simp add: comp_def)
  moreover have "set (m_order m) = p_ID ` set ?ps" using ids by (metis list.set_map)
  ultimately show ?thesis
    using mgr_invD(2,6,7) [OF assms] ids unfolding mgr_inv_def loaded_def
    by (auto simp: comp_def image_image)
qed

section \<open>Files\<close>

text \<open>
  The documented behaviour of the file operations; \<open>files\<close> reads the contents. \<open>os.CreateTemp\<close> makes a new
  empty file whose name ends as the pattern does after its last \<open>*\<close>, a failing write may have written a part, a
  rename is atomic, and every operation may fail. A crash is a world in which all later operations fail.
\<close>

definition store_laws :: "'w store_os \<Rightarrow> ('w \<Rightarrow> string \<Rightarrow> string option) \<Rightarrow> bool" where
  "store_laws so files \<longleftrightarrow>
     (\<forall>d a b w. CHR ''*'' \<notin> set b \<longrightarrow> (case so_CreateTemp so d (a @ ''*'' @ b) w of
        (Inl e, w') \<Rightarrow> files w' = files w
      | (Inr t, w') \<Rightarrow> files w t = None \<and> suffix b t \<and> files w' = (files w)(t \<mapsto> ''''))) \<and>
     (\<forall>t s w c. files w t = Some c \<longrightarrow> (case so_Write so t s w of
        (None, w') \<Rightarrow> files w' = (files w)(t \<mapsto> c @ s)
      | (Some e, w') \<Rightarrow> \<exists>x. prefix x s \<and> files w' = (files w)(t \<mapsto> c @ x))) \<and>
     (\<forall>t w. files (snd (so_Close so t w)) = files w) \<and>
     (\<forall>t w. case so_Remove so t w of
        (None, w') \<Rightarrow> files w' = (files w)(t := None)
      | (Some e, w') \<Rightarrow> files w' = files w) \<and>
     (\<forall>a b w. a \<noteq> b \<longrightarrow> files w a \<noteq> None \<longrightarrow> (case so_Rename so a b w of
        (None, w') \<Rightarrow> files w' = (files w)(b := files w a, a := None)
      | (Some e, w') \<Rightarrow> files w' = files w)) \<and>
     (\<forall>f w. case so_ReadFile so f w of
        (Inr s, w') \<Rightarrow> files w f = Some s \<and> files w' = files w
      | (Inl e, w') \<Rightarrow> files w' = files w)"

lemma store_lawsD:
  assumes "store_laws so files"
  shows store_CreateTemp: "\<lbrakk>so_CreateTemp so d ''panes-*.json.tmp'' w = (r, w')\<rbrakk> \<Longrightarrow>
      (case r of Inl e \<Rightarrow> files w' = files w
       | Inr t \<Rightarrow> files w t = None \<and> suffix ''.json.tmp'' t \<and> files w' = (files w)(t \<mapsto> ''''))"
    and store_Write: "\<lbrakk>so_Write so t s w = (e, w'); files w t = Some c\<rbrakk> \<Longrightarrow>
      \<exists>x. files w' = (files w)(t \<mapsto> c @ x) \<and> (e = None \<longrightarrow> x = s)"
    and store_Close: "files (snd (so_Close so t w)) = files w"
    and store_Remove: "so_Remove so t w = (e, w') \<Longrightarrow> files w' = (if e = None then (files w)(t := None) else files w)"
    and store_Rename: "\<lbrakk>so_Rename so a b w = (e, w'); a \<noteq> b; files w a \<noteq> None\<rbrakk> \<Longrightarrow>
      files w' = (if e = None then (files w)(b := files w a, a := None) else files w)"
    and store_ReadFile: "so_ReadFile so f w = (r, w') \<Longrightarrow> files w' = files w \<and> (\<forall>s. r = Inr s \<longrightarrow> files w f = Some s)"
proof -
  note laws = assms [unfolded store_laws_def]
  show "\<lbrakk>so_CreateTemp so d ''panes-*.json.tmp'' w = (r, w')\<rbrakk> \<Longrightarrow>
      (case r of Inl e \<Rightarrow> files w' = files w
       | Inr t \<Rightarrow> files w t = None \<and> suffix ''.json.tmp'' t \<and> files w' = (files w)(t \<mapsto> ''''))"
    using laws [THEN conjunct1, THEN spec [of _ d], THEN spec [of _ "''panes-''"], THEN spec [of _ "''.json.tmp''"],
      THEN spec [of _ w]]
    by (cases r) simp_all
  show "\<lbrakk>so_Write so t s w = (e, w'); files w t = Some c\<rbrakk> \<Longrightarrow>
      \<exists>x. files w' = (files w)(t \<mapsto> c @ x) \<and> (e = None \<longrightarrow> x = s)"
    using laws [THEN conjunct2, THEN conjunct1, THEN spec [of _ t], THEN spec [of _ s], THEN spec [of _ w],
      THEN spec [of _ c]]
    by (cases e) auto
  show "files (snd (so_Close so t w)) = files w" using laws by blast
  show "so_Remove so t w = (e, w') \<Longrightarrow> files w' = (if e = None then (files w)(t := None) else files w)"
    using laws [THEN conjunct2, THEN conjunct2, THEN conjunct2, THEN conjunct1, THEN spec [of _ t], THEN spec [of _ w]]
    by (cases e) simp_all
  show "\<lbrakk>so_Rename so a b w = (e, w'); a \<noteq> b; files w a \<noteq> None\<rbrakk> \<Longrightarrow>
      files w' = (if e = None then (files w)(b := files w a, a := None) else files w)"
    using laws [THEN conjunct2, THEN conjunct2, THEN conjunct2, THEN conjunct2, THEN conjunct1,
      THEN spec [of _ a], THEN spec [of _ b], THEN spec [of _ w]]
    by (cases e) simp_all
  show "so_ReadFile so f w = (r, w') \<Longrightarrow> files w' = files w \<and> (\<forall>s. r = Inr s \<longrightarrow> files w f = Some s)"
    using laws [THEN conjunct2, THEN conjunct2, THEN conjunct2, THEN conjunct2, THEN conjunct2,
      THEN spec [of _ f], THEN spec [of _ w]]
    by (cases r) simp_all
qed

section \<open>Saving\<close>

definition state_text :: "Manager \<Rightarrow> string" where
  "state_text m = marshal_indent 0 (json_state (save_state m))"

lemma Load_state_text:
  assumes "mgr_inv m" "so_ReadFile so (m_stateFile m0) w = (Inr (state_text m), w1)"
  shows "Load so m0 w = ((Returned None, loaded m0 (map pane_valid (List m)) (m_nextPaneID m)), w1)"
proof -
  have "Unmarshal_state (state_text m) = Inr (map Some (map pane_valid (List m)), m_nextPaneID m)"
    using Unmarshal_state_text [of "save_state m"]
    by (simp add: MarshalIndent_state_def state_text_def save_state_def List_def)
  moreover have "distinct (map p_ID (map pane_valid (List m)))"
    unfolding map_pane_valid_ID [OF assms(1)] by (rule mgr_invD(2) [OF assms(1)])
  ultimately show ?thesis by (intro Load_text [OF assms(2)])
qed

text \<open>What a failed \<open>Save\<close> may leave behind: nothing, or its temporary file when that could not be removed.\<close>

definition save_failed ::
    "'w store_os \<Rightarrow> ('w \<Rightarrow> string \<Rightarrow> string option) \<Rightarrow> string \<Rightarrow> 'w \<Rightarrow> 'w \<Rightarrow> bool" where
  "save_failed so files f w w' \<longleftrightarrow> files w' = files w \<or>
     (\<exists>t x. t \<noteq> f \<and> files w t = None \<and> files w' = (files w)(t \<mapsto> x) \<and>
        (\<exists>w1 e. so_Remove so t w1 = (Some e, w')))"

lemma save_failed_remove:
  assumes "store_laws so files" "t \<noteq> f" "files w t = None" "files w1 = (files w)(t \<mapsto> x)"
  shows "save_failed so files f w (snd (so_Remove so t w1))"
proof -
  obtain e w2 where r: "so_Remove so t w1 = (e, w2)" by (cases "so_Remove so t w1")
  show ?thesis
  proof (cases e)
    case None
    with store_Remove [OF assms(1) r] assms(3,4) have "files w2 = files w" by (simp add: fun_upd_idem)
    with r show ?thesis by (simp add: save_failed_def)
  next
    case (Some y)
    with store_Remove [OF assms(1) r] assms(4) have "files w2 = (files w)(t \<mapsto> x)" by simp
    with r Some assms(2,3) show ?thesis unfolding save_failed_def by (metis snd_conv)
  qed
qed

lemma Save_files:
  assumes "store_laws so files" "\<not> suffix ''.json.tmp'' (m_stateFile m)" "Save so m w = (err, w')"
  shows "if err = None then files w' = (files w)(m_stateFile m \<mapsto> state_text m)
    else save_failed so files (m_stateFile m) w w'"
proof -
  let ?f = "m_stateFile m" and ?text = "state_text m"
  have txt_eq: "MarshalIndent_state (save_state m) = Inr ?text"
    by (simp add: MarshalIndent_state_def state_text_def)
  obtain r w1 where create: "so_CreateTemp so (Dir ?f) ''panes-*.json.tmp'' w = (r, w1)"
    by (cases "so_CreateTemp so (Dir ?f) ''panes-*.json.tmp'' w")
  note create_law = store_CreateTemp [OF assms(1) create]
  show ?thesis
  proof (cases r)
    case (Inl e)
    with create create_law txt_eq assms(3) show ?thesis by (auto simp: Save_def save_failed_def)
  next
    case (Inr t)
    with create_law assms(2) have t: "files w t = None" "t \<noteq> ?f" "files w1 = (files w)(t \<mapsto> '''')" by auto
    obtain e2 w2 where wrote: "so_Write so t ?text w1 = (e2, w2)" by (cases "so_Write so t ?text w1")
    obtain x where x: "files w2 = (files w)(t \<mapsto> x)" "e2 = None \<longrightarrow> x = ?text"
      using store_Write [OF assms(1) wrote] t(3) by force
    obtain e3 w3 where close: "so_Close so t w2 = (e3, w3)" by (cases "so_Close so t w2")
    have w3: "files w3 = files w2" using store_Close [OF assms(1), of t w2] close by simp
    obtain e4 w4 where rename: "so_Rename so t ?f w3 = (e4, w4)" by (cases "so_Rename so t ?f w3")
    have w4: "files w4 = (if e4 = None then (files w)(?f \<mapsto> x) else (files w)(t \<mapsto> x))"
      using store_Rename [OF assms(1) rename t(2)] w3 x(1) t(1,2) by (simp add: fun_eq_iff)
    note saved = assms(3) [unfolded Save_def txt_eq sum.case create prod.case Inr wrote close rename]
    have failed: "save_failed so files ?f w (snd (so_Remove so t w5))" if "files w5 = (files w)(t \<mapsto> x)" for w5
      by (rule save_failed_remove [OF assms(1) t(2,1) that])
    consider "e2 \<noteq> None" | "e2 = None" "e3 \<noteq> None" | "e2 = None" "e3 = None" "e4 \<noteq> None"
      | "e2 = None" "e3 = None" "e4 = None" by blast
    then show ?thesis
    proof cases
      case 1
      with saved failed [of w3] close w3 x(1) show ?thesis by auto
    next
      case 2
      with saved failed [of w3] close w3 x(1) show ?thesis by auto
    next
      case 3
      with saved failed [of w4] close rename w4 show ?thesis by auto
    next
      case 4
      with saved close rename w4 x(2) show ?thesis by auto
    qed
  qed
qed

text \<open>
  C18: \<open>Save\<close> replaces the state file as a whole or not at all: when it reports success the file holds the text of
  the state and no other file has changed, and when it fails the state file and every other file is as
  before, except for a temporary file whose removal failed too. As every operation of the file system may
  fail without effect, this covers a crash between any two of them.
\<close>
theorem Save_atomic:
  assumes "store_laws so files" "\<not> suffix ''.json.tmp'' (m_stateFile m)" "Save so m w = (err, w')"
  shows "(err = None \<longrightarrow> files w' = (files w)(m_stateFile m \<mapsto> state_text m)) \<and>
    (err \<noteq> None \<longrightarrow> files w' (m_stateFile m) = files w (m_stateFile m) \<and>
       (\<forall>f. files w f \<noteq> None \<longrightarrow> files w' f = files w f) \<and> save_failed so files (m_stateFile m) w w')"
  using Save_files [OF assms] by (auto simp: save_failed_def split: if_splits)

text \<open>
  C19: What \<open>Save\<close> wrote \<open>Load\<close> reads into any manager of the same file: the same panes in the same order, with
  invalid UTF-8 replaced in their strings, the same next identifier, and again the invariant of the
  manager; the only failure left is that the file cannot be read, and then nothing changes.
\<close>
theorem Save_Load:
  assumes "store_laws so files" "\<not> suffix ''.json.tmp'' (m_stateFile m)" "mgr_inv m"
    and "Save so m w = (None, w1)" "m_stateFile m0 = m_stateFile m" "Load so m0 w1 = ((r, m'), w2)"
  shows "(r = Returned None \<and> List m' = map pane_valid (List m) \<and> OrderedList m' = OrderedList m \<and>
      m_nextPaneID m' = m_nextPaneID m \<and> mgr_inv m') \<or>
    (\<exists>e. r = Returned (Some (Wrapf ''read state file: '' e '''')) \<and> m' = m0)"
proof -
  let ?ps = "map pane_valid (List m)"
  have txt_eq: "files w1 (m_stateFile m0) = Some (state_text m)"
    using Save_files [OF assms(1,2,4)] assms(5) by simp
  obtain s w3 where read: "so_ReadFile so (m_stateFile m0) w1 = (s, w3)"
    by (cases "so_ReadFile so (m_stateFile m0) w1")
  show ?thesis
  proof (cases s)
    case (Inl e)
    with read assms(6) show ?thesis by (auto simp: Load_def)
  next
    case (Inr data)
    with store_ReadFile [OF assms(1) read] txt_eq read have "so_ReadFile so (m_stateFile m0) w1 = (Inr (state_text m), w3)"
      by simp
    from Load_state_text [OF assms(3) this]
    have "Load so m0 w1 = ((Returned None, loaded m0 ?ps (m_nextPaneID m)), w3)" .
    then have "r = Returned None" "m' = loaded m0 ?ps (m_nextPaneID m)" using assms(6) by simp_all
    moreover have "map p_ID ?ps = m_order m" by (rule map_pane_valid_ID [OF assms(3)])
    moreover from this have "distinct (map p_ID ?ps)" using mgr_invD(2) [OF assms(3)] by (simp del: map_map)
    ultimately show ?thesis using List_loaded [of ?ps m0 "m_nextPaneID m"] loaded_inv [OF assms(3)]
      by (simp add: loaded_def OrderedList_def del: map_map)
  qed
qed

section \<open>Identifiers over the life of a session\<close>





section \<open>A reference file system\<close>

definition pattern_end :: "string \<Rightarrow> string" where
  "pattern_end p = rev (takeWhile (\<lambda>c. c \<noteq> CHR ''*'') (rev p))"

definition ref_store :: "(string \<Rightarrow> string option) store_os" where
  "ref_store =
     \<lparr>so_CreateTemp = (\<lambda>d p w. let t = d @ ''/1'' @ pattern_end p in
        if w t = None then (Inr t, w(t \<mapsto> '''')) else (Inl (OsError EOTHER ''file exists''), w)),
      so_Write = (\<lambda>t s w. case w t of None \<Rightarrow> (Some (OsError ENOENT ''no file''), w) | Some c \<Rightarrow> (None, w(t \<mapsto> c @ s))),
      so_Close = (\<lambda>t w. (None, w)),
      so_Remove = (\<lambda>t w. (None, w(t := None))),
      so_Rename = (\<lambda>a b w. (None, w(b := w a, a := None))),
      so_ReadFile = (\<lambda>f w. (case w f of None \<Rightarrow> Inl (OsError ENOENT ''no file'') | Some s \<Rightarrow> Inr s, w))\<rparr>"

lemma ref_store_laws: "store_laws ref_store (\<lambda>w. w)"
proof -
  have "pattern_end (a @ CHR ''*'' # b) = b" if "CHR ''*'' \<notin> set b" for a b
    using that by (auto simp: pattern_end_def takeWhile_append)
  then show ?thesis
    by (auto simp: store_laws_def ref_store_def suffix_def Let_def split: option.splits)
qed

definition two_saved :: Manager where
  "two_saved = two_panes\<lparr>m_stateFile := ''/s/panes.json''\<rparr>"

lemma two_saved_inv: "mgr_inv two_saved" "\<not> suffix ''.json.tmp'' (m_stateFile two_saved)"
  using two_panes_inv by (simp_all add: two_saved_def mgr_inv_def suffix_def)

lemma save_two: "\<exists>w. Save ref_store two_saved Map.empty = (None, w)"
  by (simp add: Save_def MarshalIndent_state_def ref_store_def Let_def)

theorem Save_atomic_witness:
  "\<exists>w. Save ref_store two_saved Map.empty = (None, w) \<and> w = [''/s/panes.json'' \<mapsto> state_text two_saved]"
proof -
  obtain w where w: "Save ref_store two_saved Map.empty = (None, w)" using save_two by blast
  with Save_atomic [OF ref_store_laws two_saved_inv(2) w] show ?thesis by (simp add: two_saved_def)
qed

theorem Save_Load_witness:
  "\<exists>w m'. fst (Save ref_store two_saved Map.empty) = None \<and>
     Load ref_store (NewManager ''/s/panes.json'') (snd (Save ref_store two_saved Map.empty)) = ((Returned None, m'), w) \<and>
     OrderedList m' = OrderedList two_saved"
proof -
  obtain w where w: "Save ref_store two_saved Map.empty = (None, w)" using save_two by blast
  let ?m0 = "NewManager ''/s/panes.json''"
  obtain r m' w2 where l: "Load ref_store ?m0 w = ((r, m'), w2)" by (metis prod.exhaust)
  have f: "m_stateFile ?m0 = m_stateFile two_saved" by (simp add: NewManager_def two_saved_def)
  have "w ''/s/panes.json'' \<noteq> None"
    using Save_files [OF ref_store_laws two_saved_inv(2) w] by (simp add: two_saved_def)
  then have "\<not> (\<exists>e. r = Returned (Some (Wrapf ''read state file: '' e '''')))"
    using l by (auto simp: Load_def ref_store_def NewManager_def split: sum.splits prod.splits bool.splits)
  with Save_Load [OF ref_store_laws two_saved_inv(2,1) w f l] w l show ?thesis by auto
qed




section \<open>What Load accepts\<close>

lemma Load_loop_panes:
  "Load_loop (map Some ps) m =
     (True, m\<lparr>m_panes := foldl (\<lambda>pm p. AList.update (p_ID p) p pm) (m_panes m) ps, m_order := m_order m @ map p_ID ps\<rparr>)"
  by (induction ps arbitrary: m) simp_all

lemma Load_loop_nil:
  "Load_loop (map Some ps @ None # qs) m =
     (False, m\<lparr>m_panes := foldl (\<lambda>pm p. AList.update (p_ID p) p pm) (m_panes m) ps, m_order := m_order m @ map p_ID ps\<rparr>)"
  by (induction ps arbitrary: m) simp_all

lemma map_of_update_panes:
  "map_of (foldl (\<lambda>pm p. AList.update (p_ID p) p pm) pm ps) k =
     (case find (\<lambda>p. p_ID p = k) (rev ps) of None \<Rightarrow> map_of pm k | Some p \<Rightarrow> Some p)"
  by (induction ps rule: rev_induct) (auto simp: update_conv')

text \<open>
  C20: How \<open>Load\<close> treats a file it can read. A text that is not a state is an error and changes nothing. A text
  with a \<open>null\<close> among its panes makes it panic. Any other text is accepted as it is: the order is the list of
  identifiers of the text, also when they repeat, each identifier names the last pane that has it, and the
  next identifier is that of the text, whatever the panes are called.
\<close>
theorem Load_outcome:
  assumes "so_ReadFile so (m_stateFile m) w = (Inr data, w1)"
  shows "case Unmarshal_state data of
      Inl e \<Rightarrow> Load so m w = ((Returned (Some (Wrapf ''unmarshal state: '' e '''')), m), w1)
    | Inr (ps, i) \<Rightarrow>
        (if None \<in> set ps then \<exists>m'. Load so m w = ((Panicked, m'), w1) \<and> m_nextPaneID m' = m_nextPaneID m
         else \<exists>m'. Load so m w = ((Returned None, m'), w1) \<and> m_nextPaneID m' = i \<and>
           OrderedList m' = map (p_ID \<circ> the) ps \<and>
           (\<forall>k. Get k m' = (case find (\<lambda>p. p_ID p = k) (rev (map the ps)) of
              None \<Rightarrow> Inl (ErrPaneNotFound k) | Some p \<Rightarrow> Inr p)))"
proof (cases "Unmarshal_state data")
  case (Inl e)
  with assms show ?thesis by (simp add: Load_def)
next
  case (Inr r)
  obtain ps i where r: "r = (ps, i)" by (cases r)
  let ?m = "m\<lparr>m_panes := [], m_order := []\<rparr>"
  show ?thesis
  proof (cases "None \<in> set ps")
    case True
    then obtain xs ys where ps: "ps = xs @ None # ys" "None \<notin> set xs" by (metis split_list_first)
    then have "xs = map Some (map the xs)" by (auto intro!: map_idI [symmetric] simp: comp_def) (metis not_None_eq option.sel)
    with ps have "fst (Load_loop ps ?m) = False \<and> m_nextPaneID (snd (Load_loop ps ?m)) = m_nextPaneID m"
      using Load_loop_nil [of "map the xs" ys ?m] by simp
    then show ?thesis
      using assms Inr r True by (cases "Load_loop ps ?m") (auto simp: Load_def)
  next
    case False
    then have "ps = map Some (map the ps)" by (auto intro!: map_idI [symmetric] simp: comp_def) (metis not_None_eq option.sel)
    then have "Load so m w = ((Returned None, m\<lparr>m_panes := foldl (\<lambda>pm p. AList.update (p_ID p) p pm) [] (map the ps),
        m_order := map p_ID (map the ps), m_nextPaneID := i\<rparr>), w1)"
      using assms Inr r Load_loop_panes [of "map the ps" ?m] by (simp add: Load_def)
    then show ?thesis
      using Inr r False map_of_update_panes [of "[]" "map the ps"]
      by (simp add: OrderedList_def Get_def split: option.splits)
  qed
qed

definition null_pane_text :: string where
  "null_pane_text = ''{'' @ quote_json ''panes'' @ '':[null]}''"

lemma null_pane_state: "Unmarshal_state null_pane_text = Inr ([None], 0)"
proof -
  have "scan_from ([FColon ''panes'' []], EndValue) '':[null]}'' = Scanned (JObject [(''panes'', JArray [JNull])]) ''''"
    by (simp add: is_space_def begin_value_def push_frame_def maxNestingDepth_def stops_def)
  then have "scan_json null_pane_text = Scanned (JObject [(''panes'', JArray [JNull])]) ''''"
    by (simp add: null_pane_text_def scan_open scan_quoted to_valid_names field_names_def del: scan_from.simps)
  then show ?thesis
    by (simp add: Unmarshal_state_def Unmarshal_value_def same_state_field field_names_def)
qed

theorem Load_outcome_witness:
  "\<exists>m'. Load ref_store two_saved [''/s/panes.json'' \<mapsto> null_pane_text] =
     ((Panicked, m'), [''/s/panes.json'' \<mapsto> null_pane_text])"
proof -
  have "so_ReadFile ref_store (m_stateFile two_saved) [''/s/panes.json'' \<mapsto> null_pane_text] =
      (Inr null_pane_text, [''/s/panes.json'' \<mapsto> null_pane_text])"
    by (simp add: ref_store_def two_saved_def)
  from Load_outcome [OF this] show ?thesis by (auto simp: null_pane_state)
qed

section \<open>The shape of a manager, whatever it has loaded\<close>

text \<open>The managers that any sequence of calls leads to, with state files of any content, also after a panic of \<open>Load\<close>.\<close>

inductive mgr_session :: "'w store_os \<Rightarrow> Manager \<Rightarrow> bool" for so where
  "mgr_session so (NewManager f)"
| "mgr_session so m \<Longrightarrow> mgr_session so (snd (NextID m))"
| "mgr_session so m \<Longrightarrow> mgr_session so (snd (Register tty m))"
| "mgr_session so m \<Longrightarrow> mgr_session so (snd (Unregister k m))"
| "mgr_session so m \<Longrightarrow> mgr_session so (snd (SetActive k m))"
| "mgr_session so m \<Longrightarrow> mgr_session so (snd (fst (Load so m w)))"

definition mgr_typed :: "Manager \<Rightarrow> bool" where
  "mgr_typed m \<longleftrightarrow> distinct (map fst (m_panes m)) \<and> (\<forall>(k, p) \<in> set (m_panes m). p_ID p = k) \<and>
     fst ` set (m_panes m) \<subseteq> set (m_order m)"

lemma set_remove_order: "set order - {k} \<subseteq> set (remove_order k order)"
  by (induction order) auto

lemma set_update_subset: "set (AList.update k v xs) \<subseteq> insert (k, v) (set xs)"
  by (induction xs) auto

lemma typed_update:
  assumes "mgr_typed m" "m_panes m' = AList.update (p_ID p) p (m_panes m)" "m_order m' = m_order m @ [p_ID p]"
  shows "mgr_typed m'"
  using assms set_update_subset [of "p_ID p" p "m_panes m"] dom_update [of "p_ID p" p "m_panes m"]
  unfolding mgr_typed_def by (auto simp: distinct_update)

lemma typed_empty: "m_panes m = [] \<Longrightarrow> mgr_typed m"
  by (simp add: mgr_typed_def)

lemma typed_Load_loop: "mgr_typed m \<Longrightarrow> mgr_typed (snd (Load_loop ps m))"
  by (induction ps m rule: Load_loop.induct) (simp_all add: typed_update)

lemma typed_Load:
  assumes "mgr_typed m"
  shows "mgr_typed (snd (fst (Load so m w)))"
proof -
  have "mgr_typed (snd (Load_loop ps (m\<lparr>m_panes := [], m_order := []\<rparr>)))" for ps
    by (rule typed_Load_loop) (simp add: typed_empty)
  moreover have "mgr_typed (m'\<lparr>m_nextPaneID := i\<rparr>) \<longleftrightarrow> mgr_typed m'" for m' i
    by (simp add: mgr_typed_def)
  ultimately show ?thesis
    using assms by (auto simp: Load_def split: sum.splits prod.splits bool.splits) (metis snd_conv)+
qed

lemma typed_Register: "mgr_typed m \<Longrightarrow> mgr_typed (snd (Register tty m))"
  by (rule typed_update [where p = "projr (fst (Register tty m))" and m = m])
    (simp_all add: Register_def nextID_def new_pane_def Let_def)

lemma typed_Unregister: "mgr_typed m \<Longrightarrow> mgr_typed (snd (Unregister k m))"
  using set_remove_order [of "m_order m" k]
  by (auto simp: Unregister_def mgr_typed_def delete_filter distinct_map_filter split: option.splits)

lemma typed_SetActive: "mgr_typed m \<Longrightarrow> mgr_typed (snd (SetActive k m))"
proof -
  assume m: "mgr_typed m"
  have "fst ` set (SetActive_loop k (m_panes m)) = fst ` set (m_panes m)"
    by (metis SetActive_loop_fst list.set_map)
  with m SetActive_loop_ID [of "m_panes m" k] show ?thesis
    by (simp add: SetActive_def mgr_typed_def SetActive_loop_fst split: option.splits)
qed

lemma mgr_session_typed: "mgr_session so m \<Longrightarrow> mgr_typed m"
proof (induction rule: mgr_session.induct)
  case (2 m)
  then show ?case by (simp add: NextID_def nextID_def mgr_typed_def)
qed (simp_all add: typed_empty NewManager_def typed_Load typed_Register typed_Unregister typed_SetActive)

lemma List_loop_set: "set (List_loop pm order) = {p. \<exists>k \<in> set order. map_of pm k = Some p}"
  by (induction order) (auto split: option.splits)

lemma in_snd: "(k, p) \<in> A \<Longrightarrow> p \<in> snd ` A"
  by force

lemma typed_List: "mgr_typed m \<Longrightarrow> set (List m) = snd ` set (m_panes m)"
proof -
  assume m: "mgr_typed m"
  have "\<exists>k \<in> set (m_order m). map_of (m_panes m) k = Some p" if "(k, p) \<in> set (m_panes m)" for k p
    using m that unfolding mgr_typed_def by (intro bexI [of _ k] map_of_is_SomeI) auto
  then show ?thesis
    unfolding List_def List_loop_set by (auto dest!: map_of_SomeD intro: in_snd)
qed

lemma find_in: "find P xs = Some x \<Longrightarrow> P x \<and> x \<in> set xs"
  by (induction xs) (auto split: if_splits)

lemma IndexOf_loop_ge: "0 \<le> j \<Longrightarrow> k \<in> set order \<Longrightarrow> 0 \<le> IndexOf_loop j k order"
proof (induction order arbitrary: j)
  case (Cons a order)
  then show ?case using Cons.IH [of "j + 1"] by (cases "a = k") simp_all
qed simp

text \<open>
  C21: The shape every manager keeps, whatever state files it has loaded: a pane is found under its own
  identifier only, the list of panes shows every registered pane and no other, every registered pane has an
  index, and the active pane is a registered one.
\<close>
theorem mgr_session_shape:
  assumes "mgr_session so m" "is_map_order ord"
  shows "(\<forall>k p. Get k m = Inr p \<longrightarrow> p_ID p = k \<and> p \<in> set (List m) \<and> 0 \<le> IndexOf k m) \<and>
    (\<forall>p \<in> set (List m). Get (p_ID p) m = Inr p) \<and>
    (\<forall>p. GetActive ord m = Some p \<longrightarrow> p_Active p \<and> Get (p_ID p) m = Inr p)"
proof -
  have typed: "mgr_typed m" by (rule mgr_session_typed [OF assms(1)])
  have "Get k m = Inr p \<longleftrightarrow> map_of (m_panes m) k = Some p" for k p
    by (simp add: Get_def split: option.splits)
  then have get: "Get k m = Inr p \<longleftrightarrow> (k, p) \<in> set (m_panes m)" for k p
    using typed by (simp add: mgr_typed_def)
  have own: "p_ID p = k" "k \<in> set (m_order m)" if "(k, p) \<in> set (m_panes m)" for k p
    using typed that by (force simp: mgr_typed_def)+
  have self: "Get (p_ID p) m = Inr p" if "p \<in> snd ` set (m_panes m)" for p
    using that own(1) by (auto simp: get)
  have "set (ord (m_panes m)) = set (m_panes m)"
    using assms(2) unfolding is_map_order_def by (metis mset_eq_setD)
  then have active: "p_Active p \<and> p \<in> snd ` set (m_panes m)" if "GetActive ord m = Some p" for p
    using that find_in [of p_Active "map snd (ord (m_panes m))" p] by (simp add: GetActive_def)
  have "p_ID p = k \<and> p \<in> set (List m) \<and> 0 \<le> IndexOf k m" if "Get k m = Inr p" for k p
    using that get own [of k p] IndexOf_loop_ge [of 0 k "m_order m"] typed_List [OF typed]
    by (auto simp: IndexOf_def intro: in_snd)
  with self active typed_List [OF typed] show ?thesis by blast
qed

lemma mgr_session_two_panes: "mgr_session ref_store two_panes"
  unfolding two_panes_def one_pane_def by (intro mgr_session.intros)

theorem mgr_session_shape_witness:
  "p_ID (new_pane ''1'' ''ttys001'' False) = ''1'' \<and>
    new_pane ''1'' ''ttys001'' False \<in> set (List two_panes) \<and> 0 \<le> IndexOf ''1'' two_panes"
proof -
  have "Get ''1'' two_panes = Inr (new_pane ''1'' ''ttys001'' False)"
    by (simp add: Get_def two_panes_eval)
  then show ?thesis using mgr_session_shape [OF mgr_session_two_panes is_map_order_id] by blast
qed

text \<open>
  A file whose next identifier is already taken is accepted too; the next pane then takes the place of the
  one that has its identifier.
\<close>

definition reuse_state :: managerState where
  "reuse_state = \<lparr>ms_Panes = [new_pane ''0'' ''a'' True], ms_NextID = 0\<rparr>"

lemma loaded_id_reused:
  assumes "Load ref_store (NewManager ''f'') [''f'' \<mapsto> marshal_indent 0 (json_state reuse_state)] = ((r, m), w)"
  shows "r = Returned None \<and> Get ''0'' m = Inr (new_pane ''0'' ''a'' True) \<and>
    Get ''0'' (snd (Register ''b'' m)) = Inr (new_pane ''0'' ''b'' False) \<and>
    OrderedList (snd (Register ''b'' m)) = [''0'', ''0'']"
proof -
  let ?text = "marshal_indent 0 (json_state reuse_state)" and ?p = "new_pane ''0'' ''a'' True"
  have "to_valid_utf8 s = s" if "list_all (\<lambda>c. of_char c < (128 :: nat)) s" for s
    by (rule to_valid_utf8_id, rule valid_utf8_ascii, rule that)
  then have "pane_valid ?p = ?p" by (simp add: pane_valid_def new_pane_def)
  then have "Unmarshal_state ?text = Inr (map Some [?p], 0)"
    using Unmarshal_state_text [of reuse_state ?text] by (simp add: MarshalIndent_state_def reuse_state_def)
  then have "Load ref_store (NewManager ''f'') [''f'' \<mapsto> ?text] =
      ((Returned None, loaded (NewManager ''f'') [?p] 0), [''f'' \<mapsto> ?text])"
    by (intro Load_text) (simp_all add: ref_store_def NewManager_def)
  with assms show ?thesis
    by (simp add: loaded_def Get_def Register_def nextID_def OrderedList_def new_pane_def NewManager_def Let_def)
qed

end
