(* ===== verification/Wrapper.thy ===== *)
theory Wrapper
  imports Pane Ghostty Path Utf8
begin

text \<open>
  The tmux impersonation, \<open>internal/wrapper/wrapper.go\<close>: a child process is started with a \<open>PATH\<close> that has a
  symbolic link \<open>tmux\<close> to the program in front, and with the environment of a tmux pane.
\<close>

section \<open>Services and state\<close>

text \<open>
  The operations of the packages \<open>os\<close> and \<open>os/exec\<close> the wrapper uses, on a world \<open>'w\<close>. \<open>wo_Command args env\<close>
  runs a command with an environment to its end.
\<close>

record 'w wrapper_os =
  wo_MkdirTemp :: "string \<Rightarrow> string \<Rightarrow> 'w \<Rightarrow> string result \<times> 'w"
  wo_Symlink :: "string \<Rightarrow> string \<Rightarrow> 'w \<Rightarrow> go_error option \<times> 'w"
  wo_RemoveAll :: "string \<Rightarrow> 'w \<Rightarrow> go_error option \<times> 'w"
  wo_Command :: "string list \<Rightarrow> string list \<Rightarrow> 'w \<Rightarrow> go_error option \<times> 'w"

text \<open>
  What a process knows of itself: its identifier, the path of its executable, and its environment, a list of
  entries \<open>key=value\<close>. Go keeps the first entry of each key when the process starts.
\<close>

record process =
  pr_Pid :: int
  pr_Executable :: "string result"
  pr_Environ :: "string list"

record 'w Wrapper =
  wr_controller :: "'w Controller"
  wr_paneManager :: Manager
  wr_session :: string
  wr_tmpDir :: string
  wr_shimuxPath :: string

text \<open>A \<open>nil\<close> controller or manager is \<open>None\<close>.\<close>

record 'w Config =
  cfg_Controller :: "'w Controller option"
  cfg_PaneManager :: "Manager option"
  cfg_Session :: string
  cfg_ShimuxPath :: string

section \<open>Session names\<close>

definition session_rune :: "nat \<Rightarrow> bool" where
  "session_rune r \<longleftrightarrow>
     (97 \<le> r \<and> r \<le> 122) \<or> (65 \<le> r \<and> r \<le> 90) \<or> (48 \<le> r \<and> r \<le> 57) \<or> r = 45"

fun GenerateSessionName_loop :: "string \<Rightarrow> nat list \<Rightarrow> string" where
  "GenerateSessionName_loop buf [] = buf"
| "GenerateSessionName_loop buf (r # rs) =
     GenerateSessionName_loop (buf @ (if session_rune r then encode_rune r else ''_'')) rs"

definition GenerateSessionName :: "string \<Rightarrow> string" where
  "GenerateSessionName name = GenerateSessionName_loop '''' (runes name)"

section \<open>Operations\<close>

definition New :: "process \<Rightarrow> 'w Config \<Rightarrow> 'w Wrapper result" where
  "New pr cfg =
     (case cfg_Controller cfg of
        None \<Rightarrow> Inl (Errorf ''controller is required'')
      | Some ctl \<Rightarrow>
          (case cfg_PaneManager cfg of
             None \<Rightarrow> Inl (Errorf ''pane manager is required'')
           | Some paneManager \<Rightarrow>
               (let session0 = (if cfg_Session cfg = '''' then ''shimux-'' @ Itoa (pr_Pid pr) else cfg_Session cfg);
                    session = GenerateSessionName session0;
                    wrapper = (\<lambda>shimuxPath. \<lparr>wr_controller = ctl, wr_paneManager = paneManager,
                      wr_session = session, wr_tmpDir = '''', wr_shimuxPath = shimuxPath\<rparr>)
                in if cfg_ShimuxPath cfg = '''' then
                     (case pr_Executable pr of
                        Inl err \<Rightarrow> Inl (Wrapf ''resolve executable path: '' err '''')
                      | Inr exe \<Rightarrow> Inr (wrapper exe))
                   else Inr (wrapper (cfg_ShimuxPath cfg)))))"

definition Setup :: "'w wrapper_os \<Rightarrow> 'w Wrapper \<Rightarrow> 'w \<Rightarrow> (go_error option \<times> 'w Wrapper) \<times> 'w" where
  "Setup wo wr w0 =
     (case wo_MkdirTemp wo '''' ''shimux-wrapper-'' w0 of
        (Inl err, w1) \<Rightarrow> ((Some err, wr), w1)
      | (Inr tmpDir, w1) \<Rightarrow>
          (let wr1 = wr\<lparr>wr_tmpDir := tmpDir\<rparr>;
               (err, w2) = wo_Symlink wo (wr_shimuxPath wr1) (Join [tmpDir, ''tmux'']) w1
           in ((err, wr1), w2)))"

definition env_key :: "string \<Rightarrow> string" where
  "env_key e = takeWhile (\<lambda>c. c \<noteq> CHR ''='') e"

fun lookup_env :: "string list \<Rightarrow> string \<Rightarrow> string option" where
  "lookup_env [] k = None"
| "lookup_env (e # env) k =
     (if prefix (k @ ''='') e then Some (drop (length k + 1) e) else lookup_env env k)"

definition Getenv :: "string list \<Rightarrow> string \<Rightarrow> string" where
  "Getenv env k = (case lookup_env env k of None \<Rightarrow> '''' | Some v \<Rightarrow> v)"

definition Env :: "process \<Rightarrow> 'w Wrapper \<Rightarrow> string list" where
  "Env pr wr =
     [''PATH='' @ wr_tmpDir wr @ '':'' @ Getenv (pr_Environ pr) ''PATH'',
      ''TMUX='' @ wr_tmpDir wr @ ''/shimux,'' @ Itoa (pr_Pid pr) @ '',0'',
      ''SHIMUX=1'',
      ''SHIMUX_SESSION='' @ wr_session wr,
      ''SHIMUX_PANE_ID=0'',
      ''TMUX_PANE=%0'']"

fun replaceEnv_loop :: "string list \<Rightarrow> string \<Rightarrow> string \<Rightarrow> string list option" where
  "replaceEnv_loop [] prefix' v = None"
| "replaceEnv_loop (e # env) prefix' v =
     (if prefix prefix' e then Some (v # env) else map_option (Cons e) (replaceEnv_loop env prefix' v))"

definition replaceEnv :: "string list \<Rightarrow> string \<Rightarrow> string \<Rightarrow> string list" where
  "replaceEnv env key v =
     (case replaceEnv_loop env (key @ ''='') v of Some env' \<Rightarrow> env' | None \<Rightarrow> env @ [v])"

fun child_env :: "string list \<Rightarrow> string list \<Rightarrow> string list" where
  "child_env env [] = env"
| "child_env env (e # es) = child_env (replaceEnv env (env_key e) e) es"

definition Cleanup :: "'w wrapper_os \<Rightarrow> 'w Wrapper \<Rightarrow> 'w \<Rightarrow> go_error option \<times> 'w" where
  "Cleanup wo wr w = (if wr_tmpDir wr \<noteq> '''' then wo_RemoveAll wo (wr_tmpDir wr) w else (None, w))"

text \<open>\<open>defer w.Cleanup()\<close> runs on every return after \<open>Setup\<close> has succeeded; its error is dropped.\<close>

definition Run ::
    "process \<Rightarrow> 'w wrapper_os \<Rightarrow> string list \<Rightarrow> 'w Wrapper \<Rightarrow> 'w \<Rightarrow> (go_error option \<times> 'w Wrapper) \<times> 'w" where
  "Run pr wo args wr w0 =
     (if args = [] then ((Some (Errorf ''no command specified''), wr), w0)
      else
        (case Setup wo wr w0 of
           ((Some err, wr1), w1) \<Rightarrow> ((Some (Wrapf ''setup: '' err ''''), wr1), w1)
         | ((None, wr1), w1) \<Rightarrow>
             (case Register '''' (wr_paneManager wr1) of
                (Inl err, m) \<Rightarrow>
                  (let wr2 = wr1\<lparr>wr_paneManager := m\<rparr>
                   in ((Some (Wrapf ''register initial pane: '' err ''''), wr2), snd (Cleanup wo wr2 w1)))
              | (Inr p, m) \<Rightarrow>
                  (let wr2 = wr1\<lparr>wr_paneManager := m\<rparr>;
                       env = child_env (pr_Environ pr) (Env pr wr2);
                       (err, w2) = wo_Command wo args env w1
                   in ((err, wr2), snd (Cleanup wo wr2 w2))))))"

end
