(* ===== verification/Main_Shimux.thy ===== *)
theory Main_Shimux
  imports Commands Wrapper Pane_Store
begin

text \<open>
  The main program, \<open>cmd/shimux/main.go\<close>: it runs as \<open>tmux\<close>, executing one command, or as \<open>shimux\<close>, starting the
  wrapper. Each run is a new process, so nothing but the world outlives it.
\<close>

section \<open>The process and its services\<close>

text \<open>
  What a run gets from outside: the version linked in, the process with its environment, the services of the
  operating system, \<open>osascript\<close>, and the order Go visits the pane map in.
\<close>

record 'w platform =
  pf_version :: string
  pf_process :: process
  pf_osascript :: "string \<Rightarrow> 'w \<Rightarrow> (go_error option \<times> string) \<times> 'w"
  pf_os :: "'w os"
  pf_wrapper_os :: "'w wrapper_os"
  pf_order :: map_order

text \<open>A run returns its exit code and what it has written to its two output streams.\<close>

record exit_status =
  ExitCode :: int
  OutText :: string
  ErrText :: string

definition environment :: "'w platform \<Rightarrow> environ" where
  "environment pf = Getenv (pr_Environ (pf_process pf))"

definition fails :: "string \<Rightarrow> exit_status" where
  "fails msg = \<lparr>ExitCode = 1, OutText = '''', ErrText = msg @ newline\<rparr>"

definition report :: "go_error \<Rightarrow> string" where
  "report err = ''shimux: '' @ error_string err"

section \<open>The tmux mode\<close>

definition runTmuxMode :: "'w platform \<Rightarrow> string list \<Rightarrow> 'w \<Rightarrow> exit_status \<times> 'w" where
  "runTmuxMode pf args w =
     (if args = [] then (fails ''shimux: no command specified'', w)
      else
        (case Parse args of
           Inl err \<Rightarrow> (fails (report err), w)
         | Inr r \<Rightarrow>
             (if Version (Global r) then
                (\<lparr>ExitCode = 0, OutText = ''shimux '' @ pf_version pf @ '' (tmux-compatible)'' @ newline, ErrText = ''''\<rparr>, w)
              else
                (let env = environment pf;
                     session = env ''SHIMUX_SESSION'';
                     stateDir = DefaultStateDir env;
                     mgr = NewWithDir stateDir;
                     ctrl = keysim_New (pf_osascript pf);
                     ctx = \<lparr>ctx_Controller = ctrl, ctx_Session = session, ctx_os = pf_os pf,
                            ctx_TempDir = TempDir env, ctx_order = pf_order pf\<rparr>;
                     ((exitCode, err), st) =
                       Execute ctx r \<lparr>PaneManager = mgr, Stdout = '''', Stderr = '''', World = w\<rparr>
                 in (\<lparr>ExitCode = exitCode, OutText = Stdout st,
                      ErrText = Stderr st @ (case err of None \<Rightarrow> '''' | Some e \<Rightarrow> report e @ newline)\<rparr>, World st)))))"

section \<open>The shimux mode\<close>

text \<open>The first loop over the arguments: \<open>-V\<close> counts only before \<open>--\<close>.\<close>

fun version_wanted :: "string list \<Rightarrow> bool" where
  "version_wanted [] = False"
| "version_wanted (arg # args) = (if arg = ''-V'' then True else if arg = ''--'' then False else version_wanted args)"

text \<open>The second loop, with its variables \<open>foundSep\<close> and \<open>cmdArgs\<close>.\<close>

fun command_args :: "bool \<Rightarrow> string list \<Rightarrow> string list \<Rightarrow> string list" where
  "command_args foundSep cmdArgs [] = cmdArgs"
| "command_args foundSep cmdArgs (arg # args) =
     (if foundSep then command_args foundSep (cmdArgs @ [arg]) args
      else if arg = ''--'' then command_args True cmdArgs args
      else command_args foundSep cmdArgs args)"

definition runShimuxMode :: "'w platform \<Rightarrow> string list \<Rightarrow> 'w \<Rightarrow> exit_status \<times> 'w" where
  "runShimuxMode pf args w =
     (if version_wanted args then
        (\<lparr>ExitCode = 0, OutText = ''shimux '' @ pf_version pf @ newline, ErrText = ''''\<rparr>, w)
      else
        (let cmdArgs = command_args False [] args in
         if cmdArgs = [] then (fails ''usage: shimux -- <command> [args...]'', w)
         else if \<not> IsInsideGhostty (environment pf) then (fails ''shimux: not running inside ghostty terminal'', w)
         else
           (let ctrl = keysim_New (pf_osascript pf);
                stateDir = DefaultStateDir (environment pf);
                mgr = NewWithDir stateDir
            in case New (pf_process pf)
                 \<lparr>cfg_Controller = Some ctrl, cfg_PaneManager = Some mgr, cfg_Session = '''', cfg_ShimuxPath = ''''\<rparr> of
                 Inl err \<Rightarrow> (fails (report err), w)
               | Inr wr \<Rightarrow>
                   (case Run (pf_process pf) (pf_wrapper_os pf) cmdArgs wr w of
                      ((Some err, wr'), w') \<Rightarrow> (fails (report err), w')
                    | ((None, wr'), w') \<Rightarrow> (\<lparr>ExitCode = 0, OutText = '''', ErrText = ''''\<rparr>, w')))))"

section \<open>Choosing the mode\<close>

definition runMain :: "'w platform \<Rightarrow> string list \<Rightarrow> 'w \<Rightarrow> exit_status \<times> 'w" where
  "runMain pf args w =
     (case args of
        [] \<Rightarrow> (fails ''shimux: no arguments'', w)
      | arg0 # rest \<Rightarrow>
          (let base = Base arg0 in
           if base = ''tmux'' then runTmuxMode pf rest w
           else if base = ''shimux'' then runShimuxMode pf rest w
           else if environment pf ''SHIMUX'' = ''1'' then runTmuxMode pf rest w
           else runShimuxMode pf rest w))"

end
