(* ===== verification/Wrapper_Spec.thy ===== *)
theory Wrapper_Spec
  imports Wrapper Pane_Spec
begin

text \<open>
  What the wrapper promises: session names that are path elements, the environment the child sees, a pane
  identifier that agrees with the pane manager, and no temporary directory left behind.
\<close>

section \<open>Session names\<close>

definition session_char :: "char \<Rightarrow> bool" where
  "session_char c \<longleftrightarrow> session_rune (of_char c) \<or> c = CHR ''_''"

lemma session_rune_ascii: "session_rune r \<Longrightarrow> r < 128"
  by (auto simp: session_rune_def)

definition session_text :: "nat \<Rightarrow> char" where
  "session_text r = (if session_rune r then char_of r else CHR ''_'')"

lemma GenerateSessionName_loop_map: "GenerateSessionName_loop buf rs = buf @ map session_text rs"
  by (induction rs arbitrary: buf) (simp_all add: session_text_def encode_rune_ascii session_rune_ascii)

lemma GenerateSessionName_map: "GenerateSessionName s = map session_text (runes s)"
  by (simp add: GenerateSessionName_def GenerateSessionName_loop_map)

lemma session_char_text: "session_char (session_text r)"
  using session_rune_ascii [of r] by (auto simp: session_text_def session_char_def)

lemma GenerateSessionName_chars: "list_all session_char (GenerateSessionName s)"
  by (simp add: GenerateSessionName_map list_all_iff session_char_text)

lemma session_text_id: "session_char c \<Longrightarrow> session_text (of_char c) = c"
  by (auto simp: session_char_def session_text_def session_rune_def)

lemma GenerateSessionName_id: "list_all session_char s \<Longrightarrow> GenerateSessionName s = s"
proof -
  assume s: "list_all session_char s"
  then have "list_all (\<lambda>c. of_char c < (128 :: nat)) s"
    by (rule list.pred_mono_strong) (auto simp: session_char_def dest: session_rune_ascii)
  with s show ?thesis
    by (simp add: GenerateSessionName_map runes_ascii) (auto simp: list_all_iff session_text_id intro!: map_idI)
qed

lemma runes_Nil_iff: "runes s = [] \<longleftrightarrow> s = []"
  by (cases "s = []") (auto simp: runes.simps [of s] split_beta)

lemma session_chars_proper:
  assumes "list_all session_char s" "s \<noteq> ''''"
  shows "proper_elem s"
proof -
  have "\<not> session_char (CHR ''/'')" "\<not> session_char (CHR ''.'')"
    by (simp_all add: session_char_def session_rune_def)
  with assms show ?thesis by (auto simp: proper_elem_def list_all_iff)
qed

text \<open>
  Whatever name is asked for, a wrapper that \<open>New\<close> makes has a session name of letters, digits, \<open>-\<close> and
  \<open>_\<close> that is one element of a path, so its sockets stay inside the directory of the program; the
  name is kept exactly when it was of that form already.
\<close>
theorem New_session:
  assumes "New pr cfg = Inr wr"
  shows "list_all session_char (wr_session wr) \<and> proper_elem (wr_session wr) \<and>
    GenerateSessionName (wr_session wr) = wr_session wr \<and>
    (cfg_Session cfg \<noteq> '''' \<longrightarrow> (wr_session wr = cfg_Session cfg \<longleftrightarrow> list_all session_char (cfg_Session cfg)))"
proof -
  let ?s = "if cfg_Session cfg = '''' then ''shimux-'' @ Itoa (pr_Pid pr) else cfg_Session cfg"
  have s: "wr_session wr = GenerateSessionName ?s"
    using assms by (auto simp: New_def Let_def split: option.splits if_splits sum.splits)
  have nonempty: "wr_session wr \<noteq> ''''" unfolding s by (simp add: GenerateSessionName_map runes_Nil_iff)
  have chars: "list_all session_char (wr_session wr)" unfolding s by (rule GenerateSessionName_chars)
  have "wr_session wr = cfg_Session cfg \<longleftrightarrow> list_all session_char (cfg_Session cfg)" if "cfg_Session cfg \<noteq> ''''"
  proof
    assume "list_all session_char (cfg_Session cfg)"
    with that s show "wr_session wr = cfg_Session cfg" by (simp add: GenerateSessionName_id)
  qed (use chars in simp)
  with chars nonempty show ?thesis
    using GenerateSessionName_id [OF chars] session_chars_proper [OF chars] by blast
qed

definition sample_process :: process where
  "sample_process = \<lparr>pr_Pid = 42, pr_Executable = Inr ''/opt/shimux'', pr_Environ = [''PATH=/bin'', ''HOME=/root'']\<rparr>"

definition sample_config :: "string list Config" where
  "sample_config = \<lparr>cfg_Controller = Some (NewWithExecutor (recording (\<lambda>log. None))),
     cfg_PaneManager = Some (NewManager ''panes.json''), cfg_Session = ''a/../b'', cfg_ShimuxPath = ''''\<rparr>"

theorem New_session_witness:
  "\<exists>wr. New sample_process sample_config = Inr wr \<and> proper_elem (wr_session wr)"
proof -
  obtain wr where "New sample_process sample_config = Inr wr"
    by (simp add: New_def sample_process_def sample_config_def Let_def)
  with New_session [OF this] show ?thesis by blast
qed

section \<open>The environment of the child\<close>

lemma env_key_append [simp]: "CHR ''='' \<notin> set k \<Longrightarrow> env_key (k @ CHR ''='' # v) = k"
  by (induction k) (auto simp: env_key_def)

lemma prefix_key:
  assumes "CHR ''='' \<notin> set k"
  shows "prefix (k @ ''='') e \<longleftrightarrow> env_key e = k \<and> CHR ''='' \<in> set e"
proof
  assume "prefix (k @ ''='') e"
  then obtain v where "e = k @ ''='' @ v" by (auto simp: prefix_def)
  with assms show "env_key e = k \<and> CHR ''='' \<in> set e" by simp
next
  assume k: "env_key e = k \<and> CHR ''='' \<in> set e"
  obtain c v where d: "dropWhile (\<lambda>c. c \<noteq> CHR ''='') e = c # v"
    using k by (cases "dropWhile (\<lambda>c. c \<noteq> CHR ''='') e") auto
  then have "c = CHR ''=''" using hd_dropWhile [of "\<lambda>c. c \<noteq> CHR ''=''" e] by auto
  with d k have "e = k @ CHR ''='' # v"
    using takeWhile_dropWhile_id [of "\<lambda>c. c \<noteq> CHR ''=''" e] by (simp add: env_key_def)
  then show "prefix (k @ ''='') e" by (simp add: prefix_def)
qed

lemma lookup_replaceEnv:
  assumes "CHR ''='' \<notin> set key" "CHR ''='' \<notin> set k" "v = key @ ''='' @ x"
  shows "lookup_env (replaceEnv env key v) k = (if k = key then Some x else lookup_env env k)"
proof -
  have v: "prefix (k @ ''='') v \<longleftrightarrow> k = key"
    using assms by (auto simp: prefix_key)
  have "(case replaceEnv_loop env (key @ ''='') v of
      Some env' \<Rightarrow> lookup_env env' k = (if k = key then Some x else lookup_env env k)
    | None \<Rightarrow> lookup_env env key = None)"
  proof (induction env)
    case (Cons e env)
    then show ?case
      using v assms by (auto simp: prefix_key split: option.splits)
  qed simp
  moreover have "lookup_env (env @ [v]) k = (case lookup_env env k of Some y \<Rightarrow> Some y | None \<Rightarrow> if k = key then Some x else None)"
    using v assms(3) by (induction env) auto
  ultimately show ?thesis by (auto simp: replaceEnv_def split: option.splits)
qed

lemma replaceEnv_keys:
  assumes "distinct (map env_key env)" "list_all (\<lambda>e. CHR ''='' \<in> set e) env"
    and "CHR ''='' \<notin> set key" "v = key @ ''='' @ x"
  shows "distinct (map env_key (replaceEnv env key v)) \<and> list_all (\<lambda>e. CHR ''='' \<in> set e) (replaceEnv env key v)"
proof -
  have v: "env_key v = key" "CHR ''='' \<in> set v" using assms(3,4) by simp_all
  have "(case replaceEnv_loop env (key @ ''='') v of
      Some env' \<Rightarrow> map env_key env' = map env_key env \<and> list_all (\<lambda>e. CHR ''='' \<in> set e) env'
    | None \<Rightarrow> key \<notin> set (map env_key env))"
    using assms(2)
  proof (induction env)
    case (Cons e env)
    then show ?case
      using v by (auto simp: prefix_key [OF assms(3)] split: option.splits)
  qed simp
  then show ?thesis
    using assms(1,2) v by (auto simp: replaceEnv_def split: option.splits)
qed

definition wrapper_keys :: "string list" where
  "wrapper_keys = [''PATH'', ''TMUX'', ''SHIMUX'', ''SHIMUX_SESSION'', ''SHIMUX_PANE_ID'', ''TMUX_PANE'']"

definition wrapper_env :: "process \<Rightarrow> 'w Wrapper \<Rightarrow> (string \<times> string) list" where
  "wrapper_env pr wr =
     [(''PATH'', wr_tmpDir wr @ '':'' @ Getenv (pr_Environ pr) ''PATH''),
      (''TMUX'', wr_tmpDir wr @ ''/shimux,'' @ Itoa (pr_Pid pr) @ '',0''),
      (''SHIMUX'', ''1''), (''SHIMUX_SESSION'', wr_session wr), (''SHIMUX_PANE_ID'', ''0''), (''TMUX_PANE'', ''%0'')]"

lemma Env_entries: "Env pr wr = map (\<lambda>(k, x). k @ ''='' @ x) (wrapper_env pr wr)"
  by (simp add: Env_def wrapper_env_def)

lemma child_env_entries:
  assumes "list_all (\<lambda>(k, x). CHR ''='' \<notin> set k) kvs" "distinct (map fst kvs)"
    and "distinct (map env_key env)" "list_all (\<lambda>e. CHR ''='' \<in> set e) env"
  shows "distinct (map env_key (child_env env (map (\<lambda>(k, x). k @ ''='' @ x) kvs))) \<and>
    (\<forall>k. CHR ''='' \<notin> set k \<longrightarrow>
       lookup_env (child_env env (map (\<lambda>(k, x). k @ ''='' @ x) kvs)) k =
         (case map_of kvs k of Some x \<Rightarrow> Some x | None \<Rightarrow> lookup_env env k))"
  using assms
proof (induction kvs arbitrary: env)
  case (Cons kv kvs)
  obtain key x where kv: "kv = (key, x)" by (cases kv)
  let ?env = "replaceEnv env key (key @ ''='' @ x)"
  have key: "CHR ''='' \<notin> set key" "env_key (key @ ''='' @ x) = key" "map_of kvs key = None"
    using Cons.prems(1,2) by (simp_all add: kv map_of_eq_None_iff)
  note inv = replaceEnv_keys [OF Cons.prems(3,4) key(1) refl, of x]
  have IH: "distinct (map env_key (child_env ?env (map (\<lambda>(k, x). k @ ''='' @ x) kvs))) \<and>
    (\<forall>k. CHR ''='' \<notin> set k \<longrightarrow>
       lookup_env (child_env ?env (map (\<lambda>(k, x). k @ ''='' @ x) kvs)) k =
         (case map_of kvs k of Some x \<Rightarrow> Some x | None \<Rightarrow> lookup_env ?env k))"
    using Cons.prems(1,2) inv by (intro Cons.IH) simp_all
  have "child_env env (map (\<lambda>(k, x). k @ ''='' @ x) (kv # kvs)) = child_env ?env (map (\<lambda>(k, x). k @ ''='' @ x) kvs)"
    using key(2) by (simp add: kv)
  with IH key show ?case
    by (auto simp: kv lookup_replaceEnv [OF key(1) _ refl, simplified] split: option.splits)
qed simp

lemma child_env_lookup:
  assumes "distinct (map env_key (pr_Environ pr))" "list_all (\<lambda>e. CHR ''='' \<in> set e) (pr_Environ pr)"
  shows "distinct (map env_key (child_env (pr_Environ pr) (Env pr wr))) \<and>
    (\<forall>k. CHR ''='' \<notin> set k \<longrightarrow>
       lookup_env (child_env (pr_Environ pr) (Env pr wr)) k =
         (case map_of (wrapper_env pr wr) k of Some x \<Rightarrow> Some x | None \<Rightarrow> lookup_env (pr_Environ pr) k))"
  unfolding Env_entries
  by (rule child_env_entries [OF _ _ assms]) (simp_all add: wrapper_env_def)

text \<open>
  C30: The child finds the six variables of a tmux pane with the wrapper's values, its \<open>PATH\<close> being the temporary
  directory, a colon and the \<open>PATH\<close> of the parent, also when that is empty, and every other variable as in the
  parent; no variable appears twice.
\<close>
theorem child_environment:
  assumes "distinct (map env_key (pr_Environ pr))" "list_all (\<lambda>e. CHR ''='' \<in> set e) (pr_Environ pr)"
  shows "distinct (map env_key (child_env (pr_Environ pr) (Env pr wr))) \<and>
    (\<forall>k. CHR ''='' \<notin> set k \<longrightarrow>
       lookup_env (child_env (pr_Environ pr) (Env pr wr)) k =
         (case map_of (wrapper_env pr wr) k of Some x \<Rightarrow> Some x | None \<Rightarrow> lookup_env (pr_Environ pr) k))"
  by (rule child_env_lookup [OF assms])

definition sample_wrapper :: "string list Wrapper" where
  "sample_wrapper = \<lparr>wr_controller = NewWithExecutor (recording (\<lambda>log. None)),
     wr_paneManager = NewManager ''panes.json'', wr_session = ''work'', wr_tmpDir = ''/tmp/w'', wr_shimuxPath = ''/opt/shimux''\<rparr>"

theorem child_environment_witness:
  "lookup_env (child_env (pr_Environ sample_process) (Env sample_process sample_wrapper)) ''PATH'' = Some ''/tmp/w:/bin'' \<and>
   lookup_env (child_env (pr_Environ sample_process) (Env sample_process sample_wrapper)) ''HOME'' = Some ''/root''"
proof -
  have "distinct (map env_key (pr_Environ sample_process))"
      "list_all (\<lambda>e. CHR ''='' \<in> set e) (pr_Environ sample_process)"
    by (simp_all add: sample_process_def env_key_def)
  from child_environment [OF this, of sample_wrapper, THEN conjunct2] show ?thesis
    by (simp add: wrapper_env_def) (simp add: sample_process_def sample_wrapper_def Getenv_def)
qed

section \<open>One run\<close>

text \<open>
  The documented behaviour of temporary directories; \<open>dirs\<close> reads which exist. \<open>os.RemoveAll\<close> may fail, and then the
  directory may still be there. The command is free to do anything to the file system.
\<close>

definition tmp_laws :: "'w wrapper_os \<Rightarrow> ('w \<Rightarrow> string set) \<Rightarrow> bool" where
  "tmp_laws wo dirs \<longleftrightarrow>
     (\<forall>d p w. case wo_MkdirTemp wo d p w of
        (Inl e, w') \<Rightarrow> dirs w' = dirs w
      | (Inr t, w') \<Rightarrow> t \<noteq> '''' \<and> t \<notin> dirs w \<and> dirs w' = insert t (dirs w)) \<and>
     (\<forall>a b w. dirs (snd (wo_Symlink wo a b w)) = dirs w) \<and>
     (\<forall>t w. fst (wo_RemoveAll wo t w) = None \<longrightarrow> dirs (snd (wo_RemoveAll wo t w)) = dirs w - {t})"

text \<open>
  A command was run while the temporary directory \<open>t\<close> existed, and then \<open>t\<close> was removed, as the last thing; it is gone
  unless the removal has failed.
\<close>

definition ran_with ::
    "'w wrapper_os \<Rightarrow> ('w \<Rightarrow> string set) \<Rightarrow> string list \<Rightarrow> string list \<Rightarrow> string \<Rightarrow> go_error option \<Rightarrow> 'w \<Rightarrow> 'w \<Rightarrow> bool" where
  "ran_with wo dirs args env t err w w' \<longleftrightarrow>
     (\<exists>w1 w2. t \<notin> dirs w \<and> dirs w1 = insert t (dirs w) \<and> wo_Command wo args env w1 = (err, w2) \<and>
        w' = snd (wo_RemoveAll wo t w2) \<and> (fst (wo_RemoveAll wo t w2) = None \<longrightarrow> dirs w' = dirs w2 - {t}))"

lemma Setup_dirs:
  assumes "tmp_laws wo dirs" "Setup wo wr w = ((err, wr'), w')"
  shows "(\<exists>e w1. wo_MkdirTemp wo '''' ''shimux-wrapper-'' w = (Inl e, w1) \<and> err = Some e \<and> dirs w' = dirs w \<and> wr' = wr) \<or>
    (\<exists>t. t \<noteq> '''' \<and> t \<notin> dirs w \<and> wr' = wr\<lparr>wr_tmpDir := t\<rparr> \<and> dirs w' = insert t (dirs w))"
proof -
  obtain r w1 where mk: "wo_MkdirTemp wo '''' ''shimux-wrapper-'' w = (r, w1)"
    by (cases "wo_MkdirTemp wo '''' ''shimux-wrapper-'' w")
  have laws: "case r of Inl e \<Rightarrow> dirs w1 = dirs w | Inr t \<Rightarrow> t \<noteq> '''' \<and> t \<notin> dirs w \<and> dirs w1 = insert t (dirs w)"
  proof -
    have "case wo_MkdirTemp wo '''' ''shimux-wrapper-'' w of (Inl e, w') \<Rightarrow> dirs w' = dirs w
      | (Inr t, w') \<Rightarrow> t \<noteq> '''' \<and> t \<notin> dirs w \<and> dirs w' = insert t (dirs w)"
      using assms(1) [unfolded tmp_laws_def, THEN conjunct1]
      by (elim allE [of _ "''''"] allE [of _ "''shimux-wrapper-''"] allE [of _ w])
    with mk show ?thesis by (cases r) simp_all
  qed
  show ?thesis
  proof (cases r)
    case (Inl e)
    with laws mk assms(2) show ?thesis by (simp add: Setup_def)
  next
    case (Inr t)
    obtain e w2 where sl: "wo_Symlink wo (wr_shimuxPath wr) (Join [t, ''tmux'']) w1 = (e, w2)"
      by (cases "wo_Symlink wo (wr_shimuxPath wr) (Join [t, ''tmux'']) w1")
    then have "dirs w2 = dirs w1" using assms(1) unfolding tmp_laws_def by (metis snd_conv)
    moreover have "Setup wo wr w = ((e, wr\<lparr>wr_tmpDir := t\<rparr>), w2)"
      using mk sl Inr by (simp add: Setup_def Let_def del: Join.simps)
    ultimately show ?thesis using Inr laws assms(2) by auto
  qed
qed

lemma Run_outcome:
  assumes "tmp_laws wo dirs" "args \<noteq> []" "Run pr wo args wr w = ((err, wr'), w')"
  shows "(\<exists>e. err = Some (Wrapf ''setup: '' e '''') \<and> wr_paneManager wr' = wr_paneManager wr \<and>
      (dirs w' = dirs w \<or> dirs w' = insert (wr_tmpDir wr') (dirs w))) \<or>
    (\<exists>p. Register '''' (wr_paneManager wr) = (Inr p, wr_paneManager wr') \<and>
      (wr_paneManager wr = NewManager f \<longrightarrow> p = new_pane ''0'' '''' True) \<and>
      ran_with wo dirs args (child_env (pr_Environ pr) (Env pr wr')) (wr_tmpDir wr') err w w')"
proof -
  obtain e1 wr1 w1 where su: "Setup wo wr w = ((e1, wr1), w1)"
    by (metis prod.exhaust)
  note new_dir = Setup_dirs [OF assms(1) su]
  have mgr: "wr_paneManager wr1 = wr_paneManager wr"
    using su by (auto simp: Setup_def Let_def split: sum.splits prod.splits)
  show ?thesis
  proof (cases e1)
    case (Some e)
    with assms(2,3) su have "err = Some (Wrapf ''setup: '' e '''')" "wr' = wr1" "w' = w1"
      by (simp_all add: Run_def)
    with new_dir mgr show ?thesis by auto
  next
    case None
    obtain p m where reg: "Register '''' (wr_paneManager wr1) = (Inr p, m)"
      by (simp add: Register_def split_beta Let_def)
    define wr2 where "wr2 = wr1\<lparr>wr_paneManager := m\<rparr>"
    define env where "env = child_env (pr_Environ pr) (Env pr wr2)"
    obtain e2 w2 where cmd: "wo_Command wo args env w1 = (e2, w2)"
      by (cases "wo_Command wo args env w1")
    have res: "err = e2" "wr' = wr2" "w' = snd (Cleanup wo wr2 w2)"
      using assms(2,3) su None reg cmd by (auto simp: Run_def wr2_def env_def Let_def)
    obtain t where t: "t \<noteq> ''''" "t \<notin> dirs w" "wr1 = wr\<lparr>wr_tmpDir := t\<rparr>" "dirs w1 = insert t (dirs w)"
      using new_dir None by auto
    then have tmp: "wr_tmpDir wr' = t" "w' = snd (wo_RemoveAll wo t w2)"
      using res(2,3) by (simp_all add: Cleanup_def wr2_def)
    have "fst (wo_RemoveAll wo t w2) = None \<longrightarrow> dirs w' = dirs w2 - {t}"
      using assms(1) tmp(2) by (simp add: tmp_laws_def)
    then have "ran_with wo dirs args env t err w w'"
      unfolding ran_with_def using t(2,4) cmd res(1) tmp(2) by (intro exI [of _ w1] exI [of _ w2]) simp
    moreover have "p = new_pane ''0'' '''' True" if "wr_paneManager wr = NewManager f"
      using reg that mgr by (auto simp: NewManager_def Register_def nextID_def Let_def)
    moreover have "wr_paneManager wr' = m" using res(2) by (simp add: wr2_def)
    moreover have "env = child_env (pr_Environ pr) (Env pr wr')" using res(2) by (simp add: env_def)
    ultimately show ?thesis using reg mgr tmp(1) by (intro disjI2 exI [of _ p]) simp
  qed
qed

text \<open>
  C29: \<open>Run\<close> either fails in its set-up, or runs the command once, with the child environment and while the
  temporary directory exists, and returns the command's error as it is; the last thing it does is to remove the
  temporary directory, which is gone then unless that removal fails (its error is dropped). Only a set-up that fails
  at the symbolic link leaves the directory behind. The pane it registers in a fresh manager is pane \<open>0\<close>, active, as
  the environment of the child says.
\<close>
theorem Run_cleans_up:
  assumes "tmp_laws wo dirs" "args \<noteq> []" "Run pr wo args wr w = ((err, wr'), w')"
  shows "(\<exists>e. err = Some (Wrapf ''setup: '' e '''') \<and> wr_paneManager wr' = wr_paneManager wr \<and>
      (dirs w' = dirs w \<or> dirs w' = insert (wr_tmpDir wr') (dirs w))) \<or>
    (\<exists>p. Register '''' (wr_paneManager wr) = (Inr p, wr_paneManager wr') \<and>
      (wr_paneManager wr = NewManager f \<longrightarrow> p = new_pane ''0'' '''' True) \<and>
      ran_with wo dirs args (child_env (pr_Environ pr) (Env pr wr')) (wr_tmpDir wr') err w w')"
  by (rule Run_outcome [OF assms])

text \<open>A world that is the set of temporary directories and a log of the commands with their environment.\<close>

definition ref_wrapper_os :: "(string set \<times> string list list) wrapper_os" where
  "ref_wrapper_os =
     \<lparr>wo_MkdirTemp = (\<lambda>d p (s, log). if ''/tmp/w'' \<in> s then (Inl (OsError EOTHER ''file exists''), (s, log))
                                    else (Inr ''/tmp/w'', (insert ''/tmp/w'' s, log))),
      wo_Symlink = (\<lambda>a b w. (None, w)),
      wo_RemoveAll = (\<lambda>t (s, log). (None, (s - {t}, log))),
      wo_Command = (\<lambda>args env (s, log). (Some (ExitError 3 ''exit status 3''), (s, log @ [args])))\<rparr>"

lemma ref_wrapper_laws: "tmp_laws ref_wrapper_os fst"
  by (auto simp: tmp_laws_def ref_wrapper_os_def)

definition set_wrapper :: "(string set \<times> string list list) Wrapper" where
  "set_wrapper = \<lparr>wr_controller = NewWithExecutor (\<lambda>s w. (None, w)),
     wr_paneManager = NewManager ''panes.json'', wr_session = ''work'', wr_tmpDir = '''', wr_shimuxPath = ''/opt/shimux''\<rparr>"

theorem Run_cleans_up_witness:
  "\<exists>wr' w'. Run sample_process ref_wrapper_os [''claude''] set_wrapper ({}, []) =
     ((Some (ExitError 3 ''exit status 3''), wr'), w') \<and> fst w' = {}"
proof -
  obtain err wr' w' where r: "Run sample_process ref_wrapper_os [''claude''] set_wrapper ({}, []) = ((err, wr'), w')"
    by (metis prod.exhaust)
  have "Setup ref_wrapper_os set_wrapper ({}, []) = ((None, set_wrapper\<lparr>wr_tmpDir := ''/tmp/w''\<rparr>), ({''/tmp/w''}, []))"
    by (simp add: Setup_def ref_wrapper_os_def)
  then have "err = Some (ExitError 3 ''exit status 3'')"
    using r by (auto simp: Run_def Register_def nextID_def Let_def) (auto simp: ref_wrapper_os_def Let_def)
  with Run_cleans_up [OF ref_wrapper_laws _ r]
  have "ran_with ref_wrapper_os fst [''claude''] (child_env (pr_Environ sample_process) (Env sample_process wr'))
      (wr_tmpDir wr') err ({}, []) w'" by auto
  then have "fst w' = {}" by (auto simp: ran_with_def ref_wrapper_os_def split: prod.splits)
  with r \<open>err = _\<close> show ?thesis by blast
qed

end
