(* ===== verification/Main_Shimux_Spec.thy ===== *)
theory Main_Shimux_Spec
  imports Main_Shimux Commands_Spec Wrapper_Spec
begin

text \<open>
  What the main program promises: which mode runs and with which arguments, its exit codes, how the child of the
  wrapper meets the program again as \<open>tmux\<close>, and what one command finds of the commands before it.
\<close>

section \<open>The arguments of the shimux mode\<close>

lemma version_wanted_iff: "version_wanted args \<longleftrightarrow> ''-V'' \<in> set (takeWhile (\<lambda>a. a \<noteq> ''--'') args)"
  by (induction args) auto

lemma command_args_True: "command_args True acc args = acc @ args"
  by (induction args arbitrary: acc) simp_all

lemma command_args_conv: "command_args False acc args = acc @ tl (dropWhile (\<lambda>a. a \<noteq> ''--'') args)"
  by (induction args arbitrary: acc) (simp_all add: command_args_True)

lemma command_args_sep:
  "''--'' \<notin> set pre \<Longrightarrow> command_args False [] (pre @ ''--'' # cmd) = cmd"
  by (induction pre) (auto simp: command_args_True)

section \<open>One command in the tmux mode\<close>

definition tmux_ctx :: "'w platform \<Rightarrow> 'w CommandContext" where
  "tmux_ctx pf = \<lparr>ctx_Controller = keysim_New (pf_osascript pf), ctx_Session = environment pf ''SHIMUX_SESSION'',
     ctx_os = pf_os pf, ctx_TempDir = TempDir (environment pf), ctx_order = pf_order pf\<rparr>"

definition tmux_start :: "'w platform \<Rightarrow> 'w \<Rightarrow> 'w State" where
  "tmux_start pf w =
     \<lparr>PaneManager = NewWithDir (DefaultStateDir (environment pf)), Stdout = '''', Stderr = '''', World = w\<rparr>"

definition tmux_end :: "(int \<times> go_error option) \<times> 'w State \<Rightarrow> exit_status \<times> 'w" where
  "tmux_end r =
     (\<lparr>ExitCode = fst (fst r), OutText = Stdout (snd r),
       ErrText = Stderr (snd r) @ (case snd (fst r) of None \<Rightarrow> '''' | Some e \<Rightarrow> report e @ newline)\<rparr>, World (snd r))"

lemma runTmuxMode_Execute:
  "Parse args = Inr r \<Longrightarrow> \<not> Version (Global r) \<Longrightarrow>
     runTmuxMode pf args w = tmux_end (Execute (tmux_ctx pf) r (tmux_start pf w))"
  by (cases "args = []")
    (simp_all add: runTmuxMode_def tmux_ctx_def tmux_start_def tmux_end_def Parse_def Let_def split_beta)

lemma Parse_command: "cmd \<notin> {''-V'', ''-L'', ''-S'', ''-f'', ''''} \<Longrightarrow> Parse (cmd # args) = Inr (command_line cmd args)"
  by (simp add: Parse_def Parse_loop.simps(2) Parse_stage2_def command_line_def)

lemma runTmuxMode_command:
  "cmd \<notin> {''-V'', ''-L'', ''-S'', ''-f'', ''''} \<Longrightarrow>
     runTmuxMode pf (cmd # args) w = tmux_end (Execute (tmux_ctx pf) (command_line cmd args) (tmux_start pf w))"
  by (rule runTmuxMode_Execute [OF Parse_command]) (simp_all add: command_line_def no_globals_def)

lemma tmux_start_simps:
  "m_panes (PaneManager (tmux_start pf w)) = []" "m_order (PaneManager (tmux_start pf w)) = []"
  "m_nextPaneID (PaneManager (tmux_start pf w)) = 0" "Stdout (tmux_start pf w) = ''''" "Stderr (tmux_start pf w) = ''''"
  "World (tmux_start pf w) = w"
  by (simp_all add: tmux_start_def NewWithDir_def NewManager_def)

lemma runTmuxMode_cases:
  obtains (fails) msg where "runTmuxMode pf args w = (fails msg, w)"
  | (version) "runTmuxMode pf args w =
      (\<lparr>ExitCode = 0, OutText = ''shimux '' @ pf_version pf @ '' (tmux-compatible)'' @ newline, ErrText = ''''\<rparr>, w)"
  | (run) r where "Parse args = Inr r" "runTmuxMode pf args w = tmux_end (Execute (tmux_ctx pf) r (tmux_start pf w))"
proof (cases "args = [] \<or> (\<exists>e. Parse args = Inl e)")
  case True
  then have "runTmuxMode pf args w = (fails (if args = [] then ''shimux: no command specified''
      else case Parse args of Inl e \<Rightarrow> report e | Inr r \<Rightarrow> ''''), w)"
    by (auto simp: runTmuxMode_def)
  then show thesis by (rule fails)
next
  case False
  then obtain r where r: "args \<noteq> []" "Parse args = Inr r" by (cases "Parse args") auto
  show thesis
  proof (cases "Version (Global r)")
    case True
    with r show ?thesis by (intro version) (simp add: runTmuxMode_def)
  next
    case False
    with r show ?thesis by (intro run) (simp_all add: runTmuxMode_Execute)
  qed
qed

section \<open>Exit codes\<close>

lemma runTmuxMode_exit:
  assumes "runTmuxMode pf args w = (x, w')"
  shows "(ExitCode x = 0 \<or> ExitCode x = 1) \<and>
    (ExitCode x = 1 \<and> ErrText x = '''' \<longrightarrow> (\<exists>r. Parse args = Inr r \<and> Command r = ''has-session'')) \<and>
    (ExitCode x = 0 \<and> ErrText x \<noteq> '''' \<longrightarrow> (\<exists>r. Parse args = Inr r \<and> Command r \<notin> set tmux_commands))"
proof (cases rule: runTmuxMode_cases [of pf args w])
  case (run r)
  obtain code err st where e: "Execute (tmux_ctx pf) r (tmux_start pf w) = ((code, err), st)" by (metis prod.exhaust)
  from Execute_status [OF e] run e assms show ?thesis
    by (auto simp: tmux_end_def tmux_start_simps report_def split: option.splits if_splits)
qed (use assms in \<open>auto simp: fails_def newline_def\<close>)

lemma runShimuxMode_exit:
  assumes "runShimuxMode pf args w = (x, w')"
  shows "(ExitCode x = 0 \<or> ExitCode x = 1) \<and> (ErrText x = '''' \<longleftrightarrow> ExitCode x = 0)"
  using assms
  by (auto simp: runShimuxMode_def fails_def newline_def Let_def split: if_splits sum.splits prod.splits option.splits)

lemma runMain_modes:
  "runMain pf (a # rest) w = runTmuxMode pf rest w \<or> runMain pf (a # rest) w = runShimuxMode pf rest w"
  by (simp add: runMain_def Let_def)

text \<open>
  C31: The program exits with 0 or 1, also when the command it wraps ends with another exit code. When it fails it
  says why on the error stream, except where \<open>has-session\<close> answers that the session is another one; and when it
  succeeds it writes to the error stream only to warn of a tmux command it does not implement.
\<close>
theorem runMain_exit:
  assumes "runMain pf args w = (x, w')"
  shows "(ExitCode x = 0 \<or> ExitCode x = 1) \<and>
    (ExitCode x = 1 \<and> ErrText x = '''' \<longrightarrow> (\<exists>r. Parse (tl args) = Inr r \<and> Command r = ''has-session'')) \<and>
    (ExitCode x = 0 \<and> ErrText x \<noteq> '''' \<longrightarrow> (\<exists>r. Parse (tl args) = Inr r \<and> Command r \<notin> set tmux_commands))"
proof (cases args)
  case Nil
  with assms show ?thesis by (auto simp: runMain_def fails_def newline_def)
next
  case (Cons a rest)
  with assms runMain_modes [of pf a rest w] have "runTmuxMode pf rest w = (x, w') \<or> runShimuxMode pf rest w = (x, w')"
    by auto
  then show ?thesis
    using runTmuxMode_exit [of pf rest w x w'] runShimuxMode_exit [of pf rest w x w'] Cons by auto
qed

section \<open>One run of the wrapper\<close>

lemma New_cases:
  obtains e where "New pr \<lparr>cfg_Controller = Some c, cfg_PaneManager = Some m, cfg_Session = s, cfg_ShimuxPath = ''''\<rparr> =
      Inl (Wrapf ''resolve executable path: '' e '''')" "pr_Executable pr = Inl e"
  | wr where "New pr \<lparr>cfg_Controller = Some c, cfg_PaneManager = Some m, cfg_Session = s, cfg_ShimuxPath = ''''\<rparr> = Inr wr"
      "wr_paneManager wr = m"
      "wr_session wr = GenerateSessionName (if s = '''' then ''shimux-'' @ Itoa (pr_Pid pr) else s)"
  by (cases "pr_Executable pr") (simp_all add: New_def Let_def)

definition wrapper_outcome :: "'w platform \<Rightarrow> ('w \<Rightarrow> string set) \<Rightarrow> string list \<Rightarrow> exit_status \<Rightarrow> 'w \<Rightarrow> 'w \<Rightarrow> bool" where
  "wrapper_outcome pf dirs cmd x w w' \<longleftrightarrow>
     (\<exists>e. x = fails (''shimux: setup: '' @ error_string e)) \<or>
     (\<exists>(wr :: 'w Wrapper) err. wr_session wr = GenerateSessionName (''shimux-'' @ Itoa (pr_Pid (pf_process pf))) \<and>
        ran_with (pf_wrapper_os pf) dirs cmd (child_env (pr_Environ (pf_process pf)) (Env (pf_process pf) wr))
          (wr_tmpDir wr) err w w' \<and>
        (case err of None \<Rightarrow> ExitCode x = 0 | Some e \<Rightarrow> x = fails (report e)))"

lemma wrapper_outcomeI:
  assumes "tmp_laws (pf_wrapper_os pf) dirs" "cmd \<noteq> []"
    and "wr_session wr = GenerateSessionName (''shimux-'' @ Itoa (pr_Pid (pf_process pf)))"
    and r: "Run (pf_process pf) (pf_wrapper_os pf) cmd wr w = ((err, wr'), w')"
    and x: "case err of None \<Rightarrow> ExitCode x = 0 | Some e \<Rightarrow> x = fails (report e)"
  shows "wrapper_outcome pf dirs cmd x w w'"
proof -
  have sess: "wr_session wr' = wr_session wr"
    using r by (auto simp: Run_def Setup_def Let_def split: if_splits sum.splits prod.splits option.splits)
  consider (failed) e where "err = Some (Wrapf ''setup: '' e '''')"
    | (ran) "ran_with (pf_wrapper_os pf) dirs cmd (child_env (pr_Environ (pf_process pf)) (Env (pf_process pf) wr'))
        (wr_tmpDir wr') err w w'"
    using Run_outcome [OF assms(1,2) r, of "''''"] by blast
  then show ?thesis
  proof cases
    case failed
    with x show ?thesis by (auto simp: wrapper_outcome_def report_def)
  next
    case ran
    with x assms(3) sess show ?thesis
      unfolding wrapper_outcome_def by (intro disjI2 exI [of _ wr'] exI [of _ err]) simp
  qed
qed

text \<open>
  C28: In the shimux mode the words after the first \<open>--\<close> are the command and the words before it count only for
  \<open>-V\<close>. Without a command, outside ghostty, or when the program cannot find itself, nothing is run and the
  world is as before. Otherwise the set-up failed, or the command is run once in the environment of a tmux pane while
  the temporary directory exists, and that directory is then removed and gone unless the removal fails; the exit code
  is 0 when the command succeeded, and 1, not the exit code of the command, when it failed.
\<close>
theorem runShimuxMode_spec:
  assumes "tmp_laws (pf_wrapper_os pf) dirs" "''--'' \<notin> set pre"
    and "runShimuxMode pf (pre @ ''--'' # cmd) w = (x, w')"
  shows "if ''-V'' \<in> set pre then ExitCode x = 0 \<and> w' = w
    else if cmd = [] \<or> \<not> IsInsideGhostty (environment pf) \<or> (\<exists>e. pr_Executable (pf_process pf) = Inl e)
      then ExitCode x = 1 \<and> w' = w
    else wrapper_outcome pf dirs cmd x w w'"
proof -
  let ?pr = "pf_process pf" and ?wo = "pf_wrapper_os pf" and ?mgr = "NewWithDir (DefaultStateDir (environment pf))"
  let ?cfg = "\<lparr>cfg_Controller = Some (keysim_New (pf_osascript pf)), cfg_PaneManager = Some ?mgr, cfg_Session = '''',
    cfg_ShimuxPath = ''''\<rparr>"
  have v: "version_wanted (pre @ ''--'' # cmd) \<longleftrightarrow> ''-V'' \<in> set pre"
    using assms(2) by (auto simp: version_wanted_iff takeWhile_append)
  have c: "command_args False [] (pre @ ''--'' # cmd) = cmd" by (rule command_args_sep [OF assms(2)])
  show ?thesis
  proof (cases "''-V'' \<in> set pre \<or> cmd = [] \<or> \<not> IsInsideGhostty (environment pf)")
    case True
    with assms(3) v c show ?thesis by (auto simp: runShimuxMode_def fails_def split: if_splits)
  next
    case False
    with assms(3) v c have run: "(case New ?pr ?cfg of Inl err \<Rightarrow> (fails (report err), w)
        | Inr wr \<Rightarrow> (case Run ?pr ?wo cmd wr w of
            ((Some err, wr'), w') \<Rightarrow> (fails (report err), w')
          | ((None, wr'), w') \<Rightarrow> (\<lparr>ExitCode = 0, OutText = '''', ErrText = ''''\<rparr>, w'))) = (x, w')"
      by (simp add: runShimuxMode_def Let_def)
    show ?thesis
    proof (cases rule: New_cases [of ?pr "keysim_New (pf_osascript pf)" ?mgr "''''"])
      case (1 e)
      with run False show ?thesis by (auto simp: fails_def)
    next
      case (2 wr)
      then have exe: "\<nexists>e. pr_Executable ?pr = Inl e" by (auto simp: New_def Let_def)
      obtain err wr' w2 where r: "Run ?pr ?wo cmd wr w = ((err, wr'), w2)" by (metis prod.exhaust)
      from run 2(1) r have x: "w' = w2" "case err of None \<Rightarrow> ExitCode x = 0 | Some e \<Rightarrow> x = fails (report e)"
        by (auto split: option.splits)
      have "wrapper_outcome pf dirs cmd x w w'"
        using wrapper_outcomeI [OF assms(1) _ _ r x(2)] 2(3) False x(1) by simp
      with False exe show ?thesis by simp
    qed
  qed
qed

section \<open>One tmux command after another\<close>

lemma first_pane_printed:
  assumes "runTmuxMode pf [''split-window'', ''-P''] w = (x, w1)" "ExitCode x = 0"
  shows "OutText x = ''%0'' @ newline"
proof -
  obtain code err st where
    e: "Execute (tmux_ctx pf) (command_line ''split-window'' [''-P'']) (tmux_start pf w) = ((code, err), st)"
    by (metis prod.exhaust)
  then have "handleSplitWindow (tmux_ctx pf) \<lparr>sw_Horizontal = False, sw_Direction = ''down'', sw_Target = '''',
      sw_Size = '''', sw_PrintAfter = True, sw_Format = ''''\<rparr> (tmux_start pf w) = ((code, err), st)"
    by (simp add: Execute_def command_line_def split_window_flags with_options_def)
  moreover have "code = 0" "OutText x = Stdout st"
    using assms runTmuxMode_command [of "''split-window''" pf "[''-P'']" w] e by (auto simp: tmux_end_def)
  ultimately show ?thesis
    by (cases rule: handleSplitWindow_cases)
      (auto simp: Register_def nextID_def tmux_start_simps ExpandFormat_pane_id buildFormatContext_def new_pane_def Let_def)
qed

lemma kill_pane_forgotten: "ExitCode (fst (runTmuxMode pf [''kill-pane'', ''-t'', ''%0''] w)) = 1"
proof -
  obtain code err st where
    e: "Execute (tmux_ctx pf) (command_line ''kill-pane'' [''-t'', ''%0'']) (tmux_start pf w) = ((code, err), st)"
    by (metis prod.exhaust)
  then have "handleKillPane (tmux_ctx pf) \<lparr>kp_Target = ''%0''\<rparr> (tmux_start pf w) = ((code, err), st)"
    by (simp add: Execute_def command_line_def kill_pane_target with_options_def)
  moreover have "extractPaneID ''%0'' = ''0''" using extractPaneID_id [of "''0''"] by (simp add: is_digit_def)
  ultimately have "code = 1"
    by (cases rule: handleKillPane_cases) (auto simp: tmux_start_simps Unregister_def)
  with e show ?thesis by (simp add: runTmuxMode_command tmux_end_def)
qed

text \<open>
  C27: Every command in the tmux mode starts from an empty pane manager, and none saves it: \<open>split-window -P\<close> prints
  \<open>%0\<close> each time it succeeds, and in the next command that pane is not there: \<open>list-panes\<close> lists nothing,
  \<open>kill-pane\<close> with the printed name fails although it has closed a surface before, and \<open>send-keys\<close> without a
  target has no pane to send to.
\<close>
theorem tmux_mode_forgets:
  assumes "runTmuxMode pf [''split-window'', ''-P''] w = (x, w1)" "ExitCode x = 0"
  shows "OutText x = ''%0'' @ newline \<and>
    runTmuxMode pf [''list-panes''] w1 = (\<lparr>ExitCode = 0, OutText = '''', ErrText = ''''\<rparr>, w1) \<and>
    ExitCode (fst (runTmuxMode pf [''kill-pane'', ''-t'', ''%0''] w1)) = 1 \<and>
    (keys \<noteq> '''' \<longrightarrow> is_map_order (pf_order pf) \<longrightarrow>
     runTmuxMode pf [''send-keys'', ''-l'', ''--'', keys] w1 = (fails ''shimux: send-keys: no target pane specified'', w1))"
proof (intro conjI impI)
  note run = runTmuxMode_command [of _ pf] tmux_end_def tmux_start_simps command_line_def with_options_def
  show "OutText x = ''%0'' @ newline" by (rule first_pane_printed [OF assms])
  show "runTmuxMode pf [''list-panes''] w1 = (\<lparr>ExitCode = 0, OutText = '''', ErrText = ''''\<rparr>, w1)"
    by (simp add: run Execute_def list_panes_flags handleListPanes_def List_def)
  show "ExitCode (fst (runTmuxMode pf [''kill-pane'', ''-t'', ''%0''] w1)) = 1" by (rule kill_pane_forgotten)
  assume "keys \<noteq> ''''" "is_map_order (pf_order pf)"
  then have "pf_order pf [] = []" by (metis is_map_order_def mset_zero_iff)
  then have "GetActive (ctx_order (tmux_ctx pf)) (PaneManager (tmux_start pf w1)) = None"
    by (simp add: GetActive_def tmux_start_simps tmux_ctx_def)
  moreover have "ParseSendKeys [''-l'', ''--'', keys] = Inr \<lparr>sk_Target = '''', sk_Literal = True, sk_Keys = [keys]\<rparr>"
    by (simp add: ParseSendKeys_def ParseSendKeys_loop.simps(2) sk_init_def)
  ultimately show "runTmuxMode pf [''send-keys'', ''-l'', ''--'', keys] w1 =
      (fails ''shimux: send-keys: no target pane specified'', w1)"
    using \<open>keys \<noteq> ''''\<close>
    by (simp add: run Execute_def handleSendKeys_def extractPaneID_def BuildSendKeysData_def fails_def report_def Let_def)
qed

section \<open>The child meets the program again\<close>

lemma Base_abs_path:
  assumes "CHR ''/'' \<notin> set e" "e \<noteq> ''''"
  shows "Base (abs_path (ts @ [e])) = e"
proof -
  have last: "dropWhile (\<lambda>c. c = CHR ''/'') (rev e @ xs) = rev e @ xs" for xs
    using assms by (cases "rev e") (auto simp: dest: arg_cong [where f = set])
  have "takeWhile (\<lambda>c. c \<noteq> CHR ''/'') (rev e @ CHR ''/'' # xs) = rev e" for xs
    using assms(1) by (auto simp: takeWhile_append)
  with last [of "CHR ''/'' # rev (abs_path ts)"] assms(2) show ?thesis
    by (simp add: Base_def Let_def)
qed

lemma has_session_flags: "ParseHasSession [''-t'', t] = Inr \<lparr>hs_Target = t\<rparr>"
  by (simp add: ParseHasSession_def ParseHasSession_loop.simps(2) hs_init_def)

lemma display_message_flags: "ParseDisplayMessage [''-p'', ''#{session_name}''] =
    Inr \<lparr>dm_Print = True, dm_Format = ''#{session_name}'', dm_Target = ''''\<rparr>"
  by (simp add: ParseDisplayMessage_def ParseDisplayMessage_loop.simps(2) dm_init_def)

lemma ExpandFormat_session_name: "ExpandFormat ''#{session_name}'' fctx = SessionName fctx"
  using ExpandFormat_var [of "''''" "''session_name''" "''''" fctx]
  by (simp add: ExpandFormat_tail open_tail_def lookupVar_def sublist_def)

text \<open>
  C26: The command the wrapper runs finds this program when it calls \<open>tmux\<close>: through the link in the temporary
  directory, or under any other name but \<open>shimux\<close>, the program is in the tmux mode, and its session is the
  wrapper's, which \<open>has-session\<close> confirms for this name alone and \<open>display-message\<close> prints.
\<close>
theorem child_is_tmux:
  assumes "distinct (map env_key (pr_Environ pr))" "list_all (\<lambda>e. CHR ''='' \<in> set e) (pr_Environ pr)"
    and "pr_Environ (pf_process pf) = child_env (pr_Environ pr) (Env pr wr)"
    and "wr_tmpDir wr = abs_path es" "list_all proper_elem es" "es \<noteq> []"
  shows "runMain pf (Join [wr_tmpDir wr, ''tmux''] # args) w = runTmuxMode pf args w \<and>
    (Base a \<noteq> ''shimux'' \<longrightarrow> runMain pf (a # args) w = runTmuxMode pf args w) \<and>
    runTmuxMode pf [''has-session'', ''-t'', t] w =
      (\<lparr>ExitCode = if t = wr_session wr then 0 else 1, OutText = '''', ErrText = ''''\<rparr>, w) \<and>
    OutText (fst (runTmuxMode pf [''display-message'', ''-p'', ''#{session_name}''] w)) = wr_session wr @ newline"
proof -
  have lookup: "environment pf k = (case map_of (wrapper_env pr wr) k of Some x \<Rightarrow> x | None \<Rightarrow> Getenv (pr_Environ pr) k)"
    if "CHR ''='' \<notin> set k" for k
    using child_env_lookup [OF assms(1,2), of wr, THEN conjunct2] that assms(3)
    by (simp add: environment_def Getenv_def split: option.splits)
  have env: "environment pf ''SHIMUX'' = ''1''" "environment pf ''SHIMUX_SESSION'' = wr_session wr"
    by (simp_all add: lookup wrapper_env_def)
  have "Join [wr_tmpDir wr, ''tmux''] = abs_path (es @ [''tmux''])"
    unfolding assms(4) by (rule Join_abs_path) (use assms(5,6) in \<open>simp_all add: proper_elem_def\<close>)
  then have base: "Base (Join [wr_tmpDir wr, ''tmux'']) = ''tmux''"
    using Base_abs_path [of "''tmux''" es] by simp
  have "environment pf ''SHIMUX'' = ''1'' \<Longrightarrow> Base a \<noteq> ''shimux'' \<Longrightarrow> runMain pf (a # args) w = runTmuxMode pf args w" for a
    by (simp add: runMain_def Let_def)
  moreover have "GetActive (ctx_order (tmux_ctx pf)) (PaneManager (tmux_start pf w)) = None \<or>
      SessionName (buildFormatContext (tmux_ctx pf) m p) = wr_session wr" for m p
    by (simp add: buildFormatContext_def Let_def tmux_ctx_def env)
  ultimately show ?thesis
    using env base
    by (auto simp: runTmuxMode_command tmux_end_def tmux_start_simps command_line_def with_options_def Execute_def
        has_session_flags display_message_flags handleHasSession_def handleDisplayMessage_def tmux_ctx_def
        ExpandFormat_session_name session_context_def buildFormatContext_def Let_def simp del: Join.simps split: option.splits)
qed

section \<open>Examples\<close>

text \<open>A platform on the world of \<open>ref_wrapper_os\<close>, where every script succeeds and nothing listens.\<close>

definition refusing_os :: "'w os" where
  "refusing_os =
     \<lparr>os_Stat = (\<lambda>p w. (Some (OsError ENOENT ''no file''), w)), os_Remove = (\<lambda>p w. (None, w)),
      os_MkdirAll = (\<lambda>p m w. (None, w)), os_Umask = (\<lambda>m w. (0, w)), os_Listen = (\<lambda>p w. (None, w)),
      os_Dial = (\<lambda>p t w. (Some (OsError EOTHER ''connection refused''), w)), os_SetDeadline = (\<lambda>t w. w),
      os_Write = (\<lambda>s w. (None, w)), os_CloseWrite = (\<lambda>w. w), os_ReadAll = (\<lambda>w. (('''', None), w)),
      os_CloseConn = (\<lambda>w. w), os_Sleep = (\<lambda>t w. w)\<rparr>"

definition sample_platform :: "string list \<Rightarrow> (string set \<times> string list list) platform" where
  "sample_platform environ =
     \<lparr>pf_version = ''dev'', pf_process = sample_process\<lparr>pr_Environ := environ\<rparr>,
      pf_osascript = (\<lambda>s w. ((None, ''''), w)), pf_os = refusing_os, pf_wrapper_os = ref_wrapper_os, pf_order = rev\<rparr>"

theorem runMain_exit_witness:
  "\<exists>x. runMain (sample_platform []) [''/bin/tmux'', ''new-window''] ({}, []) = (x, ({}, [])) \<and>
     ErrText x = ''shimux: unsupported tmux command: new-window'' @ newline \<and> (ExitCode x = 0 \<or> ExitCode x = 1)"
proof -
  have "Base ''/bin/tmux'' = ''tmux''" using Base_abs_path [of "''tmux''" "[''bin'']"] by simp
  then have "runMain (sample_platform []) [''/bin/tmux'', ''new-window''] ({}, []) =
      tmux_end (Execute (tmux_ctx (sample_platform [])) (command_line ''new-window'' []) (tmux_start (sample_platform []) ({}, [])))"
    by (simp add: runMain_def runTmuxMode_command)
  also have "Execute (tmux_ctx (sample_platform [])) (command_line ''new-window'' []) (tmux_start (sample_platform []) ({}, [])) =
      ((0, None), (tmux_start (sample_platform []) ({}, []))\<lparr>Stderr := ''shimux: unsupported tmux command: new-window'' @ newline\<rparr>)"
    by (simp add: Execute_def command_line_def handleUnsupported_def tmux_start_simps)
  finally obtain x where x: "runMain (sample_platform []) [''/bin/tmux'', ''new-window''] ({}, []) = (x, ({}, []))"
      "ErrText x = ''shimux: unsupported tmux command: new-window'' @ newline"
    by (simp add: tmux_end_def tmux_start_simps)
  with runMain_exit [OF x(1)] show ?thesis by blast
qed

text \<open>The command of \<open>ref_wrapper_os\<close> ends with exit status 3, which the program turns into 1.\<close>

theorem runShimuxMode_spec_witness:
  "\<exists>x w'. runShimuxMode (sample_platform [''TERM_PROGRAM=ghostty'']) [''--'', ''claude''] ({}, []) = (x, w') \<and>
     wrapper_outcome (sample_platform [''TERM_PROGRAM=ghostty'']) fst [''claude''] x ({}, []) w'"
proof -
  let ?pf = "sample_platform [''TERM_PROGRAM=ghostty'']"
  obtain x w' where r: "runShimuxMode ?pf ([] @ ''--'' # [''claude'']) ({}, []) = (x, w')" by (metis prod.exhaust)
  have laws: "tmp_laws (pf_wrapper_os ?pf) fst" by (simp add: sample_platform_def ref_wrapper_laws)
  have "IsInsideGhostty (environment ?pf)"
    by (simp add: IsInsideGhostty_def environment_def sample_platform_def sample_process_def Getenv_def prefix_def)
  moreover have "\<nexists>e. pr_Executable (pf_process ?pf) = Inl e" by (simp add: sample_platform_def sample_process_def)
  ultimately show ?thesis using runShimuxMode_spec [OF laws _ r] r by simp
qed

theorem tmux_mode_forgets_witness:
  "\<exists>x. runTmuxMode (sample_platform []) [''split-window'', ''-P''] ({}, []) = (x, ({}, [])) \<and> OutText x = ''%0'' @ newline"
proof -
  let ?pf = "sample_platform []"
  obtain x w' where r: "runTmuxMode ?pf [''split-window'', ''-P''] ({}, []) = (x, w')" by (metis prod.exhaust)
  have "NewSplit (ctx_Controller (tmux_ctx ?pf)) (split_direction ''down'') ({}, []) = (None, ({}, []))"
    by (simp add: split_direction_def tmux_ctx_def sample_platform_def keysim_New_def NewWithExecutor_def keysim_NewSplit_def
      keySplit_def defaultExecScript_def)
  moreover obtain p m where "Register '''' (PaneManager (tmux_start ?pf ({}, []))) = (Inr p, m)"
    using Register_result [of "''''" "PaneManager (tmux_start ?pf ({}, []))"] by (metis prod.collapse)
  ultimately have "ExitCode x = 0 \<and> w' = ({}, [])"
    using r by (auto simp: runTmuxMode_command Execute_def command_line_def split_window_flags with_options_def
        handleSplitWindow_def tmux_end_def tmux_start_simps Let_def)
  with tmux_mode_forgets [OF r] r show ?thesis by blast
qed

theorem child_is_tmux_witness:
  "runTmuxMode (sample_platform (child_env (pr_Environ sample_process) (Env sample_process sample_wrapper)))
     [''has-session'', ''-t'', ''work''] ({}, []) = (\<lparr>ExitCode = 0, OutText = '''', ErrText = ''''\<rparr>, ({}, []))"
proof -
  let ?pf = "sample_platform (child_env (pr_Environ sample_process) (Env sample_process sample_wrapper))"
  have env: "distinct (map env_key (pr_Environ sample_process))"
      "list_all (\<lambda>e. CHR ''='' \<in> set e) (pr_Environ sample_process)"
    by (simp_all add: sample_process_def env_key_def)
  have pf: "pr_Environ (pf_process ?pf) = child_env (pr_Environ sample_process) (Env sample_process sample_wrapper)"
    by (simp add: sample_platform_def)
  have dir: "wr_tmpDir sample_wrapper = abs_path [''tmp'', ''w'']" "list_all proper_elem [''tmp'', ''w'']"
      "[''tmp'', ''w''] \<noteq> []"
    by (simp_all add: sample_wrapper_def proper_elem_def)
  from child_is_tmux [OF env pf dir, where t = "''work''" and w = "({}, [])"] show ?thesis by (simp add: sample_wrapper_def)
qed

end
