(* ===== verification/Agent.thy ===== *)
theory Agent
  imports Protocol Ghostty
begin

text \<open>
  The PTY agent of one pane, \<open>internal/agent/agent.go\<close>: opening a terminal pair, the start of the shell and of the
  socket server, and the time after that, when a shell, two copying goroutines, a signal handler and the
  handlers of the server run beside the main one. The start is a function on a world \<open>'w\<close>; the rest is a step
  relation, every run of which is an interleaving. \<open>cmd/shimux-agent/main.go\<close> comes last.
\<close>

section \<open>The operating system\<close>

text \<open>
  Files are named by their descriptors. \<open>ag_ioctl fd req buf\<close> returns what the buffer holds afterwards; a request
  with the argument 0 has the empty buffer. \<open>ag_Start cmd slave\<close> starts a command whose standard streams and
  controlling terminal are the slave, \<open>ag_Kill\<close> and \<open>ag_Wait\<close> act on it.
\<close>

datatype request = TIOCPTYGRANT | TIOCPTYUNLK | TIOCPTYGNAME | TIOCGWINSZ | TIOCSWINSZ

record 'w agent_os =
  ag_OpenFile :: "string \<Rightarrow> 'w \<Rightarrow> nat result \<times> 'w"
  ag_ioctl :: "nat \<Rightarrow> request \<Rightarrow> string \<Rightarrow> 'w \<Rightarrow> (go_error option \<times> string) \<times> 'w"
  ag_Close :: "nat \<Rightarrow> 'w \<Rightarrow> 'w"
  ag_Start :: "string \<Rightarrow> nat \<Rightarrow> 'w \<Rightarrow> go_error option \<times> 'w"
  ag_Kill :: "'w \<Rightarrow> 'w"
  ag_Wait :: "'w \<Rightarrow> go_error option \<times> 'w"

section \<open>The terminal pair\<close>

record PTYPair =
  Master :: nat
  Slave :: nat

type_synonym 'w opener = "'w \<Rightarrow> PTYPair result \<times> 'w"

text \<open>The loop over the buffer, with the bytes before the current one.\<close>

fun slaveName_loop :: "string \<Rightarrow> string \<Rightarrow> string" where
  "slaveName_loop before [] = ''''"
| "slaveName_loop before (b # rest) = (if b = CHR 0x00 then before else slaveName_loop (before @ [b]) rest)"

definition DefaultPTYOpener_Open :: "'w agent_os \<Rightarrow> 'w opener" where
  "DefaultPTYOpener_Open ao w0 =
     (case ag_OpenFile ao ''/dev/ptmx'' w0 of
        (Inl err, w1) \<Rightarrow> (Inl (Wrapf ''open /dev/ptmx: '' err ''''), w1)
      | (Inr master, w1) \<Rightarrow>
          (case ag_ioctl ao master TIOCPTYGRANT '''' w1 of
             ((Some err, _), w2) \<Rightarrow> (Inl (Wrapf ''grantpt: '' err ''''), ag_Close ao master w2)
           | ((None, _), w2) \<Rightarrow>
               (case ag_ioctl ao master TIOCPTYUNLK '''' w2 of
                  ((Some err, _), w3) \<Rightarrow> (Inl (Wrapf ''unlockpt: '' err ''''), ag_Close ao master w3)
                | ((None, _), w3) \<Rightarrow>
                    (case ag_ioctl ao master TIOCPTYGNAME (replicate 128 (CHR 0x00)) w3 of
                       ((Some err, _), w4) \<Rightarrow> (Inl (Wrapf ''ptsname: '' err ''''), ag_Close ao master w4)
                     | ((None, buf), w4) \<Rightarrow>
                         (let slaveName = slaveName_loop '''' buf in
                          if slaveName = '''' then (Inl (Errorf ''ptsname: empty slave name''), ag_Close ao master w4)
                          else
                            (case ag_OpenFile ao slaveName w4 of
                               (Inl err, w5) \<Rightarrow>
                                 (Inl (Wrapf (''open slave '' @ slaveName @ '': '') err ''''), ag_Close ao master w5)
                             | (Inr slave, w5) \<Rightarrow> (Inr \<lparr>Master = master, Slave = slave\<rparr>, w5)))))))"

text \<open>\<open>None\<close> is a \<open>nil\<close> file. The window size is four 16-bit numbers.\<close>

definition syncWindowSize :: "'w agent_os \<Rightarrow> nat option \<Rightarrow> nat option \<Rightarrow> 'w \<Rightarrow> 'w" where
  "syncWindowSize ao source target w0 =
     (case (source, target) of
        (Some f, Some t) \<Rightarrow>
          (case ag_ioctl ao f TIOCGWINSZ (replicate 8 (CHR 0x00)) w0 of
             ((Some err, _), w1) \<Rightarrow> w1
           | ((None, ws), w1) \<Rightarrow> snd (ag_ioctl ao t TIOCSWINSZ ws w1))
      | _ \<Rightarrow> w0)"

section \<open>Configuration\<close>

record 'w agent_Config =
  ac_PTYOpener :: "'w opener option"
  ac_SocketPath :: string
  ac_PaneID :: string
  ac_ShellCmd :: string

record 'w Agent =
  a_ptyOpener :: "'w opener"
  a_socketPath :: string
  a_paneID :: string
  a_shellCmd :: string

definition getDefaultShell :: "environ \<Rightarrow> string" where
  "getDefaultShell env = (if env ''SHELL'' \<noteq> '''' then env ''SHELL'' else ''/bin/sh'')"

definition agent_New :: "'w agent_os \<Rightarrow> environ \<Rightarrow> 'w agent_Config \<Rightarrow> 'w Agent" where
  "agent_New ao env cfg =
     (let opener = (case ac_PTYOpener cfg of None \<Rightarrow> DefaultPTYOpener_Open ao | Some o' \<Rightarrow> o');
          shell = (if ac_ShellCmd cfg = '''' then getDefaultShell env else ac_ShellCmd cfg)
      in \<lparr>a_ptyOpener = opener, a_socketPath = ac_SocketPath cfg, a_paneID = ac_PaneID cfg, a_shellCmd = shell\<rparr>)"

definition validateConfig :: "string \<Rightarrow> string \<Rightarrow> go_error option" where
  "validateConfig socketPath paneID =
     (if socketPath = '''' then Some (Errorf ''SocketPath is required'')
      else if paneID = '''' then Some (Errorf ''PaneID is required'') else None)"

section \<open>The start\<close>

text \<open>
  \<open>Run\<close> up to the point where the server runs: an error, or the pair whose slave is closed on this side. The
  descriptor 0 is the standard input.
\<close>

definition agent_start :: "'w os \<Rightarrow> 'w agent_os \<Rightarrow> 'w Agent \<Rightarrow> 'w \<Rightarrow> PTYPair result \<times> 'w" where
  "agent_start os ao a w0 =
     (case validateConfig (a_socketPath a) (a_paneID a) of
        Some err \<Rightarrow> (Inl err, w0)
      | None \<Rightarrow>
          (case CleanStaleSocket os (a_socketPath a) w0 of
             (Some err, w1) \<Rightarrow> (Inl err, w1)
           | (None, w1) \<Rightarrow>
               (case a_ptyOpener a w1 of
                  (Inl err, w2) \<Rightarrow> (Inl (Wrapf ''pty open: '' err ''''), w2)
                | (Inr pty, w2) \<Rightarrow>
                    (let w3 = syncWindowSize ao (Some 0) (Some (Master pty)) w2 in
                     case ag_Start ao (a_shellCmd a) (Slave pty) w3 of
                       (Some err, w4) \<Rightarrow> (Inl (Wrapf ''shell start: '' err ''''), w4)
                     | (None, w4) \<Rightarrow>
                         (case ListenAndServe os (a_socketPath a) (ag_Close ao (Slave pty) w4) of
                            (Some err, w5) \<Rightarrow>
                              (Inl (Wrapf ''listen: '' err ''''), snd (ag_Wait ao (ag_Kill ao w5)))
                          | (None, w5) \<Rightarrow> (Inr pty, w5))))))"

end
