(* ===== verification/Agent_Run.thy ===== *)
theory Agent_Run
  imports Agent
begin

text \<open>
  The agent after its start: \<open>Run\<close> of \<open>internal/agent/agent.go\<close> from step 7 on. The main goroutine waits for the
  shell and then shuts everything down in a fixed order, while the goroutine that copies the standard input to
  the terminal, the one that copies the terminal to the standard output, the one that follows the window size,
  and the handlers of the socket server go on. A step is an action of one of them or of the world around.
\<close>

section \<open>State\<close>

text \<open>The statement the main goroutine is at.\<close>

datatype main_pc =
    WaitShell | StopNotify | CloseChannel | CloseServer | AwaitServer | CloseMaster | ClearMaster
  | AwaitCopies | CloseDone | DeferredClose | Ended

text \<open>
  Where a goroutine stands in \<open>io.Copy\<close>: before a call, or in one that is under way. Only calls on the master need a
  state before them, since the standard streams are never closed.
\<close>

datatype copy = BeforeRead | Reading | BeforeWrite string | Writing string | Finished

datatype watcher = WaitSignal | Syncing | WatchEnded

text \<open>
  A connection the server has accepted, whose request carries the data: its handler takes the lock to read \<open>a.master\<close>,
  then calls \<open>Write\<close> on it, and then is in the call. Connections whose request never becomes complete do not appear.
\<close>

datatype handler = Locking string | Calling string | Sending string

text \<open>\<open>PartOfClient\<close> is what a write of a handler that failed has left in the terminal.\<close>

datatype source = FromStdin | FromClient | PartOfClient

text \<open>
  \<open>g_shell\<close> is the result of the shell once it has ended. \<open>g_open\<close> says that \<open>Close\<close> of the master has not been called and
  \<open>g_master\<close> that the field \<open>a.master\<close> is not \<open>nil\<close>; \<open>g_pending\<close> is the one place of the channel of signals. Of the
  streams: \<open>g_in\<close> is what was written to the terminal, \<open>g_pty\<close> the output of the shell, and of what it has started, that
  the terminal still holds, and \<open>g_shown\<close> what went to the standard output.
\<close>

record agent_state =
  g_pc :: main_pc
  g_shell :: "go_error option option"
  g_open :: bool
  g_master :: bool
  g_stdin :: copy
  g_stdout :: copy
  g_watcher :: watcher
  g_notify :: bool
  g_pending :: bool
  g_channel_closed :: bool
  g_server_closed :: bool
  g_handlers :: "handler list"
  g_done :: bool
  g_in :: "(source \<times> string) list"
  g_pty :: string
  g_shown :: string

definition agent_running :: agent_state where
  "agent_running =
     \<lparr>g_pc = WaitShell, g_shell = None, g_open = True, g_master = True, g_stdin = Reading, g_stdout = BeforeRead,
      g_watcher = WaitSignal, g_notify = True, g_pending = False, g_channel_closed = False,
      g_server_closed = False, g_handlers = [], g_done = False, g_in = [], g_pty = '''', g_shown = ''''\<rparr>"

section \<open>Steps\<close>

text \<open>
  \<open>Internal\<close> is a step the program takes by itself. All others are acts of the world around: output and end of the
  shell, signals, calls of clients, and the return of input and output calls. Output may also come from processes
  that outlive the shell, up to the close of the master. A call of \<open>Read\<close> or \<open>Write\<close> on a closed
  file returns an error at once. A call that is under way when the file is closed is another matter: \<open>os.File\<close>
  promises to cancel it for files that support deadlines only, and \<open>Fd\<close>, which the code calls on the master, may
  take this support away. So such a call may be cancelled (\<open>Cancelled\<close>, \<open>InputError\<close>), may end with data, or may
  go on for ever. Writes may block for as long as the other side does not read: \<open>WriteReturns\<close> ends one that has
  written everything, \<open>InputError\<close>, \<open>ClientError\<close> and \<open>OutputError\<close> one that has written only a part. The two kinds of
  writers of the terminal do not mix their bytes, as \<open>os.File\<close> locks a file for the whole of a \<open>Write\<close>.
\<close>

datatype agent_event =
    Internal | ShellOutput string | ShellExit "go_error option" | Signal | Connect string
  | StdinData string | StdinEnd | Hangup | Cancelled | WriteReturns | InputError string | ClientError string string
  | OutputError string

inductive agent_step :: "agent_state \<Rightarrow> agent_event \<Rightarrow> agent_state \<Rightarrow> bool" where
  shell_output: "g_open s \<Longrightarrow> d \<noteq> '''' \<Longrightarrow> agent_step s (ShellOutput d) (s\<lparr>g_pty := g_pty s @ d\<rparr>)"
| shell_exit: "g_shell s = None \<Longrightarrow> agent_step s (ShellExit err) (s\<lparr>g_shell := Some err\<rparr>)"
| signal: "g_notify s \<Longrightarrow> agent_step s Signal (s\<lparr>g_pending := True\<rparr>)"
| connect: "\<not> g_server_closed s \<Longrightarrow>
     agent_step s (Connect d) (s\<lparr>g_handlers := g_handlers s @ [Locking d]\<rparr>)"
| handler_lock: "g_handlers s = hs @ Locking d # hs' \<Longrightarrow>
     agent_step s Internal (s\<lparr>g_handlers := hs @ (if g_master s then [Calling d] else []) @ hs'\<rparr>)"
| handler_call: "g_handlers s = hs @ Calling d # hs' \<Longrightarrow>
     agent_step s Internal (s\<lparr>g_handlers := hs @ (if g_open s then [Sending d] else []) @ hs'\<rparr>)"
| handler_wrote: "g_handlers s = hs @ Sending d # hs' \<Longrightarrow>
     agent_step s WriteReturns (s\<lparr>g_handlers := hs @ hs', g_in := g_in s @ [(FromClient, d)]\<rparr>)"
| handler_error: "g_handlers s = hs @ Sending d # hs' \<Longrightarrow> strict_prefix part d \<Longrightarrow>
     agent_step s (ClientError d part) (s\<lparr>g_handlers := hs @ hs', g_in := g_in s @ [(PartOfClient, part)]\<rparr>)"
| stdin_data: "g_stdin s = Reading \<Longrightarrow> d \<noteq> '''' \<Longrightarrow> agent_step s (StdinData d) (s\<lparr>g_stdin := BeforeWrite d\<rparr>)"
| stdin_end: "g_stdin s = Reading \<Longrightarrow> agent_step s StdinEnd (s\<lparr>g_stdin := Finished\<rparr>)"
| stdin_call: "g_stdin s = BeforeWrite d \<Longrightarrow>
     agent_step s Internal (s\<lparr>g_stdin := (if g_open s then Writing d else Finished)\<rparr>)"
| stdin_wrote: "g_stdin s = Writing d \<Longrightarrow>
     agent_step s WriteReturns (s\<lparr>g_stdin := Reading, g_in := g_in s @ [(FromStdin, d)]\<rparr>)"
| stdin_error: "g_stdin s = Writing d \<Longrightarrow> strict_prefix part d \<Longrightarrow>
     agent_step s (InputError part) (s\<lparr>g_stdin := Finished, g_in := g_in s @ [(FromStdin, part)]\<rparr>)"
| stdout_call: "g_stdout s = BeforeRead \<Longrightarrow>
     agent_step s Internal (s\<lparr>g_stdout := (if g_open s then Reading else Finished)\<rparr>)"
| stdout_read: "g_stdout s = Reading \<Longrightarrow> g_pty s = d @ rest \<Longrightarrow> d \<noteq> '''' \<Longrightarrow>
     agent_step s Internal (s\<lparr>g_stdout := Writing d, g_pty := rest\<rparr>)"
| stdout_cancelled: "g_stdout s = Reading \<Longrightarrow> \<not> g_open s \<Longrightarrow> agent_step s Cancelled (s\<lparr>g_stdout := Finished\<rparr>)"
| stdout_hangup: "g_stdout s = Reading \<Longrightarrow> g_shell s \<noteq> None \<Longrightarrow> g_pty s = '''' \<Longrightarrow>
     agent_step s Hangup (s\<lparr>g_stdout := Finished\<rparr>)"
| stdout_wrote: "g_stdout s = Writing d \<Longrightarrow>
     agent_step s WriteReturns (s\<lparr>g_stdout := BeforeRead, g_shown := g_shown s @ d\<rparr>)"
| stdout_error: "g_stdout s = Writing d \<Longrightarrow> strict_prefix part d \<Longrightarrow>
     agent_step s (OutputError part) (s\<lparr>g_stdout := Finished, g_shown := g_shown s @ part\<rparr>)"
| watch_take: "g_watcher s = WaitSignal \<Longrightarrow> g_pending s \<Longrightarrow>
     agent_step s Internal (s\<lparr>g_watcher := Syncing, g_pending := False\<rparr>)"
| watch_sync: "g_watcher s = Syncing \<Longrightarrow> agent_step s Internal (s\<lparr>g_watcher := WaitSignal\<rparr>)"
| watch_end: "g_watcher s = WaitSignal \<Longrightarrow> \<not> g_pending s \<Longrightarrow> g_channel_closed s \<Longrightarrow>
     agent_step s Internal (s\<lparr>g_watcher := WatchEnded\<rparr>)"
| wait_shell: "g_pc s = WaitShell \<Longrightarrow> g_shell s \<noteq> None \<Longrightarrow> agent_step s Internal (s\<lparr>g_pc := StopNotify\<rparr>)"
| stop_notify: "g_pc s = StopNotify \<Longrightarrow>
     agent_step s Internal (s\<lparr>g_notify := False, g_pc := CloseChannel\<rparr>)"
| close_channel: "g_pc s = CloseChannel \<Longrightarrow>
     agent_step s Internal (s\<lparr>g_channel_closed := True, g_pc := CloseServer\<rparr>)"
| close_server: "g_pc s = CloseServer \<Longrightarrow>
     agent_step s Internal (s\<lparr>g_server_closed := True, g_pc := AwaitServer\<rparr>)"
| await_server: "g_pc s = AwaitServer \<Longrightarrow> g_handlers s = [] \<Longrightarrow>
     agent_step s Internal (s\<lparr>g_pc := CloseMaster\<rparr>)"
| close_master: "g_pc s = CloseMaster \<Longrightarrow> agent_step s Internal (s\<lparr>g_open := False, g_pc := ClearMaster\<rparr>)"
| clear_master: "g_pc s = ClearMaster \<Longrightarrow> agent_step s Internal (s\<lparr>g_master := False, g_pc := AwaitCopies\<rparr>)"
| await_copies: "g_pc s = AwaitCopies \<Longrightarrow> g_stdin s = Finished \<Longrightarrow> g_stdout s = Finished \<Longrightarrow>
     agent_step s Internal (s\<lparr>g_pc := CloseDone\<rparr>)"
| close_done: "g_pc s = CloseDone \<Longrightarrow> agent_step s Internal (s\<lparr>g_done := True, g_pc := DeferredClose\<rparr>)"
| deferred_close: "g_pc s = DeferredClose \<Longrightarrow> g_handlers s = [] \<Longrightarrow>
     agent_step s Internal (s\<lparr>g_server_closed := True, g_pc := Ended\<rparr>)"

text \<open>The runs of the agent, with their events, and the runs from any state.\<close>

inductive agent_run :: "agent_event list \<Rightarrow> agent_state \<Rightarrow> bool" where
  run_start: "agent_run [] agent_running"
| run_step: "agent_run es s \<Longrightarrow> agent_step s e s' \<Longrightarrow> agent_run (es @ [e]) s'"

inductive agent_steps :: "agent_state \<Rightarrow> agent_event list \<Rightarrow> agent_state \<Rightarrow> bool" where
  none: "agent_steps s [] s"
| more: "agent_step s e s' \<Longrightarrow> agent_steps s' es s'' \<Longrightarrow> agent_steps s (e # es) s''"

text \<open>The handler as one function, for a client that has the agent to itself.\<close>

definition master_handler :: "string \<Rightarrow> agent_state \<Rightarrow> go_error option \<times> agent_state" where
  "master_handler data s =
     (if \<not> g_master s then (Some (Errorf ''master is closed''), s)
      else if g_open s then (None, s\<lparr>g_in := g_in s @ [(FromClient, data)]\<rparr>)
      else (Some (OsError EOTHER ''write /dev/ptmx: file already closed''), s))"

text \<open>
  The result of \<open>Run\<close> is the error of its start, or, when the main goroutine has ended, that of \<open>shell.Wait\<close>. The
  events are those of the run, none when the start has failed.
\<close>

inductive agent_Run ::
    "'w os \<Rightarrow> 'w agent_os \<Rightarrow> 'w Agent \<Rightarrow> 'w \<Rightarrow> agent_event list \<Rightarrow> go_error option \<Rightarrow> bool" where
  run_failed: "agent_start os ao a w = (Inl err, w') \<Longrightarrow> agent_Run os ao a w [] (Some err)"
| run_ended: "agent_start os ao a w = (Inr pty, w') \<Longrightarrow> agent_run es s \<Longrightarrow> g_pc s = Ended \<Longrightarrow>
     g_shell s = Some err \<Longrightarrow> agent_Run os ao a w es err"

section \<open>The program\<close>

text \<open>
  \<open>runWithIO\<close> of \<open>cmd/shimux-agent/main.go\<close>, with what it writes to the error stream. The signals that cancel its
  context end the shell, so they are part of what \<open>ShellExit\<close> may bring.
\<close>

definition agent_exit :: "go_error option \<Rightarrow> int \<times> string" where
  "agent_exit err =
     (case err of
        Some e \<Rightarrow>
          (case e of
             ExitError c m \<Rightarrow> (c, '''')
           | _ \<Rightarrow> (1, ''shimux-agent: '' @ error_string e @ [CHR 0x0A]))
      | None \<Rightarrow> (0, ''''))"

definition not_set :: "string \<Rightarrow> int \<times> string" where
  "not_set name =
     (1, ''shimux-agent: '' @ name @ '' not set'' @ [CHR 0x0A] @
         ''shimux-agent: this program should be launched by shimux'' @ [CHR 0x0A])"

definition agent_of :: "'w agent_os \<Rightarrow> environ \<Rightarrow> 'w Agent" where
  "agent_of ao env =
     (let paneID = env ''SHIMUX_PANE_ID''; session = env ''SHIMUX_SESSION'';
          socketPath = SafeSocketPath (TempDir env) session paneID
      in agent_New ao env \<lparr>ac_PTYOpener = None, ac_SocketPath = socketPath, ac_PaneID = paneID, ac_ShellCmd = ''''\<rparr>)"

inductive runWithIO ::
    "'w os \<Rightarrow> 'w agent_os \<Rightarrow> environ \<Rightarrow> 'w \<Rightarrow> agent_event list \<Rightarrow> int \<times> string \<Rightarrow> bool" where
  no_pane: "env ''SHIMUX_PANE_ID'' = '''' \<Longrightarrow> runWithIO os ao env w [] (not_set ''SHIMUX_PANE_ID'')"
| no_session: "env ''SHIMUX_PANE_ID'' \<noteq> '''' \<Longrightarrow> env ''SHIMUX_SESSION'' = '''' \<Longrightarrow>
     runWithIO os ao env w [] (not_set ''SHIMUX_SESSION'')"
| ran: "env ''SHIMUX_PANE_ID'' \<noteq> '''' \<Longrightarrow> env ''SHIMUX_SESSION'' \<noteq> '''' \<Longrightarrow>
     agent_Run os ao (agent_of ao env) w es err \<Longrightarrow> runWithIO os ao env w es (agent_exit err)"

end
