(* ===== verification/Agent_Run_Spec.thy ===== *)
theory Agent_Run_Spec
  imports Agent_Run "HOL-Library.Multiset"
begin

text \<open>
  What the running agent promises: that it ends, up to calls of \<open>Read\<close> and \<open>Write\<close> that do not return, the order of the
  shut-down and what it protects, the data of its clients and the streams it copies, and the result of the shell.
\<close>

section \<open>Invariant of the running agent\<close>

fun pc_rank :: "main_pc \<Rightarrow> nat" where
  "pc_rank WaitShell = 0" | "pc_rank StopNotify = 1" | "pc_rank CloseChannel = 2" | "pc_rank CloseServer = 3"
| "pc_rank AwaitServer = 4" | "pc_rank CloseMaster = 5" | "pc_rank ClearMaster = 6" | "pc_rank AwaitCopies = 7"
| "pc_rank CloseDone = 8" | "pc_rank DeferredClose = 9" | "pc_rank Ended = 10"

definition agent_inv :: "agent_state \<Rightarrow> bool" where
  "agent_inv s \<longleftrightarrow>
     (g_shell s = None \<longrightarrow> g_pc s = WaitShell) \<and>
     (g_notify s \<longleftrightarrow> pc_rank (g_pc s) \<le> 1) \<and>
     (g_channel_closed s \<longleftrightarrow> 3 \<le> pc_rank (g_pc s)) \<and>
     (g_server_closed s \<longleftrightarrow> 4 \<le> pc_rank (g_pc s)) \<and>
     (5 \<le> pc_rank (g_pc s) \<longrightarrow> g_handlers s = []) \<and>
     (g_open s \<longleftrightarrow> pc_rank (g_pc s) \<le> 5) \<and>
     (g_master s \<longleftrightarrow> pc_rank (g_pc s) \<le> 6) \<and>
     (8 \<le> pc_rank (g_pc s) \<longrightarrow> g_stdin s = Finished \<and> g_stdout s = Finished) \<and>
     (g_done s \<longleftrightarrow> 9 \<le> pc_rank (g_pc s))"

lemma agent_inv_step:
  assumes "agent_step s e s'" "agent_inv s"
  shows "agent_inv s'"
  using assms
proof (cases rule: agent_step.cases)
  case stdout_hangup
  with assms(2) show ?thesis by (auto simp: agent_inv_def)
qed (simp_all add: agent_inv_def)

lemma agent_inv_run: "agent_run es s \<Longrightarrow> agent_inv s"
proof (induction rule: agent_run.induct)
  case run_start
  show ?case by (simp add: agent_inv_def agent_running_def)
qed (rule agent_inv_step)

lemma agent_steps_run: "agent_steps s es s' \<Longrightarrow> agent_run fs s \<Longrightarrow> agent_run (fs @ es) s'"
proof (induction arbitrary: fs rule: agent_steps.induct)
  case (more s e s' es s'')
  from more.IH [OF run_step [OF more.prems more.hyps(1)]] show ?case by simp
qed simp

section \<open>Termination\<close>

fun pc_left :: "main_pc \<Rightarrow> nat" where
  "pc_left WaitShell = 10" | "pc_left StopNotify = 9" | "pc_left CloseChannel = 8" | "pc_left CloseServer = 7"
| "pc_left AwaitServer = 6" | "pc_left CloseMaster = 5" | "pc_left ClearMaster = 4" | "pc_left AwaitCopies = 3"
| "pc_left CloseDone = 2" | "pc_left DeferredClose = 1" | "pc_left Ended = 0"

fun copy_in_work :: "bool \<Rightarrow> copy \<Rightarrow> nat" where
  "copy_in_work opened (BeforeWrite d) = (if opened then 4 else 1)"
| "copy_in_work opened (Writing d) = 3"
| "copy_in_work opened Reading = 2"
| "copy_in_work opened BeforeRead = 2"
| "copy_in_work opened Finished = 0"

fun copy_out_work :: "bool \<Rightarrow> copy \<Rightarrow> nat" where
  "copy_out_work opened (Writing d) = (if opened then 5 else 2)"
| "copy_out_work opened (BeforeWrite d) = 2"
| "copy_out_work opened BeforeRead = (if opened then 4 else 1)"
| "copy_out_work opened Reading = 3"
| "copy_out_work opened Finished = 0"

fun watcher_work :: "watcher \<Rightarrow> nat" where
  "watcher_work Syncing = 2" | "watcher_work WaitSignal = 1" | "watcher_work WatchEnded = 0"

fun handler_work :: "handler \<Rightarrow> nat" where
  "handler_work (Locking d) = 3" | "handler_work (Calling d) = 2" | "handler_work (Sending d) = 1"

definition agent_work :: "agent_state \<Rightarrow> nat" where
  "agent_work s =
     pc_left (g_pc s) + copy_in_work (g_open s) (g_stdin s) + copy_out_work (g_open s) (g_stdout s) +
     (if g_open s then 3 * length (g_pty s) else 0) + watcher_work (g_watcher s) + (if g_pending s then 2 else 0) +
     sum_list (map handler_work (g_handlers s))"

lemma agent_step_work:
  assumes "agent_step s e s'" "agent_inv s" "e = Internal \<or> e = WriteReturns \<or> \<not> g_open s"
  shows "agent_work s' < agent_work s"
  using assms
proof (cases rule: agent_step.cases)
  case close_master
  with assms(2) show ?thesis by (cases "g_stdin s"; cases "g_stdout s") (simp_all add: agent_work_def agent_inv_def)
next
  case (stdout_read d rest)
  then show ?thesis by (cases d; cases "g_open s") (simp_all add: agent_work_def)
qed (simp_all add: agent_work_def agent_inv_def)

inductive_cases agent_stepsE: "agent_steps s (e # es) s'"

lemma agent_open_step: "agent_step s e s' \<Longrightarrow> agent_inv s \<Longrightarrow> \<not> g_open s \<Longrightarrow> \<not> g_open s'"
  by (erule agent_step.cases) auto

lemma agent_steps_bound:
  assumes "agent_steps s es s'" "agent_inv s" "set es \<subseteq> {Internal, WriteReturns} \<or> \<not> g_open s"
  shows "length es + agent_work s' \<le> agent_work s"
  using assms
proof (induction rule: agent_steps.induct)
  case (more s e s' es s'')
  have "agent_work s' < agent_work s" using more.prems by (intro agent_step_work [OF more.hyps(1)]) auto
  moreover have "length es + agent_work s'' \<le> agent_work s'"
    using more.prems agent_inv_step [OF more.hyps(1)] agent_open_step [OF more.hyps(1)] by (intro more.IH) auto
  ultimately show ?case by simp
qed simp

lemma copies_work_le: "copy_in_work False c \<le> 3" "copy_out_work False c \<le> 3" "watcher_work v \<le> 2"
  by (cases c, simp_all) (cases c, simp_all, cases v, simp_all)

lemma agent_closed_work: "agent_inv s \<Longrightarrow> \<not> g_open s \<Longrightarrow> agent_work s \<le> 14"
  using copies_work_le(1) [of "g_stdin s"] copies_work_le(2) [of "g_stdout s"] copies_work_le(3) [of "g_watcher s"]
  by (cases "g_pc s") (simp_all add: agent_inv_def agent_work_def)

text \<open>
  C7: The agent ends. From the moment the master is closed every run, whatever the world does, has at most 14 steps;
  before that, the program alone, also with writes that return, takes at most as many steps as \<open>agent_work\<close> counts
  until it needs the world.
\<close>
theorem agent_terminates:
  assumes "agent_run fs s" "agent_steps s es s'"
  shows "(\<not> g_open s \<longrightarrow> length es \<le> 14) \<and> (set es \<subseteq> {Internal, WriteReturns} \<longrightarrow> length es \<le> agent_work s)"
  using agent_steps_bound [OF assms(2) agent_inv_run [OF assms(1)]] agent_closed_work [OF agent_inv_run [OF assms(1)]]
  by auto

section \<open>The shut-down\<close>

lemma agent_ended_step: "agent_step s e s' \<Longrightarrow> g_pc s = Ended \<Longrightarrow> g_pc s' = Ended"
  by (erule agent_step.cases) simp_all

lemma agent_ended_steps:
  assumes "agent_steps s es s'" "agent_inv s" "g_pc s = Ended"
  shows "length es \<le> 4 \<and> g_pc s' = Ended"
proof -
  have "g_pc s' = Ended" using assms(1,3) by (induction rule: agent_steps.induct) (auto dest: agent_ended_step)
  moreover have "\<not> g_open s" "agent_work s \<le> 4"
    using assms(2,3) copies_work_le(3) [of "g_watcher s"] by (simp_all add: agent_inv_def agent_work_def)
  ultimately show ?thesis using agent_steps_bound [OF assms(1,2)] by simp
qed

text \<open>
  C5: The order of the shut-down in every interleaving. A signal is never sent on the closed channel, which would
  panic. The master is closed only when the server is and no handler is left, so a handler that writes to it
  finds it open and never meets a closed one. When the main goroutine has ended, the shell has ended, both
  copying goroutines have ended, no handler is left, and the channel of signals, the server and the master are
  closed. The goroutine that follows the window size is not waited for: it may be left over, but as its channel is
  closed and nothing is sent on it any more, it has at most four steps left.
\<close>
theorem agent_shutdown_order:
  assumes "agent_run es s"
  shows "\<not> (g_channel_closed s \<and> g_notify s) \<and>
    (g_handlers s \<noteq> [] \<longrightarrow> g_open s \<and> g_master s) \<and>
    (\<not> g_open s \<longrightarrow> g_server_closed s \<and> g_handlers s = []) \<and>
    (g_pc s = Ended \<longrightarrow> (\<exists>err. g_shell s = Some err) \<and> g_stdin s = Finished \<and> g_stdout s = Finished \<and>
       g_handlers s = [] \<and> g_channel_closed s \<and> g_server_closed s \<and> \<not> g_open s \<and> \<not> g_master s \<and> g_done s \<and>
       (\<forall>fs s'. agent_steps s fs s' \<longrightarrow> length fs \<le> 4 \<and> g_pc s' = Ended))"
proof -
  have inv: "agent_inv s" by (rule agent_inv_run [OF assms])
  have "length fs \<le> 4 \<and> g_pc s' = Ended" if "agent_steps s fs s'" "g_pc s = Ended" for fs s'
    using agent_ended_steps [OF that(1) inv that(2)] by simp
  with inv show ?thesis by (cases "g_pc s"; cases "g_shell s") (simp_all add: agent_inv_def)
qed

lemma master_handler_steps:
  assumes "agent_run es s" "\<not> g_server_closed s"
  obtains s' where "master_handler d s = (None, s')"
    "agent_run (es @ [Connect d, Internal, Internal, WriteReturns]) s'" "s' = s\<lparr>g_in := g_in s @ [(FromClient, d)]\<rparr>"
proof -
  have fields: "g_master s" "g_open s" using agent_inv_run [OF assms(1)] assms(2) by (simp_all add: agent_inv_def)
  let ?s = "\<lambda>h. s\<lparr>g_handlers := g_handlers s @ [h]\<rparr>"
  have "agent_step s (Connect d) (?s (Locking d))" by (rule connect [OF assms(2)])
  moreover have "agent_step (?s (Locking d)) Internal (?s (Calling d))"
    using handler_lock [of "?s (Locking d)" "g_handlers s" d "[]"] fields by simp
  moreover have "agent_step (?s (Calling d)) Internal (?s (Sending d))"
    using handler_call [of "?s (Calling d)" "g_handlers s" d "[]"] fields by simp
  moreover have "agent_step (?s (Sending d)) WriteReturns (s\<lparr>g_in := g_in s @ [(FromClient, d)]\<rparr>)"
    using handler_wrote [of "?s (Sending d)" "g_handlers s" d "[]"] by simp
  ultimately have "agent_steps s [Connect d, Internal, Internal, WriteReturns] (s\<lparr>g_in := g_in s @ [(FromClient, d)]\<rparr>)"
    by (blast intro: more none)
  from agent_steps_run [OF this assms(1)] fields show thesis by (intro that) (simp_all add: master_handler_def)
qed

section \<open>Clients and streams\<close>

text \<open>What the events of a run bring: the requests of clients, those whose write failed, and the input.\<close>

definition asked :: "agent_event list \<Rightarrow> string list" where
  "asked es = concat (map (\<lambda>e. case e of Connect d \<Rightarrow> [d] | _ \<Rightarrow> []) es)"

definition failed :: "agent_event list \<Rightarrow> string list" where
  "failed es = concat (map (\<lambda>e. case e of ClientError d part \<Rightarrow> [d] | _ \<Rightarrow> []) es)"

definition typed :: "agent_event list \<Rightarrow> string" where
  "typed es = concat (map (\<lambda>e. case e of StdinData d \<Rightarrow> d | _ \<Rightarrow> '''') es)"

definition written :: "agent_event list \<Rightarrow> string" where
  "written es = concat (map (\<lambda>e. case e of ShellOutput d \<Rightarrow> d | _ \<Rightarrow> '''') es)"

lemmas event_defs = asked_def failed_def typed_def written_def

lemma event_lists [simp]:
  "asked [] = []" "failed [] = []" "typed [] = ''''" "written [] = ''''"
  "asked (es @ fs) = asked es @ asked fs" "failed (es @ fs) = failed es @ failed fs"
  "typed (es @ fs) = typed es @ typed fs" "written (es @ fs) = written es @ written fs"
  by (simp_all add: event_defs)

fun handler_data :: "handler \<Rightarrow> string" where
  "handler_data (Locking d) = d" | "handler_data (Calling d) = d" | "handler_data (Sending d) = d"

definition delivered :: "agent_state \<Rightarrow> string list" where
  "delivered s = map snd (filter (\<lambda>w. fst w = FromClient) (g_in s))"

fun in_hand :: "copy \<Rightarrow> string" where
  "in_hand (BeforeWrite d) = d"
| "in_hand (Writing d) = d"
| "in_hand c = ''''"

definition sent_by :: "source \<Rightarrow> (source \<times> string) list \<Rightarrow> string" where
  "sent_by src ws = concat (map snd (filter (\<lambda>c. fst c = src) ws))"

lemma sent_by_append [simp]: "sent_by src (xs @ ys) = sent_by src xs @ sent_by src ys"
  by (simp add: sent_by_def)

lemma sent_by_simps [simp]:
  "sent_by FromStdin [(FromStdin, d)] = d" "sent_by FromStdin [(FromClient, d)] = ''''"
  "sent_by FromStdin [(PartOfClient, d)] = ''''"
  by (simp_all add: sent_by_def)

definition client_inv :: "agent_event list \<Rightarrow> agent_state \<Rightarrow> bool" where
  "client_inv es s \<longleftrightarrow>
     mset (asked es) = mset (delivered s) + mset (map handler_data (g_handlers s)) + mset (failed es)"

lemma client_inv_step:
  assumes "agent_step s e s'" "agent_inv s" "client_inv es s"
  shows "client_inv (es @ [e]) s'"
  using assms
  by (cases rule: agent_step.cases) (simp_all add: client_inv_def delivered_def agent_inv_def event_defs)

lemma client_inv_run: "agent_run es s \<Longrightarrow> client_inv es s"
proof (induction rule: agent_run.induct)
  case run_start
  show ?case by (simp add: client_inv_def agent_running_def delivered_def)
next
  case (run_step es s e s')
  show ?case by (rule client_inv_step [OF run_step.hyps(2) agent_inv_run [OF run_step.hyps(1)] run_step.IH])
qed

text \<open>The two copies keep the order of the bytes, and until they end they lose none.\<close>

definition stream_inv :: "agent_event list \<Rightarrow> agent_state \<Rightarrow> bool" where
  "stream_inv es s \<longleftrightarrow>
     (\<exists>lost. typed es = sent_by FromStdin (g_in s) @ in_hand (g_stdin s) @ lost \<and>
        (g_stdin s \<noteq> Finished \<longrightarrow> lost = '''')) \<and>
     (\<exists>lost. written es = g_shown s @ in_hand (g_stdout s) @ lost @ g_pty s \<and>
        (g_stdout s \<noteq> Finished \<longrightarrow> lost = ''''))"

lemma stream_inv_step:
  assumes "agent_step s e s'" "stream_inv es s"
  shows "stream_inv (es @ [e]) s'"
  using assms
  by (cases rule: agent_step.cases)
    (auto simp: stream_inv_def typed_def written_def strict_prefix_def prefix_def)

lemma stream_inv_run: "agent_run es s \<Longrightarrow> stream_inv es s"
proof (induction rule: agent_run.induct)
  case run_start
  show ?case by (simp add: stream_inv_def agent_running_def sent_by_def)
qed (rule stream_inv_step)

text \<open>
  C8: What becomes of the data of the clients and of the two streams. Every request the server has accepted is in the
  terminal as one piece, still with its handler, or has failed in a write, each exactly once; none is dropped
  because the agent is shutting down. So when the master is closed and no write has failed, the terminal has received
  exactly what the clients have asked for, whatever the interleaving with the shut-down. The bytes of the standard
  input reach the terminal in order and those of the shell the standard output, and neither copy loses any as long
  as it goes on.
\<close>
theorem agent_streams:
  assumes "agent_run es s"
  shows "mset (asked es) = mset (delivered s) + mset (map handler_data (g_handlers s)) + mset (failed es) \<and>
    (\<not> g_open s \<and> failed es = [] \<longrightarrow> mset (delivered s) = mset (asked es)) \<and>
    prefix (sent_by FromStdin (g_in s)) (typed es) \<and> prefix (g_shown s) (written es) \<and>
    (g_stdin s = Finished \<or> typed es = sent_by FromStdin (g_in s) @ in_hand (g_stdin s)) \<and>
    (g_stdout s = Finished \<or> written es = g_shown s @ in_hand (g_stdout s) @ g_pty s)"
proof -
  have "g_handlers s = []" if "\<not> g_open s" using agent_inv_run [OF assms] that by (simp add: agent_inv_def)
  then have "mset (asked es) = mset (delivered s) + mset (map handler_data (g_handlers s)) + mset (failed es) \<and>
      (\<not> g_open s \<and> failed es = [] \<longrightarrow> mset (delivered s) = mset (asked es))"
    using client_inv_run [OF assms] by (auto simp: client_inv_def)
  moreover have "prefix (sent_by FromStdin (g_in s)) (typed es) \<and> prefix (g_shown s) (written es) \<and>
      (g_stdin s = Finished \<or> typed es = sent_by FromStdin (g_in s) @ in_hand (g_stdin s)) \<and>
      (g_stdout s = Finished \<or> written es = g_shown s @ in_hand (g_stdout s) @ g_pty s)"
    using stream_inv_run [OF assms] by (auto simp: stream_inv_def)
  ultimately show ?thesis by blast
qed

section \<open>What the agent waits for\<close>

lemma handler_step: "g_handlers s \<noteq> [] \<Longrightarrow> (\<exists>s'. agent_step s Internal s') \<or> (\<exists>d. Sending d \<in> set (g_handlers s))"
proof -
  assume "g_handlers s \<noteq> []"
  then obtain h hs where hs: "g_handlers s = [] @ h # hs" by (cases "g_handlers s") auto
  show ?thesis
  proof (cases h)
    case (Locking d)
    with hs show ?thesis by (blast intro: handler_lock)
  next
    case (Calling d)
    with hs show ?thesis by (blast intro: handler_call)
  next
    case (Sending d)
    with hs show ?thesis by auto
  qed
qed

lemma main_step:
  assumes "agent_inv s" "g_shell s \<noteq> None" "g_pc s \<noteq> Ended"
  shows "(\<exists>s'. agent_step s Internal s') \<or> g_pc s = AwaitServer \<and> (\<exists>d. Sending d \<in> set (g_handlers s)) \<or>
    g_pc s = AwaitCopies \<and> (g_stdin s \<noteq> Finished \<or> g_stdout s \<noteq> Finished)"
  using assms
proof (cases "g_pc s")
  case AwaitServer
  then show ?thesis using handler_step [of s] by (blast intro: await_server)
next
  case DeferredClose
  with assms(1) have "g_handlers s = []" by (simp add: agent_inv_def)
  with DeferredClose show ?thesis by (blast intro: deferred_close)
qed (use assms in \<open>blast intro: wait_shell stop_notify close_channel close_server close_master clear_master
      await_copies close_done\<close>)+

text \<open>A copying goroutine in a call that is under way; a read of the terminal only when that holds no data.\<close>

definition in_call :: "copy \<Rightarrow> bool" where
  "in_call c \<longleftrightarrow> c = Reading \<or> (\<exists>d. c = Writing d)"

lemma copies_step:
  assumes "\<not> (\<exists>s'. agent_step s Internal s')" "g_stdin s \<noteq> BeforeRead" "\<forall>d. g_stdout s \<noteq> BeforeWrite d"
  shows "(g_stdin s = Finished \<or> in_call (g_stdin s)) \<and>
    (g_stdout s = Finished \<or> in_call (g_stdout s) \<and> (g_stdout s = Reading \<longrightarrow> g_pty s = ''''))"
proof -
  have "g_stdin s \<noteq> BeforeWrite d" "g_stdout s \<noteq> BeforeRead" for d
    using assms(1) by (blast intro: stdin_call stdout_call)+
  moreover have "g_pty s = ''''" if "g_stdout s = Reading"
    using assms(1) stdout_read [OF that, of "g_pty s" "''''"] by auto
  ultimately show ?thesis using assms(2,3) unfolding in_call_def by (cases "g_stdin s"; cases "g_stdout s") blast+
qed

lemma copy_states: "agent_run es s \<Longrightarrow> g_stdin s \<noteq> BeforeRead \<and> (\<forall>d. g_stdout s \<noteq> BeforeWrite d)"
proof (induction rule: agent_run.induct)
  case (run_step es s e s')
  from run_step.hyps(2) run_step.IH show ?case by (cases rule: agent_step.cases) simp_all
qed (simp add: agent_running_def)

text \<open>
  C6: Once the shell has ended, the program alone reaches the end of \<open>Run\<close>, except that it waits for calls of \<open>Read\<close>
  and \<open>Write\<close> that are under way. When no step of it is possible any more, the main goroutine has ended; or it
  waits for the server while a handler is in a write to the terminal; or everything is shut down and it waits for a
  copying goroutine, the one in a read of the standard input or a write to the terminal, or the other in a write to
  the standard output or a read of the terminal, which is empty then.
\<close>
theorem agent_waits_for_io:
  assumes "agent_run es s" "g_shell s \<noteq> None" "\<nexists>s'. agent_step s Internal s'"
  shows "g_pc s = Ended \<or>
    g_pc s = AwaitServer \<and> g_server_closed s \<and> (\<exists>d. Sending d \<in> set (g_handlers s)) \<or>
    g_pc s = AwaitCopies \<and> \<not> g_open s \<and> g_server_closed s \<and> g_handlers s = [] \<and> g_watcher s = WatchEnded \<and>
      (in_call (g_stdin s) \<or> in_call (g_stdout s)) \<and> (g_stdin s = Finished \<or> in_call (g_stdin s)) \<and>
      (g_stdout s = Finished \<or> in_call (g_stdout s) \<and> (g_stdout s = Reading \<longrightarrow> g_pty s = ''''))"
proof (cases "g_pc s = Ended")
  case False
  have inv: "agent_inv s" by (rule agent_inv_run [OF assms(1)])
  from main_step [OF inv assms(2) False] assms(3) consider
      (server) "g_pc s = AwaitServer" "\<exists>d. Sending d \<in> set (g_handlers s)"
    | (copies) "g_pc s = AwaitCopies" "g_stdin s \<noteq> Finished \<or> g_stdout s \<noteq> Finished" by blast
  then show ?thesis
  proof cases
    case server
    with inv have "g_server_closed s" by (simp add: agent_inv_def)
    with server show ?thesis by blast
  next
    case copies
    from copies(1) inv have closed: "\<not> g_open s" "g_server_closed s" "g_handlers s = []" "g_channel_closed s"
      by (simp_all add: agent_inv_def)
    have "g_watcher s = WatchEnded"
      using closed(4) assms(3) by (cases "g_watcher s") (blast intro: watch_take watch_sync watch_end)+
    with copies closed copies_step [OF assms(3)] copy_states [OF assms(1)] show ?thesis by blast
  qed
qed simp

section \<open>The result of the shell\<close>

definition shell_exits :: "agent_event list \<Rightarrow> go_error option list" where
  "shell_exits es = concat (map (\<lambda>e. case e of ShellExit err \<Rightarrow> [err] | _ \<Rightarrow> []) es)"

lemma agent_shell: "agent_run es s \<Longrightarrow> shell_exits es = (case g_shell s of None \<Rightarrow> [] | Some err \<Rightarrow> [err])"
proof (induction rule: agent_run.induct)
  case run_start
  show ?case by (simp add: shell_exits_def agent_running_def)
next
  case (run_step es s e s')
  from run_step.hyps(2) run_step.IH show ?case by (cases rule: agent_step.cases) (simp_all add: shell_exits_def)
qed

section \<open>Some runs\<close>

text \<open>The shut-down of an agent that serves no client, up to the wait for the copying goroutines.\<close>

definition shut_down :: "go_error option \<Rightarrow> agent_state \<Rightarrow> agent_state" where
  "shut_down err s = s\<lparr>g_shell := Some err, g_notify := False, g_channel_closed := True, g_server_closed := True,
     g_open := False, g_master := False, g_pc := AwaitCopies\<rparr>"

lemma shut_down_steps:
  assumes "g_pc s = WaitShell" "g_shell s = None" "g_handlers s = []"
  shows "agent_steps s (ShellExit err # replicate 7 Internal) (shut_down err s)"
  apply (simp only: numeral_eq_Suc pred_numeral_simps replicate.simps BitM.simps One_nat_def)
  apply (rule more, rule shell_exit, rule assms)
  apply (rule more, rule wait_shell, simp add: assms, simp)
  apply (rule more, rule stop_notify, simp)
  apply (rule more, rule close_channel, simp)
  apply (rule more, rule close_server, simp)
  apply (rule more, rule await_server, simp, simp add: assms)
  apply (rule more, rule close_master, simp)
  apply (rule more, rule clear_master, simp)
  apply (simp add: shut_down_def none)
  done

lemma agent_steps_append: "agent_steps s es t \<Longrightarrow> agent_steps t fs u \<Longrightarrow> agent_steps s (es @ fs) u"
  by (induction rule: agent_steps.induct) (auto intro: more)

lemma running_fields: "g_pc agent_running = WaitShell" "g_shell agent_running = None" "g_handlers agent_running = []"
  by (simp_all add: agent_running_def)

text \<open>The end of an agent whose standard input ends: what the terminal holds is not shown any more.\<close>

definition ended :: "go_error option \<Rightarrow> agent_state \<Rightarrow> agent_state" where
  "ended err s = (shut_down err s)\<lparr>g_stdout := Finished, g_stdin := Finished, g_done := True, g_pc := Ended\<rparr>"

definition ending :: "go_error option \<Rightarrow> agent_event list" where
  "ending err = (ShellExit err # replicate 7 Internal) @ [Internal, StdinEnd, Internal, Internal, Internal]"

lemma none_eq: "s = s' \<Longrightarrow> agent_steps s [] s'"
  by (simp add: none)

lemma ended_steps:
  assumes "g_pc s = WaitShell" "g_shell s = None" "g_handlers s = []" "g_stdin s = Reading" "g_stdout s = BeforeRead"
  shows "agent_steps s (ending err) (ended err s)"
proof -
  have "agent_steps (shut_down err s) [Internal, StdinEnd, Internal, Internal, Internal] (ended err s)"
    apply (rule more, rule stdout_call, simp add: shut_down_def assms)
    apply (rule more, rule stdin_end, simp add: shut_down_def assms)
    apply (rule more, rule await_copies, simp add: shut_down_def, simp, simp add: shut_down_def)
    apply (rule more, rule close_done, simp)
    apply (rule more, rule deferred_close, simp, simp add: shut_down_def assms)
    apply (rule none_eq, cases s, simp add: shut_down_def ended_def)
    done
  with shut_down_steps [OF assms(1-3)] show ?thesis unfolding ending_def by (rule agent_steps_append)
qed

lemma ended_run: "agent_run (ending err) (ended err agent_running)"
  using agent_steps_run [OF ended_steps run_start] by (simp add: agent_running_def)

theorem agent_shutdown_order_witness:
  "g_server_closed (ended None agent_running) \<and> g_channel_closed (ended None agent_running) \<and> g_pc (ended None agent_running) = Ended"
  using agent_shutdown_order [OF ended_run [of None]] by (simp add: ended_def)

text \<open>An agent that has passed \<open>ls\<close> from the standard input to the shell.\<close>

definition typed_ls :: agent_state where
  "typed_ls = agent_running\<lparr>g_in := [(FromStdin, ''ls'')]\<rparr>"

lemma typed_ls_run: "agent_run [StdinData ''ls'', Internal, WriteReturns] typed_ls"
proof -
  have "agent_run [StdinData ''ls''] (agent_running\<lparr>g_stdin := BeforeWrite ''ls''\<rparr>)"
    using run_step [OF run_start stdin_data] by (simp add: agent_running_def)
  from run_step [OF this stdin_call [of _ "''ls''"]]
  have "agent_run [StdinData ''ls'', Internal] (agent_running\<lparr>g_stdin := Writing ''ls''\<rparr>)"
    by (simp add: agent_running_def)
  from run_step [OF this stdin_wrote [of _ "''ls''"]] show ?thesis
    by (simp add: typed_ls_def agent_running_def)
qed

text \<open>A client whose data arrives just before the shell ends.\<close>

definition served_pwd :: agent_state where
  "served_pwd = agent_running\<lparr>g_in := [(FromClient, ''pwd'')]\<rparr>"

lemma served_pwd_run: "agent_run [Connect ''pwd'', Internal, Internal, WriteReturns] served_pwd"
proof -
  have "\<not> g_server_closed agent_running" by (simp add: agent_running_def)
  from master_handler_steps [OF run_start this, of "''pwd''"] obtain s' where
      "agent_run ([] @ [Connect ''pwd'', Internal, Internal, WriteReturns]) s'"
      "s' = agent_running\<lparr>g_in := g_in agent_running @ [(FromClient, ''pwd'')]\<rparr>" by blast
  then show ?thesis by (simp add: served_pwd_def agent_running_def)
qed

theorem agent_streams_witness:
  "mset (delivered (ended None served_pwd)) =
     mset (asked ([Connect ''pwd'', Internal, Internal, WriteReturns] @ ending None)) \<and>
   delivered (ended None served_pwd) = [''pwd'']"
proof -
  have "agent_steps served_pwd (ending None) (ended None served_pwd)"
    by (rule ended_steps) (simp_all add: served_pwd_def agent_running_def)
  from agent_streams [OF agent_steps_run [OF this served_pwd_run]] show ?thesis
    by (simp add: ended_def shut_down_def served_pwd_def delivered_def agent_running_def ending_def failed_def)
qed

theorem agent_terminates_witness:
  "agent_steps (ended None agent_running) [Internal] ((ended None agent_running)\<lparr>g_watcher := WatchEnded\<rparr>) \<and>
   length [Internal] \<le> 14"
proof -
  have "agent_steps (ended None agent_running) [Internal] ((ended None agent_running)\<lparr>g_watcher := WatchEnded\<rparr>)"
    by (rule more, rule watch_end) (simp_all add: ended_def shut_down_def agent_running_def none)
  with agent_terminates [OF ended_run this] show ?thesis by (simp add: ended_def shut_down_def)
qed

text \<open>An agent whose shell has ended while a read of the standard input is under way.\<close>

definition blocked :: agent_state where
  "blocked = (shut_down None agent_running)\<lparr>g_stdout := Finished, g_watcher := WatchEnded\<rparr>"

lemma blocked_run: "agent_run (ShellExit None # replicate 9 Internal) blocked"
proof -
  have down: "agent_run (ShellExit None # replicate 7 Internal) (shut_down None agent_running)"
    using agent_steps_run [OF shut_down_steps [OF running_fields] run_start] by simp
  have "agent_steps (shut_down None agent_running) [Internal, Internal] blocked"
    apply (rule more, rule stdout_call, simp add: shut_down_def agent_running_def)
    apply (rule more, rule watch_end, simp add: shut_down_def agent_running_def)
    apply (simp add: shut_down_def agent_running_def, simp add: shut_down_def agent_running_def)
    apply (simp add: blocked_def shut_down_def agent_running_def none)
    done
  from agent_steps_run [OF this down] show ?thesis by (simp add: numeral_eq_Suc)
qed

lemma blocked_stuck: "\<not> agent_step blocked Internal s"
  by (auto elim!: agent_step.cases simp: blocked_def shut_down_def agent_running_def)

theorem agent_waits_for_io_witness: "g_pc blocked = AwaitCopies \<and> g_server_closed blocked \<and> in_call (g_stdin blocked)"
proof -
  have "g_shell blocked \<noteq> None" "g_pc blocked \<noteq> Ended" "g_pc blocked \<noteq> AwaitServer" "\<not> in_call (g_stdout blocked)"
    by (simp_all add: blocked_def shut_down_def in_call_def)
  with agent_waits_for_io [OF blocked_run] blocked_stuck show ?thesis by blast
qed

text \<open>
  The server is closed before the master, so a handler in a write that does not return, because nobody reads the
  terminal any more, keeps the whole agent from ending.
\<close>

definition stuck :: agent_state where
  "stuck = agent_running\<lparr>g_stdout := Reading, g_handlers := [Sending ''ls''], g_shell := Some None, g_notify := False,
     g_channel_closed := True, g_server_closed := True, g_watcher := WatchEnded, g_pc := AwaitServer\<rparr>"

lemma stuck_run: "\<exists>es. agent_run es stuck"
proof -
  have "agent_steps agent_running
      ([Internal, Connect ''ls'', Internal, Internal, ShellExit None] @ replicate 5 Internal) stuck"
    apply (simp only: numeral_eq_Suc pred_numeral_simps replicate.simps BitM.simps One_nat_def append.simps)
    apply (rule more, rule stdout_call, simp add: agent_running_def, simp add: agent_running_def)
    apply (rule more, rule connect, simp)
    apply (rule more, rule handler_lock [of _ "[]" _ "[]"], simp, simp)
    apply (rule more, rule handler_call [of _ "[]" _ "[]"], simp, simp)
    apply (rule more, rule shell_exit, simp)
    apply (rule more, rule wait_shell, simp, simp)
    apply (rule more, rule stop_notify, simp)
    apply (rule more, rule close_channel, simp)
    apply (rule more, rule close_server, simp)
    apply (rule more, rule watch_end, simp, simp, simp)
    apply (rule none_eq, simp add: stuck_def agent_running_def)
    done
  from agent_steps_run [OF this run_start] show ?thesis by blast
qed

lemma stuck_waits: "\<not> agent_step stuck Internal s"
  by (auto elim!: agent_step.cases simp: stuck_def agent_running_def Cons_eq_append_conv)

text \<open>
  Output of the shell can be lost without any error: the master is closed without reading what the terminal still
  holds. Here the shell writes and ends, the standard input ends too, the agent ends, and nothing was shown.
\<close>
theorem agent_loses_output:
  "\<exists>es s. agent_run es s \<and> set es = {ShellOutput ''bye'', ShellExit None, StdinEnd, Internal} \<and>
     g_pc s = Ended \<and> written es = ''bye'' \<and> g_shown s = ''''"
proof -
  let ?said = "agent_running\<lparr>g_pty := ''bye''\<rparr>"
  have said: "agent_run [ShellOutput ''bye''] ?said"
    using run_step [OF run_start shell_output [of agent_running "''bye''"]] by (simp add: agent_running_def)
  have "agent_steps ?said (ending None) (ended None ?said)" by (rule ended_steps) (simp_all add: agent_running_def)
  from agent_steps_run [OF this said] show ?thesis
    by (intro exI conjI, assumption)
      (auto simp: ended_def shut_down_def agent_running_def ending_def written_def)
qed

end
