(* ===== verification/Agent_Spec.thy ===== *)
theory Agent_Spec
  imports Agent_Run_Spec Protocol_Spec
begin

text \<open>
  What the start of the agent promises: which descriptors and sockets each way to fail leaves behind, and which exit
  code the program has.
\<close>

section \<open>The name of the slave\<close>

lemma slaveName_loop_conv:
  "slaveName_loop before buf =
     (if CHR 0x00 \<in> set buf then before @ takeWhile (\<lambda>b. b \<noteq> CHR 0x00) buf else '''')"
  by (induction buf arbitrary: before) auto

section \<open>Descriptors and sockets\<close>

text \<open>
  The documented behaviour of the operating system: \<open>fds\<close> reads the open descriptors of terminals, \<open>socks\<close> and
  \<open>cmask\<close> are those of \<open>host_laws\<close>. Opening gives a new descriptor, closing takes it away, and nothing else does.
\<close>

definition fd_laws :: "'w os \<Rightarrow> 'w agent_os \<Rightarrow> ('w \<Rightarrow> nat set) \<Rightarrow> bool" where
  "fd_laws os ao fds \<longleftrightarrow>
     (\<forall>p w. case ag_OpenFile ao p w of
        (Inl e, w') \<Rightarrow> fds w' = fds w
      | (Inr fd, w') \<Rightarrow> fd \<notin> fds w \<and> fds w' = insert fd (fds w)) \<and>
     (\<forall>fd w. fds (ag_Close ao fd w) = fds w - {fd}) \<and>
     (\<forall>fd r b w. fds (snd (ag_ioctl ao fd r b w)) = fds w) \<and>
     (\<forall>c fd w. fds (snd (ag_Start ao c fd w)) = fds w) \<and>
     (\<forall>w. fds (ag_Kill ao w) = fds w) \<and> (\<forall>w. fds (snd (ag_Wait ao w)) = fds w) \<and>
     (\<forall>p w. fds (snd (os_Stat os p w)) = fds w) \<and> (\<forall>p t w. fds (snd (os_Dial os p t w)) = fds w) \<and>
     (\<forall>w. fds (os_CloseConn os w) = fds w) \<and> (\<forall>p w. fds (snd (os_Remove os p w)) = fds w) \<and>
     (\<forall>p m w. fds (snd (os_MkdirAll os p m w)) = fds w) \<and> (\<forall>m w. fds (snd (os_Umask os m w)) = fds w) \<and>
     (\<forall>p w. fds (snd (os_Listen os p w)) = fds w)"

lemma fd_lawsD:
  assumes "fd_laws os ao fds"
  shows fd_OpenFile: "ag_OpenFile ao p w = (r, w') \<Longrightarrow>
      (case r of Inl e \<Rightarrow> fds w' = fds w | Inr fd \<Rightarrow> fd \<notin> fds w \<and> fds w' = insert fd (fds w))"
    and fd_Close: "fds (ag_Close ao fd w) = fds w - {fd}"
    and fd_ioctl: "ag_ioctl ao fd q b w = (r2, w') \<Longrightarrow> fds w' = fds w"
    and fd_Start: "ag_Start ao c fd w = (r3, w') \<Longrightarrow> fds w' = fds w"
    and fd_Kill: "fds (ag_Kill ao w) = fds w"
    and fd_Wait: "fds (snd (ag_Wait ao w)) = fds w"
proof -
  have "case ag_OpenFile ao p w of (Inl e, w') \<Rightarrow> fds w' = fds w
      | (Inr fd, w') \<Rightarrow> fd \<notin> fds w \<and> fds w' = insert fd (fds w)"
    by (rule assms [unfolded fd_laws_def, THEN conjunct1, THEN spec [of _ p], THEN spec [of _ w]])
  then show "ag_OpenFile ao p w = (r, w') \<Longrightarrow>
      (case r of Inl e \<Rightarrow> fds w' = fds w | Inr fd \<Rightarrow> fd \<notin> fds w \<and> fds w' = insert fd (fds w))"
    by (auto split: sum.splits)
  show "fds (ag_Close ao fd w) = fds w - {fd}" "fds (ag_Kill ao w) = fds w" "fds (snd (ag_Wait ao w)) = fds w"
    using assms by (auto simp: fd_laws_def)
  show "ag_ioctl ao fd q b w = (r2, w') \<Longrightarrow> fds w' = fds w" "ag_Start ao c fd w = (r3, w') \<Longrightarrow> fds w' = fds w"
    using assms unfolding fd_laws_def by (metis snd_conv)+
qed

text \<open>A way to open terminals that loses no descriptor.\<close>

definition opener_ok :: "('w \<Rightarrow> nat set) \<Rightarrow> 'w opener \<Rightarrow> bool" where
  "opener_ok fds opener \<longleftrightarrow>
     (\<forall>w. case opener w of
        (Inl e, w') \<Rightarrow> fds w' = fds w
      | (Inr pty, w') \<Rightarrow> Master pty \<noteq> Slave pty \<and> Master pty \<notin> fds w \<and> Slave pty \<notin> fds w \<and>
          fds w' = insert (Master pty) (insert (Slave pty) (fds w)))"

text \<open>
  C10: Opening a terminal pair either succeeds with two new and different descriptors, or fails and leaves open
  exactly the descriptors that were open before, at whichever of its five steps it failed.
\<close>
theorem Open_descriptors:
  assumes "fd_laws os ao fds"
  shows "opener_ok fds (DefaultPTYOpener_Open ao)"
  unfolding opener_ok_def
proof
  fix w
  obtain r1 w1 where o1: "ag_OpenFile ao ''/dev/ptmx'' w = (r1, w1)" by (metis prod.exhaust)
  note l1 = fd_OpenFile [OF assms o1]
  show "case DefaultPTYOpener_Open ao w of
      (Inl e, w') \<Rightarrow> fds w' = fds w
    | (Inr pty, w') \<Rightarrow> Master pty \<noteq> Slave pty \<and> Master pty \<notin> fds w \<and> Slave pty \<notin> fds w \<and>
        fds w' = insert (Master pty) (insert (Slave pty) (fds w))"
  proof (cases r1)
    case (Inl e)
    with o1 l1 show ?thesis by (simp add: DefaultPTYOpener_Open_def)
  next
    case (Inr m)
    obtain e2 b2 w2 where i2: "ag_ioctl ao m TIOCPTYGRANT '''' w1 = ((e2, b2), w2)" by (metis prod.exhaust)
    obtain e3 b3 w3 where i3: "ag_ioctl ao m TIOCPTYUNLK '''' w2 = ((e3, b3), w3)" by (metis prod.exhaust)
    obtain e4 b4 w4 where i4: "ag_ioctl ao m TIOCPTYGNAME (replicate 128 (CHR 0x00)) w3 = ((e4, b4), w4)"
      by (metis prod.exhaust)
    obtain r5 w5 where o5: "ag_OpenFile ao (slaveName_loop '''' b4) w4 = (r5, w5)" by (metis prod.exhaust)
    have m: "m \<notin> fds w" "fds w1 = insert m (fds w)" "fds w2 = fds w1" "fds w3 = fds w1" "fds w4 = fds w1"
      using l1 Inr fd_ioctl [OF assms i2] fd_ioctl [OF assms i3] fd_ioctl [OF assms i4] by simp_all
    note close = fd_Close [OF assms, of m]
    have "insert m (fds w) - {m} = fds w" using m(1) by simp
    with m close fd_OpenFile [OF assms o5] show ?thesis
      by (cases e2; cases e3; cases e4; cases r5)
        (auto simp: DefaultPTYOpener_Open_def o1 Inr i2 i3 i4 o5 Let_def)
  qed
qed

section \<open>What a start leaves behind\<close>

lemma CleanStaleSocket_fds:
  assumes "fd_laws os ao fds" "CleanStaleSocket os p w = (err, w')"
  shows "fds w' = fds w"
proof -
  obtain e1 w1 where stat: "os_Stat os p w = (e1, w1)" by (cases "os_Stat os p w")
  obtain e2 w2 where dial: "os_Dial os p staleDialTimeout w1 = (e2, w2)"
    by (cases "os_Dial os p staleDialTimeout w1")
  obtain e3 w3 where remove: "os_Remove os p w2 = (e3, w3)" by (cases "os_Remove os p w2")
  have "fds w1 = fds w" "fds w2 = fds w1" "fds w3 = fds w2" "fds (os_CloseConn os w2) = fds w2"
    using assms(1) stat dial remove unfolding fd_laws_def by (metis snd_conv)+
  with assms(2) show ?thesis
    by (auto simp: CleanStaleSocket_def stat dial remove split: option.splits if_splits)
qed

lemma ListenAndServe_fds:
  assumes "fd_laws os ao fds" "ListenAndServe os p w = (err, w')"
  shows "fds w' = fds w"
proof -
  obtain e1 w1 where mkdir: "os_MkdirAll os (Dir p) 448 w = (e1, w1)" by (cases "os_MkdirAll os (Dir p) 448 w")
  obtain old w2 where umask: "os_Umask os 63 w1 = (old, w2)" by (cases "os_Umask os 63 w1")
  obtain e3 w3 where listen: "os_Listen os p w2 = (e3, w3)" by (cases "os_Listen os p w2")
  obtain o4 w4 where umask2: "os_Umask os old w3 = (o4, w4)" by (cases "os_Umask os old w3")
  have "fds w1 = fds w" "fds w2 = fds w1" "fds w3 = fds w2" "fds w4 = fds w3"
    using assms(1) mkdir umask listen umask2 unfolding fd_laws_def by (metis snd_conv)+
  with assms(2) show ?thesis
    by (auto simp: ListenAndServe_def mkdir umask listen umask2 split: option.splits)
qed

lemma syncWindowSize_fds: "fd_laws os ao fds \<Longrightarrow> fds (syncWindowSize ao f t w) = fds w"
  by (auto simp: syncWindowSize_def split: option.splits prod.splits) (metis fd_ioctl prod.exhaust snd_conv)+

text \<open>The ways a start can end, with the worlds between its parts.\<close>

lemma agent_start_cases:
  assumes "agent_start os ao a w = (r, w')"
  obtains (invalid) e where "validateConfig (a_socketPath a) (a_paneID a) = Some e" "r = Inl e" "w' = w"
  | (socket) e where "validateConfig (a_socketPath a) (a_paneID a) = None"
      "CleanStaleSocket os (a_socketPath a) w = (Some e, w')" "r = Inl e"
  | (terminal) e w1 where "validateConfig (a_socketPath a) (a_paneID a) = None"
      "CleanStaleSocket os (a_socketPath a) w = (None, w1)"
      "a_ptyOpener a w1 = (Inl e, w')" "r = Inl (Wrapf ''pty open: '' e '''')"
  | (shell) e pty w1 w2 where "validateConfig (a_socketPath a) (a_paneID a) = None"
      "CleanStaleSocket os (a_socketPath a) w = (None, w1)" "a_ptyOpener a w1 = (Inr pty, w2)"
      "ag_Start ao (a_shellCmd a) (Slave pty) (syncWindowSize ao (Some 0) (Some (Master pty)) w2) = (Some e, w')"
      "r = Inl (Wrapf ''shell start: '' e '''')"
  | (listen) e pty w1 w2 w4 w5 where "validateConfig (a_socketPath a) (a_paneID a) = None"
      "CleanStaleSocket os (a_socketPath a) w = (None, w1)" "a_ptyOpener a w1 = (Inr pty, w2)"
      "ag_Start ao (a_shellCmd a) (Slave pty) (syncWindowSize ao (Some 0) (Some (Master pty)) w2) = (None, w4)"
      "ListenAndServe os (a_socketPath a) (ag_Close ao (Slave pty) w4) = (Some e, w5)"
      "r = Inl (Wrapf ''listen: '' e '''')" "w' = snd (ag_Wait ao (ag_Kill ao w5))"
  | (started) pty w1 w2 w4 where "validateConfig (a_socketPath a) (a_paneID a) = None"
      "CleanStaleSocket os (a_socketPath a) w = (None, w1)" "a_ptyOpener a w1 = (Inr pty, w2)"
      "ag_Start ao (a_shellCmd a) (Slave pty) (syncWindowSize ao (Some 0) (Some (Master pty)) w2) = (None, w4)"
      "ListenAndServe os (a_socketPath a) (ag_Close ao (Slave pty) w4) = (None, w')" "r = Inr pty"
  using assms unfolding agent_start_def
  by (auto simp: Let_def split: option.splits prod.splits sum.splits)

text \<open>The operations on terminals and on the shell leave the sockets alone.\<close>

definition sockets_kept :: "'w agent_os \<Rightarrow> 'w opener \<Rightarrow> ('w \<Rightarrow> 's) \<Rightarrow> bool" where
  "sockets_kept ao opener socks \<longleftrightarrow>
     (\<forall>w. socks (snd (opener w)) = socks w) \<and> (\<forall>fd w. socks (ag_Close ao fd w) = socks w) \<and>
     (\<forall>fd r b w. socks (snd (ag_ioctl ao fd r b w)) = socks w) \<and>
     (\<forall>c fd w. socks (snd (ag_Start ao c fd w)) = socks w) \<and>
     (\<forall>w. socks (ag_Kill ao w) = socks w) \<and> (\<forall>w. socks (snd (ag_Wait ao w)) = socks w)"

lemma sockets_keptD:
  assumes "sockets_kept ao opener socks"
  shows "opener w = (r, w') \<Longrightarrow> socks w' = socks w" "ag_Start ao c fd w = (e, w') \<Longrightarrow> socks w' = socks w"
    "socks (syncWindowSize ao f t w) = socks w" "socks (ag_Close ao fd w) = socks w"
    "socks (snd (ag_Wait ao (ag_Kill ao w))) = socks w"
  using assms unfolding sockets_kept_def syncWindowSize_def
  by (auto split: option.splits prod.splits) (metis snd_conv)+

text \<open>Terminals that a failed start leaves open, by its error.\<close>

definition leaked_by :: "go_error \<Rightarrow> nat" where
  "leaked_by e =
     (case e of
        Wrapf p e' q \<Rightarrow> if p = ''shell start: '' then 2 else if p = ''listen: '' then 1 else 0
      | _ \<Rightarrow> 0)"

lemma leaked_by_simps:
  "leaked_by (Wrapf ''pty open: '' e q) = 0" "leaked_by (Wrapf ''shell start: '' e q) = 2"
  "leaked_by (Wrapf ''listen: '' e q) = 1" "leaked_by (Wrapf ''remove stale socket: '' e q) = 0"
  "leaked_by ErrSocketInUse = 0" "leaked_by (Errorf m) = 0"
  by (simp_all add: leaked_by_def)

definition leaks :: "nat set \<Rightarrow> nat set \<Rightarrow> nat \<Rightarrow> bool" where
  "leaks before after n \<longleftrightarrow> (\<exists>leaked. after = before \<union> leaked \<and> leaked \<inter> before = {} \<and> card leaked = n)"

lemma leaksI: "after = before \<union> leaked \<Longrightarrow> leaked \<inter> before = {} \<Longrightarrow> card leaked = n \<Longrightarrow> leaks before after n"
  unfolding leaks_def by blast

lemma leaks_none: "after = before \<Longrightarrow> n = 0 \<Longrightarrow> leaks before after n"
  by (rule leaksI [of _ _ "{}"]) simp_all

lemma CleanStaleSocket_leaks: "CleanStaleSocket os p w = (Some e, w') \<Longrightarrow> leaked_by e = 0"
  by (auto simp: CleanStaleSocket_def leaked_by_simps Let_def split: option.splits prod.splits if_splits)

lemma opener_okD:
  assumes "opener_ok fds opener"
  shows "opener w = (Inl e, w') \<Longrightarrow> fds w' = fds w"
    and "opener w = (Inr pty, w') \<Longrightarrow> Master pty \<noteq> Slave pty \<and> Master pty \<notin> fds w \<and> Slave pty \<notin> fds w \<and>
      fds w' = insert (Master pty) (insert (Slave pty) (fds w))"
  using assms [unfolded opener_ok_def, THEN spec, of w] by simp_all

lemma agent_start_fds:
  assumes "fd_laws os ao fds" "opener_ok fds (a_ptyOpener a)" "agent_start os ao a w = (r, w')"
  shows "case r of
      Inr pty \<Rightarrow> Master pty \<notin> fds w \<and> fds w' = insert (Master pty) (fds w)
    | Inl e \<Rightarrow> leaks (fds w) (fds w') (leaked_by e)"
proof -
  note clean = CleanStaleSocket_fds [OF assms(1)] and serve = ListenAndServe_fds [OF assms(1)]
  note opener = opener_okD [OF assms(2)] and sync = syncWindowSize_fds [OF assms(1)]
  have minus: "insert m (insert s X) - {s} = insert m X" if "m \<noteq> s" "s \<notin> X" for m s :: nat and X
    using that by auto
  from assms(3) show ?thesis
  proof (cases rule: agent_start_cases)
    case (invalid e)
    then have "leaked_by e = 0" by (auto simp: validateConfig_def leaked_by_simps split: if_splits)
    with invalid show ?thesis by (simp add: leaks_none)
  next
    case (socket e)
    then show ?thesis by (simp add: leaks_none clean [OF socket(2)] CleanStaleSocket_leaks [OF socket(2)])
  next
    case (terminal e w1)
    then show ?thesis by (simp add: leaks_none leaked_by_simps opener(1) [OF terminal(3)] clean [OF terminal(2)])
  next
    case (shell e pty w1 w2)
    have "fds w' = fds w2" using fd_Start [OF assms(1) shell(4)] by (simp add: sync)
    with opener(2) [OF shell(3)] clean [OF shell(2)] have "leaks (fds w) (fds w') 2"
      by (intro leaksI [of _ _ "{Master pty, Slave pty}"]) simp_all
    with shell(5) show ?thesis by (simp add: leaked_by_simps)
  next
    case (listen e pty w1 w2 w4 w5)
    have "fds w4 = fds w2" using fd_Start [OF assms(1) listen(4)] by (simp add: sync)
    moreover have "fds w' = fds w4 - {Slave pty}"
      using serve [OF listen(5)] listen(7) fd_Kill [OF assms(1)] fd_Wait [OF assms(1)] fd_Close [OF assms(1)] by simp
    ultimately have "leaks (fds w) (fds w') 1"
      using opener(2) [OF listen(3)] clean [OF listen(2)]
      by (intro leaksI [of _ _ "{Master pty}"]) (simp_all add: minus)
    with listen(6) show ?thesis by (simp add: leaked_by_simps)
  next
    case (started pty w1 w2 w4)
    have "fds w4 = fds w2" using fd_Start [OF assms(1) started(4)] by (simp add: sync)
    moreover have "fds w' = fds w4 - {Slave pty}"
      using serve [OF started(5)] fd_Close [OF assms(1)] by simp
    ultimately show ?thesis
      using opener(2) [OF started(3)] clean [OF started(2)] started(6) by (simp add: minus)
  qed
qed

text \<open>
  What a start may do to the sockets: nothing, take the one of the path away after a dial that has failed, or put a
  new one there.
\<close>

definition socket_outcome ::
    "'w os \<Rightarrow> ('w \<Rightarrow> string \<Rightarrow> sock option) \<Rightarrow> 'w Agent \<Rightarrow> 'w \<Rightarrow> PTYPair result \<Rightarrow> 'w \<Rightarrow> bool" where
  "socket_outcome os socks a w r w' \<longleftrightarrow>
     (let p = a_socketPath a in
      (\<forall>q. q \<noteq> p \<longrightarrow> socks w' q = socks w q) \<and>
      (case r of
         Inr pty \<Rightarrow> socks w' p = Some (Live 448)
       | Inl e \<Rightarrow> socks w' p = socks w p \<or> socks w' p = None) \<and>
      (socks w' p \<noteq> socks w p \<and> socks w p \<noteq> None \<longrightarrow> stale_dial os p w \<noteq> None) \<and>
      (r = Inl ErrSocketInUse \<longrightarrow> socks w' = socks w \<and> stale_dial os p w = None \<and> (\<exists>m. socks w p = Some (Live m))) \<and>
      (a_socketPath a \<noteq> '''' \<and> a_paneID a \<noteq> '''' \<and> socks w p \<noteq> None \<and> stale_dial os p w = None \<longrightarrow>
         r = Inl ErrSocketInUse))"

lemma agent_start_socks:
  assumes "host_laws os socks cmask" "sockets_kept ao (a_ptyOpener a) socks" "agent_start os ao a w = (r, w')"
  shows "socket_outcome os socks a w r w'"
proof -
  let ?p = "a_socketPath a"
  note clean = CleanStaleSocket_view [OF assms(1)] and serve = ListenAndServe_view [OF assms(1)]
  note kept = sockets_keptD [OF assms(2)]
  have later: ?thesis if "CleanStaleSocket os ?p w = (None, w1)" "socks w' = socks w1" "r = Inl (Wrapf x e y)" for w1 x e y
    using clean [OF that(1)] that(2,3) by (auto simp: socket_outcome_def Let_def)
  from assms(3) show ?thesis
  proof (cases rule: agent_start_cases)
    case (invalid e)
    then show ?thesis by (auto simp: validateConfig_def socket_outcome_def Let_def split: if_splits)
  next
    case (socket e)
    with clean [OF socket(2)] show ?thesis by (auto simp: socket_outcome_def Let_def)
  next
    case (terminal e w1)
    show ?thesis by (rule later [OF terminal(2) kept(1) [OF terminal(3)] terminal(4)])
  next
    case (shell e pty w1 w2)
    have "socks w' = socks w1" using kept(2) [OF shell(4)] kept(3) kept(1) [OF shell(3)] by simp
    then show ?thesis by (rule later [OF shell(2) _ shell(5)])
  next
    case (listen e pty w1 w2 w4 w5)
    have "socks w4 = socks w1" using kept(2) [OF listen(4)] kept(3) kept(1) [OF listen(3)] by simp
    moreover have "socks w' = socks w4" using kept(4,5) listen(7) serve [OF listen(5)] by simp
    ultimately show ?thesis by (intro later [OF listen(2) _ listen(6)]) simp
  next
    case (started pty w1 w2 w4)
    have "socks w4 = socks w1" using kept(2) [OF started(4)] kept(3) kept(1) [OF started(3)] by simp
    moreover have "socks w' = (socks w4)(?p := Some (Live 448))" using kept(4) serve [OF started(5)] by simp
    ultimately show ?thesis using clean [OF started(2)] started(6) by (auto simp: socket_outcome_def Let_def)
  qed
qed

text \<open>
  C9: What a start leaves behind, as long as no other process acts on the socket path. When it succeeds, the master
  is the one terminal descriptor that is open in addition, and the agent listens on its path with mode 0700. When it
  fails there is no new socket. No other path is touched, and a socket of the path goes away only after a dial that
  has failed: when the dial has reached a process that listens, the start fails with \<open>ErrSocketInUse\<close> and the socket
  is kept. But the descriptors of the terminal are closed only if the terminal could not be opened: a shell that
  does not start leaves two of them open, and a server that does not start leaves one.
\<close>
theorem agent_start_leaves:
  assumes "fd_laws os ao fds" "opener_ok fds (a_ptyOpener a)"
    and "host_laws os socks cmask" "sockets_kept ao (a_ptyOpener a) socks"
    and "agent_start os ao a w = (r, w')"
  shows "socket_outcome os socks a w r w' \<and>
    (case r of
       Inr pty \<Rightarrow> Master pty \<notin> fds w \<and> fds w' = insert (Master pty) (fds w)
     | Inl e \<Rightarrow> leaks (fds w) (fds w') (leaked_by e))"
  using agent_start_fds [OF assms(1,2,5)] agent_start_socks [OF assms(3,4,5)] by blast

section \<open>The exit code\<close>

lemma agent_start_no_exit:
  assumes "agent_start os ao a w = (Inl e, w')"
  shows "agent_exit (Some e) = (1, ''shimux-agent: '' @ error_string e @ [CHR 0x0A])"
  using assms
proof (cases rule: agent_start_cases)
  case (socket e')
  then show ?thesis
    by (auto simp: CleanStaleSocket_def agent_exit_def Let_def split: option.splits prod.splits if_splits)
next
  case (invalid e')
  then have "\<exists>m. e' = Errorf m" by (auto simp: validateConfig_def split: if_splits)
  with invalid show ?thesis by (auto simp: agent_exit_def)
qed (auto simp: agent_exit_def)

text \<open>
  C32: The exit code of the agent. Without its two variables it fails with a message and starts nothing. A start
  that fails ends with 1 and the error as message. Otherwise the agent has run to its end, in which the shell has
  ended once, and the exit code is that of the shell: 0 when it has succeeded, its own exit code when it has failed,
  in both cases without a message; only a wait for the shell that fails for another reason ends with 1 and a message.
\<close>
theorem runWithIO_exit:
  assumes "runWithIO os ao env w es (code, msg)"
  shows "if env ''SHIMUX_PANE_ID'' = '''' \<or> env ''SHIMUX_SESSION'' = ''''
    then es = [] \<and> code = 1 \<and> prefix ''shimux-agent: SHIMUX_'' msg
    else case fst (agent_start os ao (agent_of ao env) w) of
        Inl e \<Rightarrow> es = [] \<and> code = 1 \<and> msg = ''shimux-agent: '' @ error_string e @ [CHR 0x0A]
      | Inr pty \<Rightarrow> (\<exists>err. shell_exits es = [err] \<and>
          (case err of
             None \<Rightarrow> code = 0 \<and> msg = ''''
           | Some (ExitError c m) \<Rightarrow> code = c \<and> msg = ''''
           | Some e \<Rightarrow> code = 1 \<and> msg = ''shimux-agent: '' @ error_string e @ [CHR 0x0A]))"
  using assms
proof (cases rule: runWithIO.cases)
  case (ran err)
  from ran(4) show ?thesis
  proof (cases rule: agent_Run.cases)
    case (run_failed e w')
    with agent_start_no_exit [OF run_failed(3)] ran(1-3) show ?thesis by auto
  next
    case (run_ended pty w' s)
    have "shell_exits es = [err]" using agent_shell [OF run_ended(2)] run_ended(4) by simp
    moreover have "case err of
          None \<Rightarrow> code = 0 \<and> msg = ''''
        | Some (ExitError c m) \<Rightarrow> code = c \<and> msg = ''''
        | Some e \<Rightarrow> code = 1 \<and> msg = ''shimux-agent: '' @ error_string e @ [CHR 0x0A]"
      using ran(1) by (auto simp: agent_exit_def split: option.splits go_error.splits)
    ultimately show ?thesis using ran(2,3) run_ended(1) by auto
  qed
qed (auto simp: not_set_def)

section \<open>A reference system\<close>

text \<open>Sockets on the left, the list of open terminals on the right.\<close>

definition lift_os :: "'a os \<Rightarrow> ('a \<times> 'b) os" where
  "lift_os o1 =
     \<lparr>os_Stat = (\<lambda>p w. apsnd (\<lambda>v. (v, snd w)) (os_Stat o1 p (fst w))),
      os_Remove = (\<lambda>p w. apsnd (\<lambda>v. (v, snd w)) (os_Remove o1 p (fst w))),
      os_MkdirAll = (\<lambda>p m w. apsnd (\<lambda>v. (v, snd w)) (os_MkdirAll o1 p m (fst w))),
      os_Umask = (\<lambda>m w. apsnd (\<lambda>v. (v, snd w)) (os_Umask o1 m (fst w))),
      os_Listen = (\<lambda>p w. apsnd (\<lambda>v. (v, snd w)) (os_Listen o1 p (fst w))),
      os_Dial = (\<lambda>p t w. apsnd (\<lambda>v. (v, snd w)) (os_Dial o1 p t (fst w))),
      os_SetDeadline = (\<lambda>t w. (os_SetDeadline o1 t (fst w), snd w)),
      os_Write = (\<lambda>d w. apsnd (\<lambda>v. (v, snd w)) (os_Write o1 d (fst w))),
      os_CloseWrite = (\<lambda>w. (os_CloseWrite o1 (fst w), snd w)),
      os_ReadAll = (\<lambda>w. apsnd (\<lambda>v. (v, snd w)) (os_ReadAll o1 (fst w))),
      os_CloseConn = (\<lambda>w. (os_CloseConn o1 (fst w), snd w)),
      os_Sleep = (\<lambda>t w. (os_Sleep o1 t (fst w), snd w))\<rparr>"

lemma lift_host_laws: "host_laws o1 socks cmask \<Longrightarrow> host_laws (lift_os o1) (\<lambda>w. socks (fst w)) (\<lambda>w. cmask (fst w))"
  unfolding host_laws_def lift_os_def by (simp add: apsnd_def map_prod_def split_beta)

definition ref_terminals :: "(host \<times> nat list) agent_os" where
  "ref_terminals =
     \<lparr>ag_OpenFile = (\<lambda>p w. let fd = Suc (sum_list (snd w)) in (Inr fd, (fst w, fd # snd w))),
      ag_ioctl = (\<lambda>fd r b w. ((None, if r = TIOCPTYGNAME then ''/dev/ttys1'' @ [CHR 0x00] else b), w)),
      ag_Close = (\<lambda>fd w. (fst w, filter (\<lambda>x. x \<noteq> fd) (snd w))),
      ag_Start = (\<lambda>c fd w. (if c = ''/bin/sh'' then None else Some (OsError ENOENT ''no such file''), w)),
      ag_Kill = (\<lambda>w. w),
      ag_Wait = (\<lambda>w. (Some (ExitError (-1) ''signal: killed''), w))\<rparr>"

lemma ref_terminal_laws: "fd_laws (lift_os ref_host) ref_terminals (\<lambda>w. set (snd w))"
proof -
  have "Suc (sum_list l) \<notin> set l" for l :: "nat list" using member_le_sum_list [of _ l] by fastforce
  then show ?thesis by (auto simp: fd_laws_def ref_terminals_def lift_os_def Let_def apsnd_def map_prod_def split_beta)
qed

theorem Open_descriptors_witness: "opener_ok (\<lambda>w. set (snd w)) (DefaultPTYOpener_Open ref_terminals)"
  by (rule Open_descriptors [OF ref_terminal_laws])

lemma ref_opener: "opener_ok (\<lambda>w. set (snd w)) (\<lambda>w. (Inr \<lparr>Master = Suc (sum_list (snd w)), Slave = Suc (Suc (sum_list (snd w)))\<rparr>,
    (fst w, [Suc (sum_list (snd w)), Suc (Suc (sum_list (snd w)))] @ snd w)))"
proof -
  have "Suc (sum_list l) \<notin> set l \<and> Suc (Suc (sum_list l)) \<notin> set l" for l :: "nat list"
    using member_le_sum_list [of _ l] by fastforce
  then show ?thesis by (simp add: opener_ok_def)
qed

definition missing_shell :: "(host \<times> nat list) Agent" where
  "missing_shell = \<lparr>a_ptyOpener = (\<lambda>w. (Inr \<lparr>Master = Suc (sum_list (snd w)), Slave = Suc (Suc (sum_list (snd w)))\<rparr>,
     (fst w, [Suc (sum_list (snd w)), Suc (Suc (sum_list (snd w)))] @ snd w))), a_socketPath = ''/s'', a_paneID = ''0'',
     a_shellCmd = ''/missing''\<rparr>"

lemma ref_sockets_kept: "sockets_kept ref_terminals (a_ptyOpener missing_shell) (\<lambda>w. fst (fst w))"
  by (simp add: sockets_kept_def ref_terminals_def missing_shell_def Let_def)

text \<open>A shell that does not exist: both terminals stay open.\<close>

theorem agent_start_leaves_witness:
  "\<exists>e w'. agent_start (lift_os ref_host) ref_terminals missing_shell (((\<lambda>p. None), 18), []) =
     (Inl (Wrapf ''shell start: '' e ''''), w') \<and> leaks {} (set (snd w')) 2"
proof -
  let ?w = "(((\<lambda>p. None), 18), []) :: host \<times> nat list"
  obtain r w' where s: "agent_start (lift_os ref_host) ref_terminals missing_shell ?w = (r, w')"
    by (cases "agent_start (lift_os ref_host) ref_terminals missing_shell ?w")
  have "r = Inl (Wrapf ''shell start: '' (OsError ENOENT ''no such file'') '''')"
    using s by (simp add: agent_start_def validateConfig_def missing_shell_def CleanStaleSocket_def lift_os_def
        ref_host_def ref_terminals_def Let_def)
  moreover have "opener_ok (\<lambda>w. set (snd w)) (a_ptyOpener missing_shell)"
    using ref_opener by (simp add: missing_shell_def)
  ultimately show ?thesis
    using agent_start_leaves [OF ref_terminal_laws _ lift_host_laws [OF ref_host_laws] ref_sockets_kept s] s
    by (simp add: leaked_by_simps)
qed

text \<open>An agent whose shell ends with 3.\<close>

definition agent_env :: environ where
  "agent_env k = (if k = ''SHIMUX_SESSION'' then ''work'' else if k = ''SHIMUX_PANE_ID'' then ''1'' else '''')"

lemma agent_starts: "\<exists>pty w'. agent_start (lift_os ref_host) ref_terminals (agent_of ref_terminals agent_env)
    (((\<lambda>p. None), 18), []) = (Inr pty, w')"
proof -
  have "SafeSocketPath (TempDir agent_env) ''work'' ''1'' \<noteq> ''''"
    using SafeSocketPath_abs [OF tmp_plain, of "''work''" "''1''"]
    by (simp add: TempDir_def agent_env_def proper_elem_def session_elem_def)
  then show ?thesis
    by (simp add: agent_start_def validateConfig_def agent_of_def agent_New_def agent_env_def CleanStaleSocket_def lift_os_def
        ref_host_def ref_terminals_def DefaultPTYOpener_Open_def slaveName_loop_conv syncWindowSize_def getDefaultShell_def
        ListenAndServe_def Let_def)
qed

theorem runWithIO_exit_witness:
  "\<exists>code msg. runWithIO (lift_os ref_host) ref_terminals agent_env (((\<lambda>p. None), 18), [])
     (ending (Some (ExitError 3 ''exit status 3''))) (code, msg) \<and> code = 3 \<and> msg = ''''"
proof -
  let ?err = "Some (ExitError 3 ''exit status 3'')"
  obtain pty w' where started: "agent_start (lift_os ref_host) ref_terminals (agent_of ref_terminals agent_env)
    (((\<lambda>p. None), 18), []) = (Inr pty, w')" using agent_starts by blast
  have "agent_Run (lift_os ref_host) ref_terminals (agent_of ref_terminals agent_env) (((\<lambda>p. None), 18), []) (ending ?err) ?err"
    by (rule run_ended [OF started ended_run]) (simp_all add: ended_def shut_down_def)
  then have "runWithIO (lift_os ref_host) ref_terminals agent_env (((\<lambda>p. None), 18), []) (ending ?err) (agent_exit ?err)"
    by (intro ran) (simp_all add: agent_env_def)
  then obtain code msg where r: "runWithIO (lift_os ref_host) ref_terminals agent_env (((\<lambda>p. None), 18), []) (ending ?err) (code, msg)"
    by (metis prod.exhaust)
  from runWithIO_exit [OF r] started r show ?thesis
    by (auto simp: agent_env_def ending_def shell_exits_def)
qed

end
