(* ===== verification/Spec2Isabelle.thy ===== *)
theory Spec2Isabelle
  imports Parser_Spec Commands_Spec Server Pane_Store_Spec Main_Shimux_Spec Agent_Spec
begin

text \<open>
  A verification of shimux, the Go program under \<open>src/poc/poc001-go\<close>. The program pretends to be \<open>tmux\<close> inside the
  terminal ghostty. As \<open>shimux -- command\<close> it starts a command with an environment in which \<open>tmux\<close> is the program
  itself. As \<open>tmux\<close> it parses and executes one tmux command: it splits and closes surfaces of the terminal by key
  strokes, keeps a table of panes, and sends keys to the agent of a pane over a Unix socket. As \<open>shimux-agent\<close> it
  runs the shell of one pane behind a pseudo terminal and serves that socket.

  \<^bold>\<open>Foundations.\<close> \<open>Prelude\<close>: a Go string is a list of bytes, \<open>int\<close> a 64-bit word, an error a value of \<open>go_error\<close>, a
  fallible call a sum; \<open>strconv.Itoa\<close> and the searching functions of \<open>strings\<close>. \<open>Path\<close>: \<open>filepath\<close> on Unix. \<open>Utf8\<close>:
  decoding and encoding of runes. \<open>Sha256\<close>. \<open>Json\<close>, \<open>Json_Codec\<close>, \<open>Json_Indent\<close>: the scanner of \<open>encoding/json\<close>
  as a pushdown automaton, its string escaping, indented output, and the proofs that reading undoes writing.
  Services of the operating system are records of functions on a world \<open>'w\<close> that is passed along; what a theorem
  needs of them is a named predicate of documented behaviour (\<open>host_laws\<close>, \<open>tmp_laws\<close>, \<open>store_laws\<close>, \<open>fd_laws\<close>,
  \<open>sockets_kept\<close>), and each has a reference instance that the witnesses use. They leave every failure open that the
  documentation does: a dial may fail for any reason while a process listens, a removal may fail and keep what it was
  to remove, a command may do anything to the file system.

  \<^bold>\<open>Parsing\<close> (\<open>internal/tmux/parser.go\<close>): \<open>Option_Loop\<close> states the loop over options as an interface, with a
  declarative reading of option lists; \<open>Parser\<close> has the ten parsers and shows that each is such a loop; \<open>Parser_Spec\<close>
  has what they accept, the round trip of \<open>Parse\<close>, and the equivalence with the declarative reading.
  \<^bold>\<open>Formats\<close> (\<open>format.go\<close>): \<open>Format\<close>. \<^bold>\<open>Keys\<close> (\<open>keys.go\<close>): \<open>Keys\<close> has the tables and the expansion, \<open>Keys_Spec\<close>
  the xterm rule and the injectivity of modified keys.

  \<^bold>\<open>Panes\<close> (\<open>internal/pane/manager.go\<close>): \<open>Pane\<close> has the manager and its operations and the interface
  \<open>pane_registry\<close> that its clients use; \<open>Pane_Spec\<close> the representation invariant and the interpretation. \<open>Pane_Store\<close>
  has \<open>Save\<close> and \<open>Load\<close> with the text of the state file; \<open>Pane_Store_Spec\<close> that saving is atomic, that loading undoes
  it, what holds after loading any file at all, and the identifiers handed out over
  any sequence of operations, saving and loading included.

  \<^bold>\<open>Terminal\<close> (\<open>internal/ghostty\<close>): \<open>Ghostty\<close> has the controller by key strokes and the detection of the environment.
  \<^bold>\<open>Protocol\<close> (\<open>internal/agent/protocol.go\<close>): \<open>Protocol\<close> has socket paths, messages, the client with its retries,
  stale sockets and one connection of the server; \<open>Protocol_Spec\<close> their properties and the composition of client and
  server over a connection (\<open>link\<close>) with any faults (\<open>link_faults\<close>): a failed dial or write, a request or an answer
  that is cut off, a read that fails. \<open>Server\<close> has the accept loop, the semaphore, the goroutines and \<open>Close\<close> as a step relation, with its
  invariant, safety and termination.

  \<^bold>\<open>Commands\<close> (\<open>internal/tmux/commands.go\<close>): \<open>Commands\<close> has every handler and the dispatch, \<open>Commands_Spec\<close> what each
  prints, changes and returns. \<^bold>\<open>Wrapper\<close> (\<open>internal/wrapper/wrapper.go\<close>): \<open>Wrapper\<close> and \<open>Wrapper_Spec\<close>, session names,
  the environment of the child, and one run with its clean-up. \<^bold>\<open>Main program\<close> (\<open>cmd/shimux/main.go\<close>): \<open>Main_Shimux\<close>
  composes parser, commands, wrapper and pane manager; \<open>Main_Shimux_Spec\<close> has the modes, the exit codes, the way the
  child meets the program again, and that no state passes from one command to the next.

  \<^bold>\<open>Agent\<close> (\<open>internal/agent/agent.go\<close>, \<open>cmd/shimux-agent/main.go\<close>): \<open>Agent\<close> has the terminal pair and the start as
  functions; \<open>Agent_Run\<close> the time after it as a step relation of the main goroutine, the two copying goroutines, the
  watcher of the window size and the handlers, and the program; \<open>Agent_Run_Spec\<close> the order of the shut-down,
  what becomes of the data of the clients and of the two streams, termination, and what the agent waits for in the
  end (\<open>agent_waits_for_io\<close>); \<open>Agent_Spec\<close> descriptors, sockets and exit codes. The runs (\<open>agent_run\<close>) carry the list
  of their events, so that the result of \<open>Run\<close> and the exit code of the program are those of the \<open>ShellExit\<close> event of
  the run itself.

  This theory has the property that spans all of it: from a \<open>send-keys\<close> command to the terminal of the shell.

  \<^bold>\<open>Bounds.\<close> No definition uses fuel; every loop is structural, or a \<open>function\<close> whose measure is the length of what is
  left to read. Loops of the program that need the world, such as the accept loop and the copies, are step relations,
  and termination is stated for them (\<open>Close_terminates\<close>, \<open>agent_terminates\<close>). The bound of 14 steps in
  \<open>agent_terminates\<close> counts the steps of the main goroutine, of both copies and of the watcher that can be left when
  the master is closed, a call of \<open>Read\<close> or \<open>Write\<close> being one step to make it and one in which it returns.

  \<^bold>\<open>Assumptions\<close> beyond those predicates. The methods of the manager hold its lock throughout, so each is one step; the
  iteration order of a Go map is an argument. In \<open>Agent_Run\<close> a call of \<open>Read\<close> or \<open>Write\<close> made on a closed file returns
  at once with an error; a call that is under way when the file is closed may be cancelled or not, since the code
  calls \<open>Fd\<close> on the master and \<open>os.File\<close> then need not support deadlines; and any call may block for ever. So the
  property that the agent ends is stated up to calls that do not return. \<open>Server.Close\<close> returns when the handlers
  have, which \<open>Server\<close> shows. Output of the shell, or of a process it leaves behind, is modelled up to the close of
  the master, and its end (\<open>Hangup\<close>) may never come. No other process acts on the path of a socket between two calls of
  the one that takes it over. The deadline of a connection appears as a possible error of its stream. Texts of \<open>%q\<close>
  are exact for ASCII, which pane identifiers are.

  \<^bold>\<open>Not modelled.\<close> Go's memory model and the scheduler below the granularity of the steps; the contents of the
  real-time clock; the method \<open>Server.Addr\<close>, which only reads the address; \<open>os.Exit\<close> in the two \<open>main\<close> functions; the
  function \<open>ioctl\<close>, which turns the error number of the system call into an error and is the field \<open>ag_ioctl\<close>; the
  test doubles in \<open>internal/ghostty/ghosttytest\<close> and the tests. The other prototypes of the repository are in other
  languages.
\<close>

section \<open>From the command line to the shell\<close>

text \<open>
  C1: A \<open>send-keys\<close> command and the agent of its target pane, both with the session and the temporary directory of
  the same environment, meet on one socket: while the server of the agent is open and the connection has no faults,
  the command exits with 0 and the agent has written the expansion of the keys to the terminal of the shell, as one
  piece after everything written before, and nothing else has changed on either side. As the data travels as JSON,
  every byte that is not part of valid UTF-8 arrives as U+FFFD; an expansion that is valid UTF-8 arrives as it is.
\<close>
theorem send_keys_reaches_shell:
  assumes "agent_run es s" "\<not> g_server_closed s"
    and "plain_dir (TempDir env) ts" "proper_elem (env ''SHIMUX_SESSION'')"
    and "env ''SHIMUX_PANE_ID'' = N" "list_all is_digit N" "N \<noteq> ''''"
    and "ctx_TempDir ctx = TempDir env" "ctx_Session ctx = env ''SHIMUX_SESSION''"
    and "ctx_os ctx = agent_at (a_socketPath (agent_of ao env)) master_handler ahead"
    and "d = concat (map ExpandSpecialKey keys)" "d \<noteq> ''''" "fits d"
    and "World st = (s, out)"
  shows "\<exists>s'. Execute ctx (command_line ''send-keys'' ([''-t'', CHR ''%'' # N, ''--''] @ keys)) st =
      ((0, None), st\<lparr>World := (s', '''')\<rparr>) \<and>
    agent_run (es @ [Connect (to_valid_utf8 d), Internal, Internal, WriteReturns]) s' \<and>
    s' = s\<lparr>g_in := g_in s @ [(FromClient, to_valid_utf8 d)]\<rparr> \<and> (valid_utf8 d \<longrightarrow> to_valid_utf8 d = d)"
proof -
  obtain s' where s': "master_handler (to_valid_utf8 d) s = (None, s')"
      "agent_run (es @ [Connect (to_valid_utf8 d), Internal, Internal, WriteReturns]) s'"
      "s' = s\<lparr>g_in := g_in s @ [(FromClient, to_valid_utf8 d)]\<rparr>"
    by (rule master_handler_steps [OF assms(1,2)])
  have "CHR ''/'' \<notin> set N" using assms(6) by (auto simp: list_all_iff is_digit_def)
  from SafeSocketPath_abs [OF assms(3,4) this] assms(5) have path: "a_socketPath (agent_of ao env) =
      abs_path (ts @ [''shimux'', session_elem ts (ctx_Session ctx) N, ''pane-'' @ N @ ''.sock''])"
    unfolding assms(9) by (simp add: agent_of_def agent_New_def Let_def)
  show ?thesis
    using send_keys_to_agent [of ctx ts N, OF _ _ assms(6,7) assms(10) [unfolded path] assms(11-13) s'(1) assms(14)]
      assms(3,4,8,9) s'(2,3) to_valid_utf8_id by auto
qed

text \<open>What is lost when it is not: a lone byte 0xFF.\<close>

lemma binary_data_replaced: "to_valid_utf8 [CHR 0xFF] = [CHR 0xEF, CHR 0xBF, CHR 0xBD]"
proof -
  have "decode_rune [CHR 0xFF] = (RuneError, 1)" by simp
  from to_valid_utf8_step [OF _ this] show ?thesis by (simp add: encode_rune_def RuneError_def Let_def char_of_eq_iff)
qed

definition pane_env :: environ where
  "pane_env k = (if k = ''SHIMUX_SESSION'' then ''work'' else if k = ''SHIMUX_PANE_ID'' then ''1'' else '''')"

definition client_ctx :: "(agent_state \<times> string) CommandContext" where
  "client_ctx =
     \<lparr>ctx_Controller = NewWithExecutor (\<lambda>s w. (None, w)), ctx_Session = ''work'',
      ctx_os = agent_at (a_socketPath (agent_of ref_terminals pane_env)) master_handler 0,
      ctx_TempDir = ''/tmp'', ctx_order = rev\<rparr>"

theorem send_keys_reaches_shell_witness:
  "\<exists>s'. Execute client_ctx (command_line ''send-keys'' [''-t'', ''%1'', ''--'', ''ls'', ''Enter''])
       \<lparr>PaneManager = two_panes, Stdout = '''', Stderr = '''', World = (typed_ls, '''')\<rparr> =
     ((0, None), \<lparr>PaneManager = two_panes, Stdout = '''', Stderr = '''', World = (s', '''')\<rparr>) \<and>
     g_in s' = [(FromStdin, ''ls''), (FromClient, ''ls'' @ [CHR 0x0D])]"
proof -
  have keys: "ExpandSpecialKey ''ls'' = ''ls''" "ExpandSpecialKey ''Enter'' = [CHR 0x0D]" by (code_simp+)
  have esc: "escape_json (''ls'' @ [CHR 0x0D]) = ''ls'' @ [CHR 0x5C, CHR ''r'']" by code_simp
  have valid: "to_valid_utf8 (''ls'' @ [CHR 0x0D]) = ''ls'' @ [CHR 0x0D]"
    by (rule to_valid_utf8_id, rule valid_utf8_ascii) simp
  have open_server: "\<not> g_server_closed typed_ls" by (simp add: typed_ls_def agent_running_def)
  have env: "TempDir pane_env = ''/tmp''" "pane_env ''SHIMUX_SESSION'' = ''work''" "pane_env ''SHIMUX_PANE_ID'' = ''1''"
    by (simp_all add: TempDir_def pane_env_def)
  have elem: "proper_elem ''work''" "list_all is_digit ''1''" by (simp_all add: proper_elem_def is_digit_def)
  let ?st = "\<lparr>PaneManager = two_panes, Stdout = '''', Stderr = '''', World = (typed_ls, '''')\<rparr>"
  have d: "''ls'' @ [CHR 0x0D] = concat (map ExpandSpecialKey [''ls'', ''Enter''])" "''ls'' @ [CHR 0x0D] \<noteq> ''''"
      "fits (''ls'' @ [CHR 0x0D])"
    by (simp_all add: keys) (simp add: fits_def esc [simplified])
  have ctx: "ctx_TempDir client_ctx = TempDir pane_env" "ctx_Session client_ctx = pane_env ''SHIMUX_SESSION''"
      "ctx_os client_ctx = agent_at (a_socketPath (agent_of ref_terminals pane_env)) master_handler 0"
    by (simp_all add: client_ctx_def env)
  have dir: "plain_dir (TempDir pane_env) [''tmp'']" "proper_elem (pane_env ''SHIMUX_SESSION'')" "''1'' \<noteq> ''''"
    using tmp_plain elem(1) by (simp_all add: env)
  have world: "World ?st = (typed_ls, '''')" by simp
  from send_keys_reaches_shell [OF typed_ls_run open_server dir(1,2) env(3) elem(2) dir(3) ctx d world]
  obtain s' where "Execute client_ctx (command_line ''send-keys'' ([''-t'', CHR ''%'' # ''1'', ''--''] @ [''ls'', ''Enter''])) ?st =
      ((0, None), ?st\<lparr>World := (s', '''')\<rparr>)"
    "s' = typed_ls\<lparr>g_in := g_in typed_ls @ [(FromClient, to_valid_utf8 (''ls'' @ [CHR 0x0D]))]\<rparr>"
    by (elim exE conjE)
  then show ?thesis by (simp add: valid [simplified] typed_ls_def agent_running_def)
qed

end
